(* ===== verification/Prelude.thy ===== *)
theory Prelude
  imports Main
begin

text \<open>
  Shared ground of the development: the Go base types the model uses (64-bit integers with
  their wrap-around, times and durations in nanoseconds), small lemmas on maps and lists that
  several components share, and transition systems with their reachable states and the
  contract of an inductive invariant.
\<close>

section \<open>Theorem collections\<close>

named_theorems go_string_simps \<open>evaluation of the string functions of the Go library\<close>
named_theorems frame_simps \<open>fields an operation leaves alone\<close>

section \<open>Go integers, times and durations\<close>

text \<open>
  Times are nanoseconds on one monotonic clock, durations are nanoseconds held in an
  \<open>int64\<close>. A product of an \<open>int64\<close> and a unit wraps around in Go, which \<open>wrap64\<close> writes out.
\<close>

type_synonym gotime = int
type_synonym duration = int

definition MinInt64 :: int where
  "MinInt64 = - (2 ^ 63)"

definition MaxInt64 :: int where
  "MaxInt64 = 2 ^ 63 - 1"

definition wrap64 :: "int \<Rightarrow> int" where
  "wrap64 x = (x + 2 ^ 63) mod 2 ^ 64 - 2 ^ 63"

definition Nanosecond :: duration where
  "Nanosecond = 1"

definition Millisecond :: duration where
  "Millisecond = 1000000"

definition Second :: duration where
  "Second = 1000000000"

lemma wrap64_range: "MinInt64 \<le> wrap64 x" "wrap64 x \<le> MaxInt64"
  by (simp_all add: wrap64_def MinInt64_def MaxInt64_def)

lemma wrap64_id: "MinInt64 \<le> x \<Longrightarrow> x \<le> MaxInt64 \<Longrightarrow> wrap64 x = x"
  by (simp add: wrap64_def MinInt64_def MaxInt64_def)

lemma wrap64_mod: "wrap64 x mod 2 ^ 64 = x mod 2 ^ 64"
  by (simp add: wrap64_def mod_diff_left_eq)

text \<open>Go's integer division truncates towards zero.\<close>

definition go_div :: "int \<Rightarrow> int \<Rightarrow> int" where
  "go_div a b = sgn a * sgn b * (\<bar>a\<bar> div \<bar>b\<bar>)"

lemma go_div_nonneg: "0 \<le> a \<Longrightarrow> 0 < b \<Longrightarrow> go_div a b = a div b"
  by (cases "a = 0") (auto simp: go_div_def)

text \<open>\<open>Duration.Milliseconds()\<close> is the integer quotient.\<close>

definition Milliseconds :: "duration \<Rightarrow> int" where
  "Milliseconds d = go_div d Millisecond"

section \<open>Maps\<close>

definition mkset :: "'a list \<Rightarrow> 'a \<Rightarrow> bool" where
  "mkset xs = foldl (\<lambda>m x. m(x := True)) (\<lambda>_. False) xs"

text \<open>
  A Go \<open>map[K]bool\<close> read with \<open>m[k]\<close> gives \<open>false\<close> for a missing key, so such a map is a
  predicate; \<open>mkset\<close> is the loop \<open>for _, x := range xs { m[x] = true }\<close>.
\<close>

lemma foldl_mkset: "foldl (\<lambda>m x. m(x := True)) m xs k \<longleftrightarrow> m k \<or> k \<in> set xs"
  by (induction xs arbitrary: m) auto

lemma mkset_iff [simp]: "mkset xs k \<longleftrightarrow> k \<in> set xs"
  by (simp add: mkset_def foldl_mkset)

lemma mkset_Nil [simp]: "mkset [] = (\<lambda>_. False)"
  by (simp add: mkset_def)

lemma find_SomeD: "find P xs = Some x \<Longrightarrow> x \<in> set xs \<and> P x"
  by (induction xs) (auto split: if_splits)

section \<open>Transition systems\<close>

text \<open>
  A system is a predicate of start states and a step relation. Safety properties are proved
  by giving an inductive invariant, which is the contract \<open>inductive_invariant\<close>.
\<close>

inductive reachable_from :: "('s \<Rightarrow> bool) \<Rightarrow> ('s \<Rightarrow> 's \<Rightarrow> bool) \<Rightarrow> 's \<Rightarrow> bool"
  for init :: "'s \<Rightarrow> bool" and step :: "'s \<Rightarrow> 's \<Rightarrow> bool"
where
  start: "init s \<Longrightarrow> reachable_from init step s"
| move: "reachable_from init step s \<Longrightarrow> step s t \<Longrightarrow> reachable_from init step t"

locale inductive_invariant =
  fixes init :: "'s \<Rightarrow> bool"
    and step :: "'s \<Rightarrow> 's \<Rightarrow> bool"
    and inv :: "'s \<Rightarrow> bool"
  assumes inv_init: "init s \<Longrightarrow> inv s"
    and inv_step: "inv s \<Longrightarrow> step s t \<Longrightarrow> inv t"
begin

lemma reachable_inv: "reachable_from init step s \<Longrightarrow> inv s"
  by (induction rule: reachable_from.induct) (auto intro: inv_init inv_step)

lemma steps_inv: "step\<^sup>*\<^sup>* s t \<Longrightarrow> inv s \<Longrightarrow> inv t"
  by (induction rule: rtranclp_induct) (auto intro: inv_step)

end

lemma reachable_from_steps:
  "step\<^sup>*\<^sup>* s t \<Longrightarrow> reachable_from init step s \<Longrightarrow> reachable_from init step t"
  by (induction rule: rtranclp_induct) (auto intro: reachable_from.move)

end
