(* ===== verification/Cache.thy ===== *)
theory Cache
  imports Prelude "HOL-Library.Sublist"
begin

text \<open>
  Package \<open>cache\<close> (\<open>internal/cache/detection.go\<close>): the cache of real-time detections, keyed by
  absolute path. First the operations one by one, each a critical section of the code; then
  the contract of a detection store, which they implement; then all goroutines together as a
  labelled transition system in which \<open>Wait\<close> is a small program that polls, selects on the
  channel \<open>added\<close> and its timer, and polls again.

  A channel that is closed and replaced on every \<open>Add\<close> is numbered: \<open>dc_added\<close> is the number
  of the current one, and every smaller number is a channel that has been closed.
\<close>

section \<open>State and operations\<close>

definition DefaultTTL :: duration where
  "DefaultTTL = 60 * Second"

definition DefaultCleanupInterval :: duration where
  "DefaultCleanupInterval = 30 * Second"

record Detection =
  det_FilePath :: string
  det_Status :: string  \<comment> \<open>"infected" or "clean"\<close>
  det_Signature :: string
  det_Raw :: string
  det_Timestamp :: gotime

record DetectionCache =
  dc_detections :: "string \<rightharpoonup> Detection"
  dc_ttl :: duration
  dc_stopped :: bool  \<comment> \<open>\<open>stopCh\<close> is closed\<close>
  dc_added :: nat

definition NewDetectionCache :: "duration \<Rightarrow> DetectionCache" where
  "NewDetectionCache ttl =
     \<lparr>dc_detections = Map.empty, dc_ttl = (if ttl = 0 then DefaultTTL else ttl),
      dc_stopped = False, dc_added = 0\<rparr>"

definition cache_Add :: "string \<Rightarrow> Detection \<Rightarrow> gotime \<Rightarrow> DetectionCache \<Rightarrow> DetectionCache" where
  "cache_Add absPath d now c =
     c\<lparr>dc_detections := (dc_detections c)(absPath \<mapsto> d\<lparr>det_Timestamp := now\<rparr>),
       dc_added := Suc (dc_added c)\<rparr>"

definition cache_Get :: "string \<Rightarrow> DetectionCache \<Rightarrow> Detection option \<times> DetectionCache" where
  "cache_Get absPath c =
     (case dc_detections c absPath of
        None \<Rightarrow> (None, c)
      | Some d \<Rightarrow> (Some d, c\<lparr>dc_detections := (dc_detections c)(absPath := None)\<rparr>))"

definition cache_Peek :: "string \<Rightarrow> DetectionCache \<Rightarrow> Detection option" where
  "cache_Peek absPath c = dc_detections c absPath"

text \<open>Closing a closed channel panics: \<open>None\<close>.\<close>

definition cache_Stop :: "DetectionCache \<Rightarrow> DetectionCache option" where
  "cache_Stop c = (if dc_stopped c then None else Some (c\<lparr>dc_stopped := True\<rparr>))"

definition cache_cleanup :: "gotime \<Rightarrow> DetectionCache \<Rightarrow> DetectionCache" where
  "cache_cleanup now c =
     c\<lparr>dc_detections :=
         (\<lambda>path. case dc_detections c path of
                   None \<Rightarrow> None
                 | Some d \<Rightarrow> if now - det_Timestamp d > dc_ttl c then None else Some d)\<rparr>"

text \<open>One turn of \<open>cleanupLoop\<close>: \<open>None\<close> when it sees \<open>stopCh\<close> closed and returns.\<close>

definition cleanup_tick :: "gotime \<Rightarrow> DetectionCache \<Rightarrow> DetectionCache option" where
  "cleanup_tick now c = (if dc_stopped c then None else Some (cache_cleanup now c))"

text \<open>
  The critical section of \<open>Wait\<close>: the detection, removed, or else the channel to wait on.
\<close>

definition Wait_poll :: "string \<Rightarrow> DetectionCache \<Rightarrow> (Detection + nat) \<times> DetectionCache" where
  "Wait_poll absPath c =
     (case dc_detections c absPath of
        Some d \<Rightarrow> (Inl d, c\<lparr>dc_detections := (dc_detections c)(absPath := None)\<rparr>)
      | None \<Rightarrow> (Inr (dc_added c), c))"

definition channel_closed :: "nat \<Rightarrow> DetectionCache \<Rightarrow> bool" where
  "channel_closed ch c \<longleftrightarrow> ch < dc_added c"

section \<open>The contract of a detection store\<close>

text \<open>
  What the drivers and the scanner rely on: a store is a map from paths to detections; putting
  one in replaces what was there and stamps it, taking one out returns it once.
\<close>

locale detection_store =
  fixes put :: "string \<Rightarrow> Detection \<Rightarrow> gotime \<Rightarrow> 'c \<Rightarrow> 'c"
    and take_out :: "string \<Rightarrow> 'c \<Rightarrow> Detection option \<times> 'c"
    and view :: "'c \<Rightarrow> string \<Rightarrow> Detection option"
  assumes view_put: "view (put p d now c) = (view c)(p \<mapsto> d\<lparr>det_Timestamp := now\<rparr>)"
    and take_result: "fst (take_out p c) = view c p"
    and view_take: "view (snd (take_out p c)) = (view c)(p := None)"
begin

lemma put_take: "fst (take_out p (put p d now c)) = Some (d\<lparr>det_Timestamp := now\<rparr>)"
  by (simp add: take_result view_put)

lemma put_take_other: "p \<noteq> q \<Longrightarrow> fst (take_out q (put p d now c)) = fst (take_out q c)"
  by (simp add: take_result view_put)

lemma take_twice: "fst (take_out p (snd (take_out p c))) = None"
  by (simp add: take_result view_take)

lemma take_other: "p \<noteq> q \<Longrightarrow> fst (take_out q (snd (take_out p c))) = fst (take_out q c)"
  by (simp add: take_result view_take)

lemma put_take_view:
  "view c p = None \<Longrightarrow> view (snd (take_out p (put p d now c))) = view c"
  by (auto simp: view_take view_put)

end

definition poll_take :: "string \<Rightarrow> DetectionCache \<Rightarrow> Detection option \<times> DetectionCache" where
  "poll_take p c = (case Wait_poll p c of (Inl d, c') \<Rightarrow> (Some d, c') | (Inr _, c') \<Rightarrow> (None, c'))"

interpretation dc: detection_store cache_Add cache_Get dc_detections
  by unfold_locales (auto simp: cache_Add_def cache_Get_def split: option.splits)

interpretation wp: detection_store cache_Add poll_take dc_detections
  by unfold_locales
    (auto simp: cache_Add_def poll_take_def Wait_poll_def split: option.splits)

text \<open>
  The cache is a store that delivers a detection once: after \<open>Add\<close>, \<open>Get\<close> and the poll of
  \<open>Wait\<close> both return the added detection with its timestamp, a second take finds nothing, and
  other paths are unaffected.
\<close>

lemma cache_take_once:
  "fst (cache_Get p (cache_Add p d now c)) = Some (d\<lparr>det_Timestamp := now\<rparr>) \<and>
   fst (poll_take p (cache_Add p d now c)) = Some (d\<lparr>det_Timestamp := now\<rparr>) \<and>
   cache_Peek p (cache_Add p d now c) = Some (d\<lparr>det_Timestamp := now\<rparr>) \<and>
   fst (cache_Get p (snd (cache_Get p c))) = None \<and>
   fst (cache_Get p (snd (poll_take p c))) = None \<and>
   (p = q \<or> fst (cache_Get q (cache_Add p d now c)) = fst (cache_Get q c) \<and>
            fst (cache_Get q (snd (poll_take p c))) = fst (cache_Get q c))"
  by (simp add: dc.put_take wp.put_take dc.take_twice dc.put_take_other cache_Peek_def
      dc.view_put dc.take_result dc.view_take wp.view_take)

section \<open>Expiry\<close>

lemma cleanup_keeps:
  "dc_detections (cache_cleanup now c) p = Some d \<longleftrightarrow>
   dc_detections c p = Some d \<and> now - det_Timestamp d \<le> dc_ttl c"
  by (auto simp: cache_cleanup_def split: option.splits)

lemma cleanup_frame [frame_simps]:
  "dc_ttl (cache_cleanup now c) = dc_ttl c" "dc_added (cache_cleanup now c) = dc_added c"
  "dc_stopped (cache_cleanup now c) = dc_stopped c"
  by (simp_all add: cache_cleanup_def)

lemma Add_frame [frame_simps]:
  "dc_ttl (cache_Add p d now c) = dc_ttl c" "dc_stopped (cache_Add p d now c) = dc_stopped c"
  "dc_added (cache_Add p d now c) = Suc (dc_added c)"
  by (simp_all add: cache_Add_def)

lemma Get_frame [frame_simps]:
  "dc_ttl (snd (cache_Get p c)) = dc_ttl c" "dc_added (snd (cache_Get p c)) = dc_added c"
  "dc_stopped (snd (cache_Get p c)) = dc_stopped c"
  by (simp_all add: cache_Get_def split: option.splits)

lemma Wait_poll_cases:
  "Wait_poll p c = (r, c') \<Longrightarrow>
   (\<exists>d. dc_detections c p = Some d \<and> r = Inl d \<and>
        c' = c\<lparr>dc_detections := (dc_detections c)(p := None)\<rparr>) \<or>
   (dc_detections c p = None \<and> r = Inr (dc_added c) \<and> c' = c)"
  by (auto simp: Wait_poll_def split: option.splits)

lemma Get_cases:
  "cache_Get p c = (r, c') \<Longrightarrow>
   (\<exists>d. dc_detections c p = Some d \<and> r = Some d \<and>
        c' = c\<lparr>dc_detections := (dc_detections c)(p := None)\<rparr>) \<or>
   (dc_detections c p = None \<and> r = None \<and> c' = c)"
  by (auto simp: cache_Get_def split: option.splits)

section \<open>All goroutines together\<close>

datatype WaiterPC =
    Checking                      \<comment> \<open>about to lock the mutex and look\<close>
  | Selecting nat                 \<comment> \<open>blocked in \<open>select\<close> on that channel and the timer\<close>
  | Returned "Detection option"

record Waiter =
  wt_path :: string
  wt_deadline :: gotime
  wt_pc :: WaiterPC

record CacheSys =
  cs_cache :: DetectionCache
  cs_now :: gotime
  cs_waiters :: "nat \<rightharpoonup> Waiter"

datatype CacheLabel =
    LAdd string Detection    \<comment> \<open>a detection was stored for the path\<close>
  | LTake string Detection   \<comment> \<open>a caller was given the detection of the path\<close>
  | LTau

text \<open>
  One rule per critical section or channel operation. \<open>select\<close> with both channels ready may
  take either: \<open>wake\<close> and \<open>expire\<close> are both possible then.
\<close>

inductive cache_step :: "CacheSys \<Rightarrow> CacheLabel \<Rightarrow> CacheSys \<Rightarrow> bool" where
  add: "cache_step s (LAdd p (d\<lparr>det_Timestamp := cs_now s\<rparr>))
     (s\<lparr>cs_cache := cache_Add p d (cs_now s) (cs_cache s)\<rparr>)"
| get_hit: "cache_Get p (cs_cache s) = (Some d, c') \<Longrightarrow>
     cache_step s (LTake p d) (s\<lparr>cs_cache := c'\<rparr>)"
| get_miss: "cache_Get p (cs_cache s) = (None, c') \<Longrightarrow> cache_step s LTau (s\<lparr>cs_cache := c'\<rparr>)"
| call: "cs_waiters s i = None \<Longrightarrow>
     cache_step s LTau (s\<lparr>cs_waiters := (cs_waiters s)(i \<mapsto>
       \<lparr>wt_path = p, wt_deadline = cs_now s + timeout, wt_pc = Checking\<rparr>)\<rparr>)"
| hit: "cs_waiters s i = Some w \<Longrightarrow> wt_pc w = Checking \<Longrightarrow>
     Wait_poll (wt_path w) (cs_cache s) = (Inl d, c') \<Longrightarrow>
     cache_step s (LTake (wt_path w) d)
       (s\<lparr>cs_cache := c', cs_waiters := (cs_waiters s)(i \<mapsto> w\<lparr>wt_pc := Returned (Some d)\<rparr>)\<rparr>)"
| miss: "cs_waiters s i = Some w \<Longrightarrow> wt_pc w = Checking \<Longrightarrow>
     Wait_poll (wt_path w) (cs_cache s) = (Inr ch, c') \<Longrightarrow>
     cache_step s LTau
       (s\<lparr>cs_cache := c', cs_waiters := (cs_waiters s)(i \<mapsto> w\<lparr>wt_pc := Selecting ch\<rparr>)\<rparr>)"
| wake: "cs_waiters s i = Some w \<Longrightarrow> wt_pc w = Selecting ch \<Longrightarrow>
     channel_closed ch (cs_cache s) \<Longrightarrow>
     cache_step s LTau (s\<lparr>cs_waiters := (cs_waiters s)(i \<mapsto> w\<lparr>wt_pc := Checking\<rparr>)\<rparr>)"
| expire: "cs_waiters s i = Some w \<Longrightarrow> wt_pc w = Selecting ch \<Longrightarrow> wt_deadline w \<le> cs_now s \<Longrightarrow>
     cache_step s LTau (s\<lparr>cs_waiters := (cs_waiters s)(i \<mapsto> w\<lparr>wt_pc := Returned None\<rparr>)\<rparr>)"
| tick: "0 \<le> dt \<Longrightarrow> cache_step s LTau (s\<lparr>cs_now := cs_now s + dt\<rparr>)"
| sweep: "cleanup_tick (cs_now s) (cs_cache s) = Some c' \<Longrightarrow>
     cache_step s LTau (s\<lparr>cs_cache := c'\<rparr>)"
| stop: "cache_Stop (cs_cache s) = Some c' \<Longrightarrow> cache_step s LTau (s\<lparr>cs_cache := c'\<rparr>)"

inductive_cases cache_step_addE: "cache_step s (LAdd p d) t"
inductive_cases cache_step_takeE: "cache_step s (LTake p d) t"

definition cache_init :: "CacheSys \<Rightarrow> bool" where
  "cache_init s \<longleftrightarrow>
     (\<exists>ttl. cs_cache s = NewDetectionCache ttl) \<and> cs_waiters s = Map.empty"

definition cache_move :: "CacheSys \<Rightarrow> CacheSys \<Rightarrow> bool" where
  "cache_move s t \<longleftrightarrow> (\<exists>l. cache_step s l t)"

subsection \<open>No lost wake-up\<close>

text \<open>
  A goroutine blocked in \<open>select\<close> holds the channel it read when its path was absent. Only
  \<open>Add\<close> makes the path present, and \<open>Add\<close> closes that channel. A timeout is only returned once
  the deadline has passed.
\<close>

definition waiter_ok :: "DetectionCache \<Rightarrow> gotime \<Rightarrow> Waiter \<Rightarrow> bool" where
  "waiter_ok c now w \<longleftrightarrow>
     (case wt_pc w of
        Checking \<Rightarrow> True
      | Selecting ch \<Rightarrow> ch \<le> dc_added c \<and>
          (dc_detections c (wt_path w) = None \<or> channel_closed ch c)
      | Returned None \<Rightarrow> wt_deadline w \<le> now
      | Returned (Some d) \<Rightarrow> True)"

definition cache_inv :: "CacheSys \<Rightarrow> bool" where
  "cache_inv s \<longleftrightarrow> (\<forall>w\<in>ran (cs_waiters s). waiter_ok (cs_cache s) (cs_now s) w)"

lemma cache_invI:
  "(\<And>i w. cs_waiters s i = Some w \<Longrightarrow> waiter_ok (cs_cache s) (cs_now s) w) \<Longrightarrow> cache_inv s"
  by (auto simp: cache_inv_def ran_def)

lemma cache_invD:
  "cache_inv s \<Longrightarrow> cs_waiters s i = Some w \<Longrightarrow> waiter_ok (cs_cache s) (cs_now s) w"
  by (auto simp: cache_inv_def ran_def)

text \<open>Removing entries, adding one, and time passing keep a waiter's condition.\<close>

lemma waiter_ok_shrink:
  "waiter_ok c now w \<Longrightarrow> dc_added c' = dc_added c \<Longrightarrow>
   (\<And>p. dc_detections c p = None \<Longrightarrow> dc_detections c' p = None) \<Longrightarrow> waiter_ok c' now w"
  by (auto simp: waiter_ok_def channel_closed_def split: WaiterPC.splits option.splits)

lemma waiter_ok_Add: "waiter_ok c now w \<Longrightarrow> waiter_ok (cache_Add p d t c) now w"
  by (auto simp: waiter_ok_def channel_closed_def frame_simps
      split: WaiterPC.splits option.splits)

lemma waiter_ok_later: "waiter_ok c now w \<Longrightarrow> now \<le> now' \<Longrightarrow> waiter_ok c now' w"
  by (auto simp: waiter_ok_def split: WaiterPC.splits option.splits)

lemma cache_inv_cache:
  "cache_inv s \<Longrightarrow> (\<And>w. waiter_ok (cs_cache s) (cs_now s) w \<Longrightarrow> waiter_ok c' (cs_now s) w) \<Longrightarrow>
   cache_inv (s\<lparr>cs_cache := c'\<rparr>)"
  by (rule cache_invI) (auto dest: cache_invD)

lemma cache_inv_waiter:
  "cache_inv s \<Longrightarrow> waiter_ok (cs_cache s) (cs_now s) w \<Longrightarrow>
   cache_inv (s\<lparr>cs_waiters := (cs_waiters s)(i \<mapsto> w)\<rparr>)"
  by (rule cache_invI) (auto dest: cache_invD split: if_splits)

lemma cache_inv_shrink:
  assumes "cache_inv s" "dc_added c' = dc_added (cs_cache s)"
    and "\<And>p. dc_detections (cs_cache s) p = None \<Longrightarrow> dc_detections c' p = None"
  shows "cache_inv (s\<lparr>cs_cache := c'\<rparr>)"
  using assms by (intro cache_inv_cache) (auto intro: waiter_ok_shrink)

lemma cache_step_inv: "cache_step s l t \<Longrightarrow> cache_inv s \<Longrightarrow> cache_inv t"
proof (induction rule: cache_step.induct)
  case (add s p d)
  then show ?case by (intro cache_inv_cache) (auto intro: waiter_ok_Add)
next
  case (get_hit p s d c')
  then show ?case by (intro cache_inv_shrink) (auto dest!: Get_cases)
next
  case (get_miss p s c')
  then show ?case by (intro cache_inv_shrink) (auto dest!: Get_cases)
next
  case (call s i p timeout)
  then show ?case by (intro cache_inv_waiter) (auto simp: waiter_ok_def)
next
  case (hit s i w d c')
  then have c': "c' = (cs_cache s)\<lparr>dc_detections := (dc_detections (cs_cache s))(wt_path w := None)\<rparr>"
    by (auto dest: Wait_poll_cases)
  then have "cache_inv (s\<lparr>cs_cache := c'\<rparr>)"
    using hit by (intro cache_inv_shrink) auto
  from cache_inv_waiter [OF this, of "w\<lparr>wt_pc := Returned (Some d)\<rparr>" i]
  show ?case by (simp add: waiter_ok_def)
next
  case (miss s i w ch c')
  then have "c' = cs_cache s" "ch = dc_added (cs_cache s)"
    "dc_detections (cs_cache s) (wt_path w) = None"
    by (auto dest: Wait_poll_cases)
  with miss show ?case
    using cache_inv_waiter [of s "w\<lparr>wt_pc := Selecting ch\<rparr>" i] by (simp add: waiter_ok_def)
next
  case (wake s i w ch)
  then show ?case by (intro cache_inv_waiter) (auto simp: waiter_ok_def)
next
  case (expire s i w ch)
  then show ?case by (intro cache_inv_waiter) (auto simp: waiter_ok_def)
next
  case (tick dt s)
  then show ?case by (intro cache_invI) (auto dest: cache_invD intro: waiter_ok_later)
next
  case (sweep s c')
  then show ?case
    by (intro cache_inv_shrink)
      (auto simp: cleanup_tick_def cache_cleanup_def split: if_splits)
next
  case (stop s c')
  then show ?case by (intro cache_inv_shrink) (auto simp: cache_Stop_def split: if_splits)
qed

interpretation cache_sys: inductive_invariant cache_init cache_move cache_inv
proof unfold_locales
  fix s :: CacheSys
  assume "cache_init s"
  then show "cache_inv s" by (simp add: cache_init_def cache_inv_def)
next
  fix s t :: CacheSys
  assume "cache_inv s" "cache_move s t"
  then show "cache_inv t" by (auto simp: cache_move_def intro: cache_step_inv)
qed

text \<open>
  C16: in every interleaving of \<open>Add\<close>, \<open>Get\<close>, \<open>Wait\<close>, the cleanup and \<open>Stop\<close>, a \<open>Wait\<close> that is
  blocked in \<open>select\<close> while a detection of its path is in the cache is not stuck: it can wake
  up and then return that detection. No wake-up is lost.
\<close>

theorem Wait_no_lost_wakeup:
  assumes "reachable_from cache_init cache_move s"
    and "cs_waiters s i = Some w" and "wt_pc w = Selecting ch"
    and "dc_detections (cs_cache s) (wt_path w) = Some d"
  shows "\<exists>t u. cache_step s LTau t \<and> cache_step t (LTake (wt_path w) d) u \<and>
    map_option wt_pc (cs_waiters u i) = Some (Returned (Some d)) \<and>
    dc_detections (cs_cache u) (wt_path w) = None"
proof -
  from assms(1) have "cache_inv s" by (rule cache_sys.reachable_inv)
  with assms(2-4) have closed: "channel_closed ch (cs_cache s)"
    by (auto dest!: cache_invD simp: waiter_ok_def)
  let ?w = "w\<lparr>wt_pc := Checking\<rparr>"
  let ?t = "s\<lparr>cs_waiters := (cs_waiters s)(i \<mapsto> ?w)\<rparr>"
  let ?c = "(cs_cache s)\<lparr>dc_detections := (dc_detections (cs_cache s))(wt_path w := None)\<rparr>"
  have t: "cache_step s LTau ?t" using assms(2,3) closed by (rule cache_step.wake)
  let ?u = "?t\<lparr>cs_cache := ?c, cs_waiters := (cs_waiters ?t)(i \<mapsto> ?w\<lparr>wt_pc := Returned (Some d)\<rparr>)\<rparr>"
  have "cache_step ?t (LTake (wt_path ?w) d) ?u"
    by (rule cache_step.hit) (use assms(4) in \<open>simp_all add: Wait_poll_def\<close>)
  with t show ?thesis by (intro exI [of _ ?t] exI [of _ ?u]) simp
qed

text \<open>
  \<open>Wait\<close> reports "no detection" only when its timeout has passed, in every interleaving.
\<close>

lemma Wait_timeout_honest:
  assumes "reachable_from cache_init cache_move s"
    and "cs_waiters s i = Some w" and "wt_pc w = Returned None"
  shows "wt_deadline w \<le> cs_now s"
proof -
  from assms(1) have "cache_inv s" by (rule cache_sys.reachable_inv)
  with assms(2,3) show ?thesis by (auto dest!: cache_invD simp: waiter_ok_def)
qed

subsection \<open>A waiter always finishes\<close>

inductive cache_trace :: "CacheSys \<Rightarrow> CacheLabel list \<Rightarrow> CacheSys \<Rightarrow> bool" where
  t_nil: "cache_trace s [] s"
| t_snoc: "cache_trace s ls t \<Longrightarrow> cache_step t l u \<Longrightarrow> cache_trace s (ls @ [l]) u"

lemma cache_trace_1: "cache_step s l t \<Longrightarrow> cache_trace s [l] t"
  using cache_trace.t_snoc [OF cache_trace.t_nil] by simp

lemma cache_trace_2: "cache_step s l t \<Longrightarrow> cache_step t m u \<Longrightarrow> cache_trace s [l, m] u"
  using cache_trace.t_snoc [OF cache_trace_1] by simp

text \<open>The steps a caller of \<open>Wait\<close> takes itself: those that change where it is.\<close>

definition own_step :: "nat \<Rightarrow> CacheSys \<Rightarrow> CacheLabel \<Rightarrow> CacheSys \<Rightarrow> bool" where
  "own_step i s l t \<longleftrightarrow> cache_step s l t \<and> cs_waiters t i \<noteq> cs_waiters s i"

inductive own_run :: "nat \<Rightarrow> CacheSys \<Rightarrow> CacheLabel list \<Rightarrow> CacheSys \<Rightarrow> bool" for i :: nat and s :: CacheSys where
  o_nil: "own_run i s [] s"
| o_snoc: "own_run i s ls t \<Longrightarrow> own_step i t l u \<Longrightarrow> own_run i s (ls @ [l]) u"

lemma own_step_cases:
  assumes "own_step i s l t" "cs_waiters s i = Some w"
  shows "wt_pc w = Checking \<and>
      (\<exists>d. dc_detections (cs_cache s) (wt_path w) = Some d \<and>
         cs_waiters t i = Some (w\<lparr>wt_pc := Returned (Some d)\<rparr>)) \<or>
    wt_pc w = Checking \<and> dc_detections (cs_cache s) (wt_path w) = None \<and>
      cs_cache t = cs_cache s \<and> cs_now t = cs_now s \<and>
      cs_waiters t i = Some (w\<lparr>wt_pc := Selecting (dc_added (cs_cache s))\<rparr>) \<or>
    (\<exists>ch. wt_pc w = Selecting ch) \<and> cs_waiters t i = Some (w\<lparr>wt_pc := Returned None\<rparr>) \<or>
    (\<exists>ch. wt_pc w = Selecting ch \<and> channel_closed ch (cs_cache s)) \<and>
      cs_cache t = cs_cache s \<and> cs_now t = cs_now s \<and> cs_waiters t i = Some (w\<lparr>wt_pc := Checking\<rparr>)"
proof -
  from assms(1) have "cache_step s l t" "cs_waiters t i \<noteq> cs_waiters s i" by (simp_all add: own_step_def)
  then show ?thesis
    using assms(2)
    by (cases rule: cache_step.cases) (auto dest!: Wait_poll_cases split: if_splits)
qed

text \<open>Where a caller is after some steps of its own.\<close>

lemma own_run_states:
  assumes "own_run i s ls t" "cs_waiters s i = Some w" "\<And>r. wt_pc w \<noteq> Returned r"
  shows "\<exists>pc. cs_waiters t i = Some (w\<lparr>wt_pc := pc\<rparr>) \<and>
    (case pc of
       Checking \<Rightarrow> length ls \<le> 1 \<and> (wt_pc w = Checking \<longrightarrow> ls = []) \<and>
         cs_cache t = cs_cache s \<and> cs_now t = cs_now s
     | Selecting ch \<Rightarrow> cs_cache t = cs_cache s \<and> cs_now t = cs_now s \<and>
         (ls = [] \<and> wt_pc w \<noteq> Checking \<or>
          length ls \<le> 2 \<and> dc_detections (cs_cache s) (wt_path w) = None \<and> ch = dc_added (cs_cache s))
     | Returned r \<Rightarrow> length ls \<le> 3 \<and> (r = None \<or> r = dc_detections (cs_cache s) (wt_path w)) \<and>
         (wt_pc w = Checking \<longrightarrow> r = dc_detections (cs_cache s) (wt_path w)))"
  using assms(1)
proof (induction rule: own_run.induct)
  case o_nil
  have "w = w\<lparr>wt_pc := wt_pc w\<rparr>" by simp
  with assms(2,3) show ?case by (intro exI [of _ "wt_pc w"]) (auto split: WaiterPC.splits)
next
  case (o_snoc ls t l u)
  then obtain pc where pc: "cs_waiters t i = Some (w\<lparr>wt_pc := pc\<rparr>)"
    and st: "case pc of
       Checking \<Rightarrow> length ls \<le> 1 \<and> (wt_pc w = Checking \<longrightarrow> ls = []) \<and>
         cs_cache t = cs_cache s \<and> cs_now t = cs_now s
     | Selecting ch \<Rightarrow> cs_cache t = cs_cache s \<and> cs_now t = cs_now s \<and>
         (ls = [] \<and> wt_pc w \<noteq> Checking \<or>
          length ls \<le> 2 \<and> dc_detections (cs_cache s) (wt_path w) = None \<and> ch = dc_added (cs_cache s))
     | Returned r \<Rightarrow> length ls \<le> 3 \<and> (r = None \<or> r = dc_detections (cs_cache s) (wt_path w)) \<and>
         (wt_pc w = Checking \<longrightarrow> r = dc_detections (cs_cache s) (wt_path w))"
    by blast
  from own_step_cases [OF o_snoc.hyps(2) pc] show ?case
  proof (elim disjE conjE exE, goal_cases)
    case (1 d)
    with st show ?case by (auto intro!: exI [of _ "Returned (Some d)"])
  next
    case 2
    with st show ?case by (auto intro!: exI [of _ "Selecting (dc_added (cs_cache t))"])
  next
    case (3 ch)
    with st show ?case by (auto intro!: exI [of _ "Returned None"])
  next
    case (4 ch)
    with st show ?case by (auto simp: channel_closed_def intro!: exI [of _ Checking])
  qed
qed

lemma own_stepI:
  "cache_step s l t \<Longrightarrow> cs_waiters s i = Some w \<Longrightarrow> cs_waiters t i = Some w' \<Longrightarrow> wt_pc w' \<noteq> wt_pc w \<Longrightarrow>
   \<exists>l t. own_step i s l t"
  unfolding own_step_def by (metis option.inject)

text \<open>A caller whose timer has fired can always take a step of its own.\<close>

lemma own_step_enabled:
  assumes "cs_waiters s i = Some w" "wt_deadline w \<le> cs_now s" "\<And>r. wt_pc w \<noteq> Returned r"
  shows "\<exists>l t. own_step i s l t"
proof (cases "wt_pc w")
  case Checking
  obtain r c where poll: "Wait_poll (wt_path w) (cs_cache s) = (r, c)" by fastforce
  show ?thesis
  proof (cases r)
    case (Inl d)
    from cache_step.hit [OF assms(1) Checking poll [unfolded Inl]] assms(1) show ?thesis
      by (rule own_stepI) (simp, simp add: Checking)
  next
    case (Inr ch)
    from cache_step.miss [OF assms(1) Checking poll [unfolded Inr]] assms(1) show ?thesis
      by (rule own_stepI) (simp, simp add: Checking)
  qed
next
  case (Selecting ch)
  from cache_step.expire [OF assms(1) Selecting assms(2)] assms(1) show ?thesis
    by (rule own_stepI) (simp, simp add: Selecting)
qed (use assms(3) in blast)

text \<open>
  C40: \<open>Wait\<close> does not block for ever. Once its timer has fired, a caller left to itself returns, whichever
  steps it takes: it makes at most three of its own, until it has returned there is always a next one,
  and what it returns is the detection of its path that is in the cache, or nothing. If it is about
  to look, it is exactly that detection, and nothing only if there is none; if it is still in \<open>select\<close>,
  the timer may win over a detection that is there.
\<close>

theorem Wait_finishes:
  assumes "cs_waiters s i = Some w" and "wt_deadline w \<le> cs_now s"
    and "wt_pc w = Checking \<or> wt_pc w = Selecting ch" and "own_run i s ls t"
  shows "length ls \<le> 3 \<and>
    (\<exists>w'. cs_waiters t i = Some w' \<and>
       (case wt_pc w' of
          Returned r \<Rightarrow>
            r \<in> {None, dc_detections (cs_cache s) (wt_path w)} \<and>
            (wt_pc w = Checking \<longrightarrow> r = dc_detections (cs_cache s) (wt_path w))
        | _ \<Rightarrow> \<exists>l u. own_step i t l u))"
proof -
  have "wt_pc w \<noteq> Returned r" for r using assms(3) by auto
  from own_run_states [OF assms(4,1) this] obtain pc where pc: "cs_waiters t i = Some (w\<lparr>wt_pc := pc\<rparr>)"
    and st: "case pc of
       Checking \<Rightarrow> length ls \<le> 1 \<and> (wt_pc w = Checking \<longrightarrow> ls = []) \<and>
         cs_cache t = cs_cache s \<and> cs_now t = cs_now s
     | Selecting ch \<Rightarrow> cs_cache t = cs_cache s \<and> cs_now t = cs_now s \<and>
         (ls = [] \<and> wt_pc w \<noteq> Checking \<or>
          length ls \<le> 2 \<and> dc_detections (cs_cache s) (wt_path w) = None \<and> ch = dc_added (cs_cache s))
     | Returned r \<Rightarrow> length ls \<le> 3 \<and> (r = None \<or> r = dc_detections (cs_cache s) (wt_path w)) \<and>
         (wt_pc w = Checking \<longrightarrow> r = dc_detections (cs_cache s) (wt_path w))"
    by blast
  have next_step: "\<exists>l u. own_step i t l u" if "\<And>r. pc \<noteq> Returned r" "cs_now t = cs_now s"
    using own_step_enabled [OF pc] that assms(2) by simp
  show ?thesis
  proof (cases pc)
    case (Returned r)
    with pc st show ?thesis by auto
  qed (use pc st next_step in auto)
qed

subsection \<open>Each detection is delivered at most once, in order\<close>

definition adds_of :: "string \<Rightarrow> CacheLabel list \<Rightarrow> Detection list" where
  "adds_of p ls = concat (map (\<lambda>l. case l of LAdd q d \<Rightarrow> if q = p then [d] else [] | _ \<Rightarrow> []) ls)"

definition takes_of :: "string \<Rightarrow> CacheLabel list \<Rightarrow> Detection list" where
  "takes_of p ls = concat (map (\<lambda>l. case l of LTake q d \<Rightarrow> if q = p then [d] else [] | _ \<Rightarrow> []) ls)"

lemma adds_of_snoc [simp]:
  "adds_of p [] = []"
  "adds_of p (ls @ [LAdd q d]) = adds_of p ls @ (if q = p then [d] else [])"
  "adds_of p (ls @ [LTake q d]) = adds_of p ls"
  "adds_of p (ls @ [LTau]) = adds_of p ls"
  by (simp_all add: adds_of_def)

lemma takes_of_snoc [simp]:
  "takes_of p [] = []"
  "takes_of p (ls @ [LTake q d]) = takes_of p ls @ (if q = p then [d] else [])"
  "takes_of p (ls @ [LAdd q d]) = takes_of p ls"
  "takes_of p (ls @ [LTau]) = takes_of p ls"
  by (simp_all add: takes_of_def)

text \<open>What a step does to the entry of one path.\<close>

lemma cache_step_entry:
  assumes "cache_step s l t"
  shows "case l of
      LAdd q d \<Rightarrow> dc_detections (cs_cache t) = (dc_detections (cs_cache s))(q \<mapsto> d)
    | LTake q d \<Rightarrow> dc_detections (cs_cache s) q = Some d \<and>
        dc_detections (cs_cache t) = (dc_detections (cs_cache s))(q := None)
    | LTau \<Rightarrow> \<forall>q. dc_detections (cs_cache t) q = None \<or>
        dc_detections (cs_cache t) q = dc_detections (cs_cache s) q"
  using assms
  by (induction rule: cache_step.induct)
    (auto simp: cache_Add_def cleanup_tick_def cache_cleanup_def cache_Stop_def
      dest!: Get_cases Wait_poll_cases split: if_splits option.splits)

definition pending_of :: "string \<Rightarrow> CacheSys \<Rightarrow> Detection list" where
  "pending_of p s = (case dc_detections (cs_cache s) p of None \<Rightarrow> [] | Some d \<Rightarrow> [d])"

lemma subseq_drop_last: "subseq (xs @ ys) zs \<Longrightarrow> subseq xs zs"
  by (meson list_emb_append_mono list_emb_Nil subseq_order.order_trans prefix_imp_subseq prefixI)

lemma cache_trace_pending:
  assumes "cache_trace s ls t" and "cache_init s"
  shows "subseq (takes_of p ls @ pending_of p t) (adds_of p ls)"
  using assms
proof (induction rule: cache_trace.induct)
  case (t_nil s)
  then show ?case by (auto simp: cache_init_def NewDetectionCache_def pending_of_def)
next
  case (t_snoc s ls t l u)
  then have IH: "subseq (takes_of p ls @ pending_of p t) (adds_of p ls)" by blast
  note entry = cache_step_entry [OF t_snoc.hyps(2)]
  show ?case
  proof (cases l)
    case (LAdd q d)
    show ?thesis
    proof (cases "q = p")
      case True
      with LAdd entry have "pending_of p u = [d]" by (simp add: pending_of_def)
      with True LAdd subseq_drop_last [OF IH] show ?thesis
        by (simp add: list_emb_append_mono)
    next
      case False
      with LAdd entry have "pending_of p u = pending_of p t" by (simp add: pending_of_def)
      with False LAdd IH show ?thesis by simp
    qed
  next
    case (LTake q d)
    show ?thesis
    proof (cases "q = p")
      case True
      with LTake entry have "pending_of p u = []" "pending_of p t = [d]"
        by (simp_all add: pending_of_def)
      with True LTake IH show ?thesis by simp
    next
      case False
      with LTake entry have "pending_of p u = pending_of p t" by (simp add: pending_of_def)
      with False LTake IH show ?thesis by simp
    qed
  next
    case LTau
    with entry have "pending_of p u = [] \<or> pending_of p u = pending_of p t"
      by (simp add: pending_of_def) (metis option.simps(4))
    with LTau IH subseq_drop_last [OF IH] show ?thesis by auto
  qed
qed

text \<open>
  C15: whatever the goroutines do, the detections handed to the callers of \<open>Get\<close> and \<open>Wait\<close> for
  a path are a subsequence of the detections added for that path: each is delivered at most
  once, in the order of the reports, and nothing is delivered that was not reported.
\<close>

theorem cache_delivers_once:
  assumes "cache_trace s ls t" and "cache_init s"
  shows "subseq (takes_of p ls) (adds_of p ls)"
  using cache_trace_pending [OF assms] by (rule subseq_drop_last)

section \<open>Concrete runs\<close>

text \<open>
  A caller waits for \<open>/f\<close>, finds nothing, and blocks; then the log watcher adds the detection.
\<close>

definition run_start :: CacheSys where
  "run_start = \<lparr>cs_cache = NewDetectionCache 0, cs_now = 0, cs_waiters = Map.empty\<rparr>"

definition run_waiter :: "WaiterPC \<Rightarrow> Waiter" where
  "run_waiter pc = \<lparr>wt_path = ''/f'', wt_deadline = 0, wt_pc = pc\<rparr>"

definition run_called :: CacheSys where
  "run_called = run_start\<lparr>cs_waiters := [0 \<mapsto> run_waiter Checking]\<rparr>"

definition run_blocked :: CacheSys where
  "run_blocked = run_start\<lparr>cs_waiters := [0 \<mapsto> run_waiter (Selecting 0)]\<rparr>"

definition run_detection :: Detection where
  "run_detection = \<lparr>det_FilePath = ''/f'', det_Status = ''infected'', det_Signature = ''Eicar'',
     det_Raw = [], det_Timestamp = 0\<rparr>"

definition run_reported :: CacheSys where
  "run_reported = run_blocked\<lparr>cs_cache := cache_Add ''/f'' run_detection 0 (NewDetectionCache 0)\<rparr>"

lemmas run_defs = run_start_def run_waiter_def run_called_def run_blocked_def
  run_detection_def run_reported_def

lemma run_init: "cache_init run_start"
  by (auto simp: cache_init_def run_start_def)

lemma run_call: "cache_step run_start LTau run_called"
  using cache_step.call [of run_start 0 "''/f''" 0] by (simp add: run_defs)

lemma run_block: "cache_step run_called LTau run_blocked"
proof -
  have "cache_step run_called LTau
      (run_called\<lparr>cs_cache := NewDetectionCache 0,
         cs_waiters := (cs_waiters run_called)(0 \<mapsto> (run_waiter Checking)\<lparr>wt_pc := Selecting 0\<rparr>)\<rparr>)"
    by (rule cache_step.miss) (simp_all add: run_defs Wait_poll_def NewDetectionCache_def)
  then show ?thesis by (simp add: run_defs)
qed

lemma run_report: "cache_step run_blocked (LAdd ''/f'' run_detection) run_reported"
  using cache_step.add [of run_blocked "''/f''" run_detection] by (simp add: run_defs)

lemma run_reachable:
  "reachable_from cache_init cache_move run_blocked"
  "reachable_from cache_init cache_move run_reported"
proof -
  have "reachable_from cache_init cache_move run_start"
    by (rule reachable_from.start) (rule run_init)
  then have "reachable_from cache_init cache_move run_called"
    by (rule reachable_from.move) (auto simp: cache_move_def intro: run_call)
  then show blocked: "reachable_from cache_init cache_move run_blocked"
    by (rule reachable_from.move) (auto simp: cache_move_def intro: run_block)
  show "reachable_from cache_init cache_move run_reported"
    by (rule reachable_from.move [OF blocked]) (auto simp: cache_move_def intro: run_report)
qed

theorem Wait_no_lost_wakeup_witness:
  "\<exists>t u. cache_step run_reported LTau t \<and> cache_step t (LTake ''/f'' run_detection) u \<and>
    map_option wt_pc (cs_waiters u 0) = Some (Returned (Some run_detection))"
proof -
  have "cs_waiters run_reported 0 = Some (run_waiter (Selecting 0))"
    "wt_pc (run_waiter (Selecting 0)) = Selecting 0"
    "dc_detections (cs_cache run_reported) (wt_path (run_waiter (Selecting 0))) = Some run_detection"
    by (simp_all add: run_defs cache_Add_def)
  from Wait_no_lost_wakeup [OF run_reachable(2) this] show ?thesis
    by (auto simp: run_waiter_def)
qed

text \<open>The caller looks once more, with the detection there.\<close>

theorem Wait_finishes_witness:
  "\<exists>t w'. own_run 0 (run_reported\<lparr>cs_waiters := [0 \<mapsto> run_waiter Checking]\<rparr>) [LTake ''/f'' run_detection] t \<and>
    cs_waiters t 0 = Some w' \<and> (\<forall>r. wt_pc w' = Returned r \<longrightarrow> r = Some run_detection)"
proof -
  let ?s = "run_reported\<lparr>cs_waiters := [0 \<mapsto> run_waiter Checking]\<rparr>"
  have w: "cs_waiters ?s 0 = Some (run_waiter Checking)" "wt_deadline (run_waiter Checking) \<le> cs_now ?s"
    "wt_pc (run_waiter Checking) = Checking \<or> wt_pc (run_waiter Checking) = Selecting 0"
    by (simp_all add: run_defs)
  have d: "dc_detections (cs_cache ?s) ''/f'' = Some run_detection"
    by (simp add: run_defs cache_Add_def)
  obtain c where "Wait_poll (wt_path (run_waiter Checking)) (cs_cache ?s) = (Inl run_detection, c)"
    using d by (simp add: Wait_poll_def run_waiter_def)
  from cache_step.hit [OF w(1) _ this] obtain t where t: "own_step 0 ?s (LTake ''/f'' run_detection) t"
    by (fastforce simp: own_step_def run_waiter_def)
  have run: "own_run 0 ?s [LTake ''/f'' run_detection] t"
    using own_run.o_snoc [OF own_run.o_nil t] by simp
  from Wait_finishes [OF w run] obtain w' where w': "cs_waiters t 0 = Some w'"
    "case wt_pc w' of
       Returned r \<Rightarrow> r \<in> {None, dc_detections (cs_cache ?s) (wt_path (run_waiter Checking))} \<and>
         (wt_pc (run_waiter Checking) = Checking \<longrightarrow>
          r = dc_detections (cs_cache ?s) (wt_path (run_waiter Checking)))
     | _ \<Rightarrow> \<exists>l u. own_step 0 t l u" by blast
  have "wt_path (run_waiter Checking) = ''/f''" "wt_pc (run_waiter Checking) = Checking"
    by (simp_all add: run_waiter_def)
  with w'(2) d have "\<forall>r. wt_pc w' = Returned r \<longrightarrow> r = Some run_detection" by auto
  with run w'(1) show ?thesis by blast
qed

theorem cache_delivers_once_witness:
  "\<exists>t. cache_trace run_start [LTau, LTau, LAdd ''/f'' run_detection] t \<and>
    subseq (takes_of ''/f'' [LTau, LTau, LAdd ''/f'' run_detection])
      (adds_of ''/f'' [LTau, LTau, LAdd ''/f'' run_detection])"
proof -
  have "cache_trace run_start ([LTau, LTau] @ [LAdd ''/f'' run_detection]) run_reported"
    by (rule cache_trace.t_snoc [OF cache_trace_2 [OF run_call run_block] run_report])
  then have tr: "cache_trace run_start [LTau, LTau, LAdd ''/f'' run_detection] run_reported"
    by simp
  from tr cache_delivers_once [OF tr run_init] show ?thesis by blast
qed

end
