(* ===== verification/Metrics.thy ===== *)
theory Metrics
  imports Prelude
begin

text \<open>
  Package \<open>metrics\<close> (\<open>internal/metrics/metrics.go\<close>), the recording functions. The Prometheus
  client is not part of the repository: the model keeps the sequence of calls made to it, the
  collector with its label values and the value passed.
\<close>

datatype MetricCall =
    HttpRequestsTotal string string string     \<comment> \<open>method, endpoint, status code: \<open>Inc\<close>\<close>
  | HttpRequestDuration string string duration \<comment> \<open>method, endpoint: \<open>Observe\<close>\<close>
  | ScansTotal string string                   \<comment> \<open>engine, result: \<open>Inc\<close>\<close>
  | RateLimitRejectedTotal string string       \<comment> \<open>account, reason: \<open>Inc\<close>\<close>
  | RateLimitInflightScans string int          \<comment> \<open>account: \<open>Set\<close>\<close>

type_synonym Metrics = "MetricCall list"

definition RecordScan :: "string \<Rightarrow> string \<Rightarrow> Metrics \<Rightarrow> Metrics" where
  "RecordScan engine result m = m @ [ScansTotal engine result]"

definition RecordRateLimitRejected :: "string \<Rightarrow> string \<Rightarrow> Metrics \<Rightarrow> Metrics" where
  "RecordRateLimitRejected account reason m = m @ [RateLimitRejectedTotal account reason]"

definition SetRateLimitInflight :: "string \<Rightarrow> int \<Rightarrow> Metrics \<Rightarrow> Metrics" where
  "SetRateLimitInflight account n m = m @ [RateLimitInflightScans account n]"

text \<open>What the collectors show after a sequence of calls.\<close>

definition inflight_gauge :: "string \<Rightarrow> Metrics \<Rightarrow> int" where
  "inflight_gauge account m =
     foldl (\<lambda>v c. case c of RateLimitInflightScans a n \<Rightarrow> if a = account then n else v | _ \<Rightarrow> v) 0 m"

definition scans_counted :: "string \<Rightarrow> string \<Rightarrow> Metrics \<Rightarrow> nat" where
  "scans_counted engine result m = count_list m (ScansTotal engine result)"

definition rejections_counted :: "string \<Rightarrow> string \<Rightarrow> Metrics \<Rightarrow> nat" where
  "rejections_counted account reason m = count_list m (RateLimitRejectedTotal account reason)"

text \<open>The calls of the HTTP middleware among them.\<close>

fun is_http_call :: "MetricCall \<Rightarrow> bool" where
  "is_http_call (HttpRequestsTotal _ _ _) = True"
| "is_http_call (HttpRequestDuration _ _ _) = True"
| "is_http_call _ = False"

definition http_calls :: "Metrics \<Rightarrow> Metrics" where
  "http_calls m = filter is_http_call m"

lemmas metric_defs =
  RecordScan_def RecordRateLimitRejected_def SetRateLimitInflight_def

lemma http_calls_simps [simp]:
  "http_calls [] = []" "http_calls (xs @ ys) = http_calls xs @ http_calls ys"
  "http_calls (RecordScan e r m) = http_calls m"
  "http_calls (RecordRateLimitRejected b r m) = http_calls m"
  "http_calls (SetRateLimitInflight b n m) = http_calls m"
  by (simp_all add: http_calls_def metric_defs)

lemma inflight_gauge_simps [simp]:
  "inflight_gauge a [] = 0"
  "inflight_gauge a (SetRateLimitInflight b n m) = (if b = a then n else inflight_gauge a m)"
  "inflight_gauge a (RecordRateLimitRejected b r m) = inflight_gauge a m"
  "inflight_gauge a (RecordScan e r m) = inflight_gauge a m"
  by (simp_all add: inflight_gauge_def metric_defs)

lemma rejections_counted_simps [simp]:
  "rejections_counted a r [] = 0"
  "rejections_counted a r (RecordRateLimitRejected b q m) =
     rejections_counted a r m + (if b = a \<and> q = r then 1 else 0)"
  "rejections_counted a r (SetRateLimitInflight b n m) = rejections_counted a r m"
  "rejections_counted a r (RecordScan e s m) = rejections_counted a r m"
  by (auto simp: rejections_counted_def metric_defs)

lemma scans_counted_simps [simp]:
  "scans_counted e s [] = 0"
  "scans_counted e s (RecordScan f t m) = scans_counted e s m + (if f = e \<and> t = s then 1 else 0)"
  "scans_counted e s (SetRateLimitInflight b n m) = scans_counted e s m"
  "scans_counted e s (RecordRateLimitRejected b q m) = scans_counted e s m"
  by (auto simp: scans_counted_def metric_defs)

end
