(* ===== verification/Go_Strings.thy ===== *)
theory Go_Strings
  imports Prelude
begin

text \<open>
  The functions of Go's \<open>strings\<close> and \<open>strconv\<close> packages that the program calls. A Go string
  is a sequence of bytes, here a list of \<open>char\<close>.
\<close>

section \<open>Prefixes, splitting, searching\<close>

fun HasPrefix :: "string \<Rightarrow> string \<Rightarrow> bool" where
  "HasPrefix s [] = True"
| "HasPrefix [] (p # ps) = False"
| "HasPrefix (c # cs) (p # ps) = (c = p \<and> HasPrefix cs ps)"

definition TrimPrefix :: "string \<Rightarrow> string \<Rightarrow> string" where
  "TrimPrefix s p = (if HasPrefix s p then drop (length p) s else s)"

text \<open>\<open>strings.Split\<close> with a separator of one byte.\<close>

fun Split :: "string \<Rightarrow> char \<Rightarrow> string list" where
  "Split [] sep = [[]]"
| "Split (c # cs) sep =
     (if c = sep then [] # Split cs sep
      else (case Split cs sep of [] \<Rightarrow> [[c]] | w # ws \<Rightarrow> (c # w) # ws))"

fun Join :: "string list \<Rightarrow> char \<Rightarrow> string" where
  "Join [] sep = []"
| "Join [w] sep = w"
| "Join (w # v # ws) sep = w @ sep # Join (v # ws) sep"

fun Contains :: "string \<Rightarrow> string \<Rightarrow> bool" where
  "Contains [] sub = (sub = [])"
| "Contains (c # cs) sub = (HasPrefix (c # cs) sub \<or> Contains cs sub)"

text \<open>\<open>strings.Replace(s, old, new, 1)\<close> with \<open>old\<close> one byte.\<close>

fun Replace1 :: "string \<Rightarrow> char \<Rightarrow> string \<Rightarrow> string" where
  "Replace1 [] old new = []"
| "Replace1 (c # cs) old new = (if c = old then new @ cs else c # Replace1 cs old new)"

lemma HasPrefix_iff: "HasPrefix s p \<longleftrightarrow> (\<exists>t. s = p @ t)"
  by (induction s p rule: HasPrefix.induct) auto

lemma HasPrefix_append [simp]: "HasPrefix (p @ t) p"
  by (auto simp: HasPrefix_iff)

lemma HasPrefix_split: "HasPrefix s p \<Longrightarrow> s = p @ drop (length p) s"
  by (auto simp: HasPrefix_iff)

lemma TrimPrefix_append [simp]: "TrimPrefix (p @ t) p = t"
  by (simp add: TrimPrefix_def)

lemma TrimPrefix_eq_iff: "p \<noteq> [] \<Longrightarrow> TrimPrefix s p = s \<longleftrightarrow> \<not> HasPrefix s p"
  by (auto simp: TrimPrefix_def HasPrefix_iff)

lemma Split_not_Nil [simp]: "Split s sep \<noteq> []"
  by (induction s) (auto split: list.splits)

lemma Join_Split [simp]: "Join (Split s sep) sep = s"
proof (induction s)
  case Nil
  then show ?case by simp
next
  case (Cons c cs)
  obtain w ws where eq: "Split cs sep = w # ws"
    by (meson Split_not_Nil neq_Nil_conv)
  with Cons.IH show ?case by (cases ws) auto
qed

lemma Split_no_sep: "w \<in> set (Split s sep) \<Longrightarrow> sep \<notin> set w"
proof (induction s arbitrary: w)
  case Nil
  then show ?case by simp
next
  case (Cons c cs)
  obtain v vs where eq: "Split cs sep = v # vs"
    by (meson Split_not_Nil neq_Nil_conv)
  with Cons show ?case by (auto split: if_splits)
qed

lemma Split_word: "sep \<notin> set w \<Longrightarrow> Split w sep = [w]"
  by (induction w) auto

lemma Split_append: "sep \<notin> set w \<Longrightarrow> Split (w @ sep # s) sep = w # Split s sep"
  by (induction w) auto

lemma Split_Join:
  "ws \<noteq> [] \<Longrightarrow> (\<And>w. w \<in> set ws \<Longrightarrow> sep \<notin> set w) \<Longrightarrow> Split (Join ws sep) sep = ws"
  by (induction ws sep rule: Join.induct) (auto simp: Split_word Split_append)

lemma Contains_iff: "Contains s sub \<longleftrightarrow> (\<exists>a b. s = a @ sub @ b)"
proof (induction s)
  case Nil
  then show ?case by simp
next
  case (Cons c cs)
  show ?case
  proof
    assume "Contains (c # cs) sub"
    then consider "HasPrefix (c # cs) sub" | "Contains cs sub" by auto
    then show "\<exists>a b. c # cs = a @ sub @ b"
    proof cases
      case 1
      then show ?thesis by (metis HasPrefix_iff append_Nil)
    next
      case 2
      with Cons.IH show ?thesis by (metis append_Cons)
    qed
  next
    assume "\<exists>a b. c # cs = a @ sub @ b"
    then obtain a b where eq: "c # cs = a @ sub @ b" by blast
    show "Contains (c # cs) sub"
    proof (cases a)
      case Nil
      with eq have "HasPrefix (c # cs) sub" by (auto simp: HasPrefix_iff)
      then show ?thesis by simp
    next
      case (Cons x xs)
      with eq have "cs = xs @ sub @ b" by simp
      then have "Contains cs sub" using Cons.IH by blast
      then show ?thesis by simp
    qed
  qed
qed

section \<open>White space\<close>

text \<open>
  \<open>strings.TrimSpace\<close> drops leading and trailing runes of \<open>unicode.IsSpace\<close>. In UTF-8 these
  are the byte sequences below; a last rune is found from its leading byte, so a suffix of
  this form is exactly a trailing space rune.
\<close>

definition space_runes :: "string list" where
  "space_runes =
     [[CHR 0x20], [CHR 0x09], [CHR 0x0A], [CHR 0x0B], [CHR 0x0C], [CHR 0x0D],
      [CHR 0xC2, CHR 0x85], [CHR 0xC2, CHR 0xA0], [CHR 0xE1, CHR 0x9A, CHR 0x80],
      [CHR 0xE2, CHR 0x80, CHR 0x80], [CHR 0xE2, CHR 0x80, CHR 0x81],
      [CHR 0xE2, CHR 0x80, CHR 0x82], [CHR 0xE2, CHR 0x80, CHR 0x83],
      [CHR 0xE2, CHR 0x80, CHR 0x84], [CHR 0xE2, CHR 0x80, CHR 0x85],
      [CHR 0xE2, CHR 0x80, CHR 0x86], [CHR 0xE2, CHR 0x80, CHR 0x87],
      [CHR 0xE2, CHR 0x80, CHR 0x88], [CHR 0xE2, CHR 0x80, CHR 0x89],
      [CHR 0xE2, CHR 0x80, CHR 0x8A], [CHR 0xE2, CHR 0x80, CHR 0xA8],
      [CHR 0xE2, CHR 0x80, CHR 0xA9], [CHR 0xE2, CHR 0x80, CHR 0xAF],
      [CHR 0xE2, CHR 0x81, CHR 0x9F], [CHR 0xE3, CHR 0x80, CHR 0x80]]"

text \<open>Drop the prefixes of \<open>s\<close> that are in \<open>ws\<close>; the fuel is the length of \<open>s\<close>.\<close>

fun trim_left_with :: "string list \<Rightarrow> nat \<Rightarrow> string \<Rightarrow> string" where
  "trim_left_with ws 0 s = s"
| "trim_left_with ws (Suc n) s =
     (case find (HasPrefix s) ws of
        None \<Rightarrow> s
      | Some w \<Rightarrow> trim_left_with ws n (drop (length w) s))"

definition TrimSpace :: "string \<Rightarrow> string" where
  "TrimSpace s =
     (let l = trim_left_with space_runes (length s) s
      in rev (trim_left_with (map rev space_runes) (length l) (rev l)))"

lemma trim_left_with_suffix: "\<exists>p. s = p @ trim_left_with ws n s"
proof (induction ws n s rule: trim_left_with.induct)
  case (1 ws s)
  then show ?case by simp
next
  case (2 ws n s)
  show ?case
  proof (cases "find (HasPrefix s) ws")
    case None
    then show ?thesis by simp
  next
    case (Some w)
    then have "s = w @ drop (length w) s"
      by (auto simp: find_Some_iff intro!: HasPrefix_split)
    with 2 Some show ?thesis by (metis append.assoc option.simps(5) trim_left_with.simps(2))
  qed
qed

lemma trim_left_with_done:
  assumes "[] \<notin> set ws" and "length s \<le> n" and "w \<in> set ws"
  shows "\<not> HasPrefix (trim_left_with ws n s) w"
  using assms
proof (induction ws n s rule: trim_left_with.induct)
  case (1 ws s)
  then show ?case by (cases w) auto
next
  case (2 ws n s)
  show ?case
  proof (cases "find (HasPrefix s) ws")
    case None
    then have "\<not> HasPrefix s w" using "2.prems"(3) by (auto simp: find_None_iff)
    with None show ?thesis by simp
  next
    case (Some v)
    then have "v \<in> set ws" and "HasPrefix s v" by (auto simp: find_Some_iff)
    with "2.prems"(1) have "v \<noteq> []" by auto
    with \<open>HasPrefix s v\<close> "2.prems"(2) have "length (drop (length v) s) \<le> n"
      by (cases v) auto
    with 2 Some show ?thesis by simp
  qed
qed

lemma space_runes_nonempty: "[] \<notin> set space_runes"
  by (simp add: space_runes_def)

lemma TrimSpace_substring: "\<exists>a b. s = a @ TrimSpace s @ b"
proof -
  let ?l = "trim_left_with space_runes (length s) s"
  let ?m = "trim_left_with (map rev space_runes) (length ?l) (rev ?l)"
  obtain a where a: "s = a @ ?l" using trim_left_with_suffix by blast
  obtain b where b: "rev ?l = b @ ?m" using trim_left_with_suffix by blast
  then have "?l = rev ?m @ rev b" by (metis rev_append rev_rev_ident)
  with a show ?thesis by (metis TrimSpace_def)
qed

section \<open>Decimal numbers\<close>

definition is_digit :: "char \<Rightarrow> bool" where
  "is_digit c \<longleftrightarrow> (of_char c :: nat) \<in> {48..57}"

definition digit_value :: "char \<Rightarrow> int" where
  "digit_value c = int (of_char c :: nat) - 48"

definition digit_char :: "int \<Rightarrow> char" where
  "digit_char d = char_of (nat (d + 48))"

definition decimal_value :: "string \<Rightarrow> int" where
  "decimal_value ds = foldl (\<lambda>v c. 10 * v + digit_value c) 0 ds"

text \<open>
  \<open>strconv.ParseInt(s, 10, 64)\<close>, and \<open>strconv.Atoi\<close>, which is the same on a 64-bit platform:
  an optional sign, then one or more digits; out of range is an error.
\<close>

definition ParseInt :: "string \<Rightarrow> int option" where
  "ParseInt s =
     (let neg = HasPrefix s ''-'';
          ds = (if HasPrefix s ''-'' \<or> HasPrefix s ''+'' then tl s else s);
          v = (if neg then - decimal_value ds else decimal_value ds)
      in if ds = [] \<or> \<not> list_all is_digit ds then None
         else if v < MinInt64 \<or> MaxInt64 < v then None
         else Some v)"

definition Atoi :: "string \<Rightarrow> int option" where
  "Atoi = ParseInt"

fun nat_digits :: "nat \<Rightarrow> string" where
  "nat_digits n =
     (if n < 10 then [digit_char (int n)]
      else nat_digits (n div 10) @ [digit_char (int (n mod 10))])"

declare nat_digits.simps [simp del]

definition Itoa :: "int \<Rightarrow> string" where
  "Itoa i = (if i < 0 then CHR ''-'' # nat_digits (nat (- i)) else nat_digits (nat i))"

lemma digit_char_range:
  assumes "0 \<le> d" and "d < 10"
  shows "is_digit (digit_char d)" and "digit_value (digit_char d) = d"
proof -
  have "(of_char (digit_char d) :: nat) = nat (d + 48)"
    using assms by (simp add: digit_char_def of_char_of)
  then show "is_digit (digit_char d)" using assms by (auto simp: is_digit_def le_nat_iff nat_le_iff)
  show "digit_value (digit_char d) = d"
    using assms \<open>of_char (digit_char d) = nat (d + 48)\<close> by (simp add: digit_value_def)
qed

lemma decimal_value_snoc: "decimal_value (ds @ [c]) = 10 * decimal_value ds + digit_value c"
  by (simp add: decimal_value_def)

lemma nat_digits_parse:
  "list_all is_digit (nat_digits n) \<and> nat_digits n \<noteq> [] \<and> decimal_value (nat_digits n) = int n"
proof (induction n rule: nat_digits.induct)
  case (1 n)
  show ?case
  proof (cases "n < 10")
    case True
    then show ?thesis
      by (simp add: nat_digits.simps [of n] digit_char_range decimal_value_def)
  next
    case False
    have "10 * int (n div 10) + int (n mod 10) = int n"
      by (metis mult_div_mod_eq of_nat_add of_nat_mult of_nat_numeral)
    with 1 False show ?thesis
      by (simp add: nat_digits.simps [of n] digit_char_range decimal_value_snoc)
  qed
qed

lemma nat_digits_first: "is_digit (hd (nat_digits n))"
  using nat_digits_parse [of n] by (cases "nat_digits n") auto

lemma digit_not_sign: "is_digit c \<Longrightarrow> c \<noteq> CHR ''-'' \<and> c \<noteq> CHR ''+''"
  by (auto simp: is_digit_def le_nat_iff nat_le_iff)

lemma nat_digits_unsigned:
  "\<not> HasPrefix (nat_digits n) ''-''" "\<not> HasPrefix (nat_digits n) ''+''"
  using nat_digits_first [of n] nat_digits_parse [of n]
  by (cases "nat_digits n"; auto dest: digit_not_sign)+

text \<open>Printing a 64-bit integer and parsing it back gives the integer.\<close>

lemma Atoi_Itoa:
  assumes "MinInt64 \<le> i" and "i \<le> MaxInt64"
  shows "Atoi (Itoa i) = Some i"
proof (cases "i < 0")
  case True
  then show ?thesis
    using assms nat_digits_parse [of "nat (- i)"]
    by (simp add: Atoi_def ParseInt_def Itoa_def Let_def)
next
  case False
  then show ?thesis
    using assms nat_digits_parse [of "nat i"] nat_digits_unsigned [of "nat i"]
    by (simp add: Atoi_def ParseInt_def Itoa_def Let_def)
qed

lemma Atoi_range: "Atoi s = Some i \<Longrightarrow> MinInt64 \<le> i \<and> i \<le> MaxInt64"
  by (auto simp: Atoi_def ParseInt_def Let_def not_less split: if_splits)

end
