(* ===== verification/Go_Path.thy ===== *)
theory Go_Path
  imports Go_Strings
begin

text \<open>
  The functions of Go's \<open>path/filepath\<close> package (Unix) that the program calls: \<open>Clean\<close>,
  \<open>Join\<close>, \<open>Abs\<close>, \<open>Base\<close> and \<open>Ext\<close>. \<open>Clean\<close> is given on the list of path components.
\<close>

section \<open>Definitions\<close>

definition IsAbs :: "string \<Rightarrow> bool" where
  "IsAbs p = HasPrefix p ''/''"

text \<open>The components kept so far are a stack, its top first.\<close>

fun clean_comps :: "bool \<Rightarrow> string list \<Rightarrow> string list \<Rightarrow> string list" where
  "clean_comps rooted out [] = rev out"
| "clean_comps rooted out (c # cs) =
     (if c = [] \<or> c = ''.'' then clean_comps rooted out cs
      else if c = ''..'' then
        (case out of
           [] \<Rightarrow> clean_comps rooted (if rooted then [] else [''..'']) cs
         | x # xs \<Rightarrow> clean_comps rooted (if x = ''..'' then ''..'' # out else xs) cs)
      else clean_comps rooted (c # out) cs)"

definition components :: "string \<Rightarrow> string list" where
  "components p = clean_comps (IsAbs p) [] (Split p CHR ''/'')"

definition Clean :: "string \<Rightarrow> string" where
  "Clean p =
     (let q = (if IsAbs p then ''/'' else []) @ Join (components p) CHR ''/''
      in if q = [] then ''.'' else q)"

definition path_Join :: "string list \<Rightarrow> string" where
  "path_Join elems =
     (let es = filter (\<lambda>e. e \<noteq> []) elems
      in if es = [] then [] else Clean (Join es CHR ''/''))"

text \<open>\<open>filepath.Abs\<close> with the working directory \<open>cwd\<close> (whose lookup does not fail).\<close>

definition Abs :: "string \<Rightarrow> string \<Rightarrow> string" where
  "Abs cwd p = (if IsAbs p then Clean p else path_Join [cwd, p])"

text \<open>
  \<open>filepath.Abs\<close> fails for a relative path when there is no working directory (an empty \<open>cwd\<close>);
  every caller then goes on with the path as it is.
\<close>

definition filepath_Abs :: "string \<Rightarrow> string \<Rightarrow> string option" where
  "filepath_Abs cwd p =
     (if IsAbs p then Some (Clean p) else if cwd = [] then None else Some (path_Join [cwd, p]))"

definition abs_or_same :: "string \<Rightarrow> string \<Rightarrow> string" where
  "abs_or_same cwd p = (case filepath_Abs cwd p of Some a \<Rightarrow> a | None \<Rightarrow> p)"

lemma abs_or_same_Abs: "IsAbs cwd \<Longrightarrow> abs_or_same cwd p = Abs cwd p"
  by (auto simp: abs_or_same_def filepath_Abs_def Abs_def IsAbs_def)

definition Base :: "string \<Rightarrow> string" where
  "Base p =
     (if p = [] then ''.''
      else let q = rev (dropWhile (\<lambda>c. c = CHR ''/'') (rev p))
           in if q = [] then ''/'' else last (Split q CHR ''/''))"

definition Ext :: "string \<Rightarrow> string" where
  "Ext p =
     (let f = last (Split p CHR ''/'')
      in if CHR ''.'' \<in> set f
         then CHR ''.'' # rev (takeWhile (\<lambda>c. c \<noteq> CHR ''.'') (rev f))
         else [])"

section \<open>A plain name appended to a directory\<close>

definition plain_name :: "string \<Rightarrow> bool" where
  "plain_name n \<longleftrightarrow> CHR ''/'' \<notin> set n \<and> n \<noteq> [] \<and> n \<noteq> ''.'' \<and> n \<noteq> ''..''"

lemma Split_append_sep: "Split (s @ sep # t) sep = Split s sep @ Split t sep"
proof (induction s)
  case Nil
  then show ?case by simp
next
  case (Cons c cs)
  obtain w ws where "Split cs sep = w # ws" by (meson Split_not_Nil neq_Nil_conv)
  with Cons show ?case by simp
qed

lemma clean_comps_plain:
  "plain_name n \<Longrightarrow> clean_comps rooted out (cs @ [n]) = clean_comps rooted out cs @ [n]"
  by (induction rooted out cs rule: clean_comps.induct)
     (auto simp: plain_name_def split: list.splits)

lemma components_append_name:
  assumes "plain_name n" and "d \<noteq> []"
  shows "components (d @ CHR ''/'' # n) = components d @ [n]"
proof -
  have "IsAbs (d @ CHR ''/'' # n) = IsAbs d"
    using assms(2) by (cases d) (auto simp: IsAbs_def)
  moreover have "Split (d @ CHR ''/'' # n) CHR ''/'' = Split d CHR ''/'' @ [n]"
    using assms(1) by (simp add: Split_append_sep Split_word plain_name_def)
  ultimately show ?thesis by (simp add: components_def clean_comps_plain assms(1))
qed

lemma Join_snoc: "ws \<noteq> [] \<Longrightarrow> Join (ws @ [w]) sep = Join ws sep @ sep # w"
  by (induction ws sep rule: Join.induct) auto

lemma Join_snoc_last: "\<exists>q. Join (ws @ [w]) sep = q @ w \<and> (q = [] \<or> last q = sep)"
  by (cases "ws = []") (auto simp: Join_snoc intro: exI [of _ "Join ws sep @ [sep]"])

text \<open>
  Joining a directory and a plain name gives the directory's components and the name as one
  more component; the name comes out unchanged as the last one.
\<close>

lemma path_Join_name:
  assumes "plain_name n" and "d \<noteq> []"
  shows "path_Join [d, n] =
    (if IsAbs d then ''/'' else []) @ Join (components d @ [n]) CHR ''/''"
proof -
  have n: "n \<noteq> []" using assms(1) by (simp add: plain_name_def)
  have abs: "IsAbs (d @ CHR ''/'' # n) = IsAbs d"
    using assms(2) by (cases d) (auto simp: IsAbs_def)
  have "Join (components d @ [n]) CHR ''/'' \<noteq> []"
    using Join_snoc_last [of "components d" n "CHR ''/''"] n by auto
  then show ?thesis
    using assms n by (simp add: path_Join_def Clean_def components_append_name abs Let_def)
qed

lemma Base_name:
  assumes "plain_name n" and "q = [] \<or> last q = CHR ''/''"
  shows "Base (q @ n) = n"
proof -
  have n: "n \<noteq> []" "CHR ''/'' \<notin> set n" using assms(1) by (auto simp: plain_name_def)
  have "dropWhile (\<lambda>c. c = CHR ''/'') (rev (q @ n)) = rev (q @ n)"
    using n by (cases n rule: rev_cases) auto
  moreover have "last (Split (q @ n) CHR ''/'') = n"
  proof (cases q rule: rev_cases)
    case Nil
    then show ?thesis using n by (simp add: Split_word)
  next
    case (snoc p c)
    with assms(2) have "q @ n = p @ CHR ''/'' # n" by simp
    then show ?thesis using n by (simp only: Split_append_sep) (simp add: Split_word)
  qed
  ultimately show ?thesis using n by (simp add: Base_def)
qed

lemma Base_path_Join:
  assumes "plain_name n" and "d \<noteq> []"
  shows "Base (path_Join [d, n]) = n"
proof -
  obtain q where q: "Join (components d @ [n]) CHR ''/'' = q @ n"
    "q = [] \<or> last q = CHR ''/''"
    using Join_snoc_last by blast
  have "Base (((if IsAbs d then ''/'' else []) @ q) @ n) = n"
    using q(2) by (intro Base_name assms(1)) auto
  then show ?thesis by (simp add: path_Join_name assms q(1))
qed

section \<open>Extensions\<close>

lemma Ext_shape: "Ext p = [] \<or> (\<exists>e. Ext p = CHR ''.'' # e \<and> CHR ''.'' \<notin> set e \<and> CHR ''/'' \<notin> set e)"
proof (cases "CHR ''.'' \<in> set (last (Split p CHR ''/''))")
  case True
  let ?f = "last (Split p CHR ''/'')"
  let ?e = "rev (takeWhile (\<lambda>c. c \<noteq> CHR ''.'') (rev ?f))"
  have "CHR ''/'' \<notin> set ?f" by (rule Split_no_sep [of _ p]) simp
  then have "CHR ''/'' \<notin> set ?e" by (auto dest!: set_takeWhileD)
  moreover have "CHR ''.'' \<notin> set ?e" by (auto dest!: set_takeWhileD)
  ultimately show ?thesis using True by (simp add: Ext_def)
next
  case False
  then show ?thesis by (simp add: Ext_def)
qed

lemma Ext_no_slash: "CHR ''/'' \<notin> set (Ext p)"
  using Ext_shape [of p] by auto

section \<open>Clean paths are fixed points\<close>

definition clean_list :: "bool \<Rightarrow> string list \<Rightarrow> bool" where
  "clean_list rooted cs \<longleftrightarrow>
     (\<exists>k ns. cs = replicate k ''..'' @ ns \<and> (rooted \<longrightarrow> k = 0) \<and> (\<forall>n\<in>set ns. plain_name n))"

lemma clean_comps_plain_list:
  "(\<And>n. n \<in> set ns \<Longrightarrow> plain_name n) \<Longrightarrow> clean_comps rooted out ns = rev out @ ns"
  by (induction ns arbitrary: out) (auto simp: plain_name_def)

lemma clean_comps_dots:
  "(\<And>x. x \<in> set out \<Longrightarrow> x = ''..'') \<Longrightarrow>
   clean_comps False out (replicate k ''..'' @ ns) = clean_comps False (replicate k ''..'' @ out) ns"
proof (induction k arbitrary: out)
  case 0
  then show ?case by simp
next
  case (Suc k)
  have "clean_comps False out (replicate (Suc k) ''..'' @ ns) =
      clean_comps False (''..'' # out) (replicate k ''..'' @ ns)"
    using Suc.prems by (cases out) auto
  also have "\<dots> = clean_comps False (replicate k ''..'' @ ''..'' # out) ns"
    using Suc.prems by (intro Suc.IH) auto
  finally show ?case by (simp add: replicate_app_Cons_same)
qed

lemma clean_comps_fixed: "clean_list rooted cs \<Longrightarrow> clean_comps rooted [] cs = cs"
proof -
  assume "clean_list rooted cs"
  then obtain k ns where cs: "cs = replicate k ''..'' @ ns" and r: "rooted \<longrightarrow> k = 0"
    and ns: "\<forall>n\<in>set ns. plain_name n" by (auto simp: clean_list_def)
  show ?thesis
  proof (cases rooted)
    case True
    then show ?thesis using cs r ns by (simp add: clean_comps_plain_list)
  next
    case False
    then show ?thesis using cs ns clean_comps_dots [of "[]" k ns]
      by (simp add: clean_comps_plain_list)
  qed
qed

lemma clean_list_snoc:
  assumes "clean_list r cs" and "plain_name n"
  shows "clean_list r (cs @ [n])"
proof -
  obtain k ns where "cs = replicate k ''..'' @ ns" "r \<longrightarrow> k = 0" "\<forall>n\<in>set ns. plain_name n"
    using assms(1) by (auto simp: clean_list_def)
  with assms(2) have "cs @ [n] = replicate k ''..'' @ (ns @ [n]) \<and> (r \<longrightarrow> k = 0) \<and>
      (\<forall>n\<in>set (ns @ [n]). plain_name n)" by simp
  then show ?thesis unfolding clean_list_def by blast
qed

lemma clean_list_butlast:
  assumes "clean_list r (cs @ [n])" and "n \<noteq> ''..''"
  shows "clean_list r cs"
proof -
  obtain k ns where eq: "cs @ [n] = replicate k ''..'' @ ns" and r: "r \<longrightarrow> k = 0"
    and ns: "\<forall>n\<in>set ns. plain_name n" using assms(1) by (auto simp: clean_list_def)
  show ?thesis
  proof (cases ns rule: rev_cases)
    case Nil
    with eq have "n \<in> set (replicate k ''..'')" by (metis append_Nil2 in_set_conv_decomp)
    with assms(2) show ?thesis by simp
  next
    case (snoc ms m)
    with eq ns r show ?thesis by (auto simp: clean_list_def)
  qed
qed

lemma clean_list_dots:
  assumes "clean_list False (cs @ [''..''])"
  shows "clean_list False (cs @ [''..'', ''..''])"
proof -
  obtain k ns where eq: "cs @ [''..''] = replicate k ''..'' @ ns"
    and ns: "\<forall>n\<in>set ns. plain_name n" using assms by (auto simp: clean_list_def)
  have "ns = []"
  proof (rule ccontr)
    assume "ns \<noteq> []"
    then have "last (cs @ [''..'']) = last ns" and "last ns \<in> set ns" unfolding eq by simp_all
    then have "plain_name ''..''" using ns by simp
    then show False by (simp add: plain_name_def)
  qed
  with eq have "cs @ [''..'', ''..''] = replicate (Suc k) ''..'' @ []"
    by (simp add: replicate_append_same [symmetric])
  then show ?thesis
    unfolding clean_list_def by (intro exI [of _ "Suc k"] exI [of _ "[]"]) simp
qed

lemma clean_comps_clean:
  assumes "clean_list rooted (rev out)" and "\<And>c. c \<in> set cs \<Longrightarrow> CHR ''/'' \<notin> set c"
  shows "clean_list rooted (clean_comps rooted out cs)"
  using assms
proof (induction rooted out cs rule: clean_comps.induct)
  case (1 rooted out)
  then show ?case by simp
next
  case (2 rooted out c cs)
  show ?case
  proof (cases "c = [] \<or> c = ''.''")
    case True
    with 2 show ?thesis by auto
  next
    case plain: False
    show ?thesis
    proof (cases "c = ''..''")
      case False
      with plain "2.prems" have "clean_list rooted (rev (c # out))"
        by (auto simp: plain_name_def intro!: clean_list_snoc)
      with 2 plain False show ?thesis by auto
    next
      case dots: True
      show ?thesis
      proof (cases out)
        case Nil
        have "clean_list rooted (rev (if rooted then [] else [''..'']))"
          by (auto simp: clean_list_def intro: exI [of _ 0] exI [of _ 1])
        with 2 dots Nil show ?thesis by auto
      next
        case (Cons x xs)
        have "clean_list rooted (rev (if x = ''..'' then ''..'' # out else xs))"
        proof (cases "x = ''..''")
          case True
          have "\<not> rooted"
          proof
            assume "rooted"
            with "2.prems"(1) have "\<forall>n\<in>set (rev out). plain_name n"
              by (auto simp: clean_list_def)
            with Cons True show False by (auto simp: plain_name_def)
          qed
          with True Cons "2.prems"(1) show ?thesis using clean_list_dots by simp
        next
          case False
          with Cons "2.prems"(1) show ?thesis by (auto intro: clean_list_butlast)
        qed
        with 2 dots Cons show ?thesis by auto
      qed
    qed
  qed
qed

lemma components_clean: "clean_list (IsAbs p) (components p)"
  unfolding components_def
proof (rule clean_comps_clean)
  show "clean_list (IsAbs p) (rev [])" by (simp add: clean_list_def)
qed (rule Split_no_sep)

lemma clean_list_no_slash: "clean_list r cs \<Longrightarrow> c \<in> set cs \<Longrightarrow> CHR ''/'' \<notin> set c \<and> c \<noteq> []"
proof -
  assume "clean_list r cs" "c \<in> set cs"
  then obtain k ns where cs: "cs = replicate k ''..'' @ ns" and ns: "\<forall>n\<in>set ns. plain_name n"
    by (auto simp: clean_list_def)
  with \<open>c \<in> set cs\<close> have "c = ''..'' \<or> plain_name c" by (auto simp: in_set_replicate)
  then show ?thesis by (elim disjE) (simp_all add: plain_name_def)
qed

lemma Join_head: "ws \<noteq> [] \<Longrightarrow> hd ws \<noteq> [] \<Longrightarrow> Join ws sep \<noteq> [] \<and> hd (Join ws sep) = hd (hd ws)"
  by (induction ws sep rule: Join.induct) auto

lemma IsAbs_iff: "IsAbs p \<longleftrightarrow> p \<noteq> [] \<and> hd p = CHR ''/''"
  by (cases p) (auto simp: IsAbs_def)

lemma Clean_parts:
  "IsAbs (Clean p) = IsAbs p" "components (Clean p) = components p"
proof -
  let ?cs = "components p"
  let ?j = "Join ?cs CHR ''/''"
  have cl: "clean_list (IsAbs p) ?cs" by (rule components_clean)
  have ne: "\<And>c. c \<in> set ?cs \<Longrightarrow> CHR ''/'' \<notin> set c \<and> c \<noteq> []"
    using cl by (rule clean_list_no_slash)
  have split: "?cs \<noteq> [] \<Longrightarrow> Split ?j CHR ''/'' = ?cs"
    using ne by (intro Split_Join) auto
  have head: "?cs \<noteq> [] \<Longrightarrow> ?j \<noteq> [] \<and> hd ?j \<noteq> CHR ''/''"
    using Join_head [of ?cs "CHR ''/''"] ne [of "hd ?cs"]
    by (metis hd_in_set)
  show "IsAbs (Clean p) = IsAbs p"
    using head by (cases "?cs = []") (auto simp: Clean_def IsAbs_iff)
  then show "components (Clean p) = ?cs"
  proof (cases "?cs = []")
    case True
    then have "Clean p = ''/'' \<or> Clean p = ''.''" by (simp add: Clean_def)
    then show ?thesis using True by (auto simp: components_def [of "Clean p"])
  next
    case False
    have fixed: "clean_comps (IsAbs p) [] ?cs = ?cs" by (rule clean_comps_fixed [OF cl])
    have "clean_comps (IsAbs p) [] (Split (Clean p) CHR ''/'') = ?cs"
      using False split fixed head by (auto simp: Clean_def)
    then show ?thesis using \<open>IsAbs (Clean p) = IsAbs p\<close>
      by (simp add: components_def [of "Clean p"])
  qed
qed

lemma Clean_idem [simp]: "Clean (Clean p) = Clean p"
  by (simp add: Clean_def [of "Clean p"] Clean_parts) (simp add: Clean_def)

lemma Abs_absolute:
  assumes "IsAbs cwd"
  shows "IsAbs (Abs cwd p)"
proof -
  have "IsAbs (Join (filter (\<lambda>e. e \<noteq> []) [cwd, p]) CHR ''/'')" and "cwd \<noteq> []"
    using assms by (auto simp: IsAbs_def HasPrefix_iff)
  then show ?thesis by (auto simp: Abs_def path_Join_def Clean_parts Let_def)
qed

text \<open>\<open>Abs\<close> is idempotent: a path that went through it names itself.\<close>

lemma Abs_idem:
  assumes "IsAbs cwd"
  shows "Abs cwd (Abs cwd p) = Abs cwd p"
proof -
  have "cwd \<noteq> []" using assms by (auto simp: IsAbs_def)
  then have "\<exists>q. Abs cwd p = Clean q" by (auto simp: Abs_def path_Join_def Let_def)
  then obtain q where "Abs cwd p = Clean q" by blast
  moreover from this have "IsAbs (Clean q)" using Abs_absolute [OF assms, of p] by simp
  ultimately show ?thesis by (simp add: Abs_def)
qed

text \<open>A cleaned path is made of the characters of its parts, slashes and dots.\<close>

lemma Split_chars: "w \<in> set (Split s sep) \<Longrightarrow> set w \<subseteq> set s"
proof (induction s arbitrary: w)
  case (Cons c s)
  then show ?case by (cases "Split s sep") (fastforce split: if_splits)+
qed simp

lemma Join_chars: "set (Join ws sep) \<subseteq> insert sep (\<Union>w\<in>set ws. set w)"
  by (induction ws sep rule: Join.induct) auto

lemma clean_comps_chars:
  "set (clean_comps rooted out cs) \<subseteq> set out \<union> set cs"
  by (induction rooted out cs rule: clean_comps.induct) (auto split: if_splits list.splits)

lemma Clean_chars: "set (Clean p) \<subseteq> set p \<union> {CHR ''/'', CHR ''.''}"
proof -
  have "set (components p) \<subseteq> set (Split p CHR ''/'')"
    using clean_comps_chars [of "IsAbs p" "[]"] by (simp add: components_def)
  then have "(\<Union>w\<in>set (components p). set w) \<subseteq> set p" using Split_chars by blast
  then have "set (Join (components p) CHR ''/'') \<subseteq> set p \<union> {CHR ''/''}"
    using Join_chars [of "components p" "CHR ''/''"] by blast
  then show ?thesis by (auto simp: Clean_def Let_def)
qed

lemma abs_or_same_chars: "set (abs_or_same cwd p) \<subseteq> set cwd \<union> set p \<union> {CHR ''/'', CHR ''.''}"
proof -
  have "set (Join (filter (\<lambda>e. e \<noteq> []) [cwd, p]) CHR ''/'') \<subseteq> set cwd \<union> set p \<union> {CHR ''/''}"
    by auto
  then have "set (path_Join [cwd, p]) \<subseteq> set cwd \<union> set p \<union> {CHR ''/'', CHR ''.''}"
    using Clean_chars [of "Join (filter (\<lambda>e. e \<noteq> []) [cwd, p]) CHR ''/''"]
    unfolding path_Join_def Let_def by (auto split: if_splits)
  then show ?thesis using Clean_chars [of p] by (auto simp: abs_or_same_def filepath_Abs_def)
qed

end
