(* ===== verification/World.thy ===== *)
theory World
  imports Cache Metrics Go_Path
begin

text \<open>
  What a request handler sees of the machine it runs on: the clock, the files, the detection
  cache, the log watcher goroutine, the scanner binary, and what the rest of the machine will
  do. The rest of the machine is a timeline of events: lines the real-time engine appends to its log, files
  it quarantines, ticks of the cache's cleanup, detections taken by other goroutines.
  Blocking operations (\<open>Wait\<close>, running a command) let the events of their interval happen.
  An event and a timer at the same moment happen in the order event, timer; the other order is
  the timeline with the event a nanosecond later.
\<close>

section \<open>State\<close>

text \<open>What a receive from the tailer's channel gives: nil, once it is closed, or a line.\<close>

datatype TailLine = NilLine | LineErr string | LineText string

datatype EnvEvent =
    LogLine TailLine      \<comment> \<open>the tailer delivers something to the log watcher\<close>
  | FileVanishes string   \<comment> \<open>the file at an absolute path is removed (quarantine)\<close>
  | CleanupTick           \<comment> \<open>the ticker of \<open>cleanupLoop\<close> fires\<close>
  | OtherTake string      \<comment> \<open>another goroutine takes the detection of a path\<close>

text \<open>
  What running a command does: it cannot be started, or it runs for a while and exits. The last field
  is for how long after its start some process (a descendant, or the process itself while it is
  dying) holds its output pipes open.
\<close>

datatype ExecRun =
    StartFails string
  | Exits duration int string string duration
      \<comment> \<open>time taken, exit code (-1: killed by a signal), stdout, stderr, pipes held\<close>

text \<open>
  \<open>w_exec\<close> is the scanner binary, a program outside the repository: its behaviour is a function
  of the command, its arguments and the files. \<open>w_denied\<close> are the paths where the operating
  system refuses to create, read or remove a file, \<open>w_hidden\<close> those it refuses to say anything
  about (a directory on the way may not be searched). \<open>w_watcher\<close> is the body of the running log
  watcher, if one runs.
\<close>

record World =
  w_now :: gotime
  w_cwd :: string
  w_files :: "string \<rightharpoonup> string"
  w_denied :: "string \<Rightarrow> bool"
  w_hidden :: "string \<Rightarrow> bool"
  w_cache :: DetectionCache
  w_watcher :: "(string \<Rightarrow> TailLine \<Rightarrow> gotime \<Rightarrow> DetectionCache \<Rightarrow> DetectionCache) option"
  w_future :: "(gotime \<times> EnvEvent) list"
  w_exec :: "string \<Rightarrow> string list \<Rightarrow> (string \<rightharpoonup> string) \<Rightarrow> ExecRun"
  w_metrics :: Metrics

section \<open>Files\<close>

definition resolve :: "World \<Rightarrow> string \<Rightarrow> string" where
  "resolve w p = Abs (w_cwd w) p"

definition file_at :: "World \<Rightarrow> string \<Rightarrow> string option" where
  "file_at w p = (if p = [] then None else w_files w (resolve w p))"

datatype OSError = NotExist | PermissionDenied

definition os_Stat :: "string \<Rightarrow> World \<Rightarrow> OSError option" where
  "os_Stat p w =
     (if p \<noteq> [] \<and> w_hidden w (resolve w p) then Some PermissionDenied
      else case file_at w p of None \<Rightarrow> Some NotExist | Some _ \<Rightarrow> None)"

definition os_ReadFile :: "string \<Rightarrow> World \<Rightarrow> OSError + string" where
  "os_ReadFile p w =
     (case file_at w p of
        None \<Rightarrow> Inl NotExist
      | Some content \<Rightarrow> if w_denied w (resolve w p) then Inl PermissionDenied else Inr content)"

definition os_Remove :: "string \<Rightarrow> World \<Rightarrow> OSError option \<times> World" where
  "os_Remove p w =
     (case file_at w p of
        None \<Rightarrow> (Some NotExist, w)
      | Some _ \<Rightarrow>
          if w_denied w (resolve w p) then (Some PermissionDenied, w)
          else (None, w\<lparr>w_files := (w_files w)(resolve w p := None)\<rparr>))"

text \<open>\<open>os.Create\<close> and \<open>io.Copy\<close> into the new file.\<close>

definition os_Create :: "string \<Rightarrow> World \<Rightarrow> OSError option \<times> World" where
  "os_Create p w =
     (if p = [] then (Some NotExist, w)
      else if w_denied w (resolve w p) then (Some PermissionDenied, w)
      else (None, w\<lparr>w_files := (w_files w)(resolve w p \<mapsto> [])\<rparr>))"

definition write_file :: "string \<Rightarrow> string \<Rightarrow> World \<Rightarrow> World" where
  "write_file p content w = w\<lparr>w_files := (w_files w)(resolve w p \<mapsto> content)\<rparr>"

section \<open>Time passes\<close>

fun apply_event :: "EnvEvent \<Rightarrow> World \<Rightarrow> World" where
  "apply_event (LogLine line) w =
     (case w_watcher w of
        None \<Rightarrow> w
      | Some f \<Rightarrow> w\<lparr>w_cache := f (w_cwd w) line (w_now w) (w_cache w)\<rparr>)"
| "apply_event (FileVanishes p) w = w\<lparr>w_files := (w_files w)(p := None)\<rparr>"
| "apply_event CleanupTick w =
     (case cleanup_tick (w_now w) (w_cache w) of
        None \<Rightarrow> w | Some c \<Rightarrow> w\<lparr>w_cache := c\<rparr>)"
| "apply_event (OtherTake p) w = w\<lparr>w_cache := snd (cache_Get p (w_cache w))\<rparr>"

definition clock_to :: "gotime \<Rightarrow> World \<Rightarrow> World" where
  "clock_to t w = w\<lparr>w_now := max (w_now w) t\<rparr>"

fun run_until :: "gotime \<Rightarrow> (gotime \<times> EnvEvent) list \<Rightarrow> World \<Rightarrow> World" where
  "run_until t [] w = (clock_to t w)\<lparr>w_future := []\<rparr>"
| "run_until t ((te, e) # es) w =
     (if te \<le> t then run_until t es (apply_event e (clock_to te w))
      else (clock_to t w)\<lparr>w_future := (te, e) # es\<rparr>)"

definition sleep_until :: "gotime \<Rightarrow> World \<Rightarrow> World" where
  "sleep_until t w = run_until t (w_future w) w"

section \<open>\<open>DetectionCache.Wait\<close>\<close>

text \<open>
  Blocked in \<open>select\<close> on channel \<open>ch\<close> and the timer: events happen until one closes the channel,
  when the cache is polled again, or the timer fires.
\<close>

fun wait_select ::
  "string \<Rightarrow> gotime \<Rightarrow> nat \<Rightarrow> (gotime \<times> EnvEvent) list \<Rightarrow> World \<Rightarrow> Detection option \<times> World" where
  "wait_select p deadline ch [] w = (None, (clock_to deadline w)\<lparr>w_future := []\<rparr>)"
| "wait_select p deadline ch ((te, e) # es) w =
     (if te \<le> deadline then
        (let w1 = apply_event e (clock_to te w)
         in if channel_closed ch (w_cache w1) then
              (case Wait_poll p (w_cache w1) of
                 (Inl d, c) \<Rightarrow> (Some d, w1\<lparr>w_cache := c, w_future := es\<rparr>)
               | (Inr ch', c) \<Rightarrow> wait_select p deadline ch' es (w1\<lparr>w_cache := c\<rparr>))
            else wait_select p deadline ch es w1)
      else (None, (clock_to deadline w)\<lparr>w_future := (te, e) # es\<rparr>))"

definition cache_Wait :: "string \<Rightarrow> duration \<Rightarrow> World \<Rightarrow> Detection option \<times> World" where
  "cache_Wait absPath timeout w =
     (case Wait_poll absPath (w_cache w) of
        (Inl d, c) \<Rightarrow> (Some d, w\<lparr>w_cache := c\<rparr>)
      | (Inr ch, c) \<Rightarrow>
          wait_select absPath (w_now w + timeout) ch (w_future w) (w\<lparr>w_cache := c\<rparr>))"

section \<open>Commands\<close>

datatype CmdResult =
    CmdDeadlineExceeded
  | CmdError string                \<comment> \<open>any error that is not an \<open>ExitError\<close>\<close>
  | CmdExit int string string      \<comment> \<open>exit code, stdout, stderr\<close>

text \<open>
  \<open>exec.CommandContext\<close> under \<open>context.WithTimeout\<close>, then \<open>Run\<close>: at the deadline the process is
  killed. A timeout that is not positive has passed before the command starts. \<open>Run\<close> returns when
  the process is gone and nobody holds the pipes of its output any more (\<open>WaitDelay\<close> is 0), which
  may be later than the deadline; the callers look at \<open>ctx.Err()\<close> first, so whatever returns after the
  deadline is a timeout to them, also a process that exited in time.
\<close>

definition run_command ::
  "string \<Rightarrow> string list \<Rightarrow> duration \<Rightarrow> World \<Rightarrow> CmdResult \<times> World" where
  "run_command bin args timeout w =
     (if timeout \<le> 0 then (CmdDeadlineExceeded, w)
      else (case w_exec w bin args (w_files w) of
              StartFails e \<Rightarrow> (CmdError e, w)
            | Exits dur code out err held \<Rightarrow>
                (let returns = max (min dur timeout) held;
                     w1 = sleep_until (w_now w + returns) w
                 in if returns < timeout then (CmdExit code out err, w1)
                    else (CmdDeadlineExceeded, w1))))"

text \<open>No command holds its output pipes open for longer than \<open>n\<close> after its start.\<close>

definition pipes_released :: "duration \<Rightarrow> World \<Rightarrow> bool" where
  "pipes_released n w \<longleftrightarrow>
     (\<forall>bin args fs dur code out err held. w_exec w bin args fs = Exits dur code out err held \<longrightarrow> held \<le> n)"

section \<open>Log watchers\<close>

text \<open>
  The contract of the body of a log watcher: for each line it adds one detection to the
  cache, or does nothing.
\<close>

locale log_watcher =
  fixes process :: "string \<Rightarrow> TailLine \<Rightarrow> gotime \<Rightarrow> DetectionCache \<Rightarrow> DetectionCache"
  assumes adds_or_nothing: "process cwd line now c = c \<or>
      (\<exists>p d. det_Status d = ''infected'' \<and> process cwd line now c = cache_Add p d now c)"
begin

lemma process_unchanged:
  "dc_added (process cwd line now c) = dc_added c \<Longrightarrow> process cwd line now c = c"
  using adds_or_nothing [of cwd line now c] by (auto simp: frame_simps)

lemma process_added: "dc_added c \<le> dc_added (process cwd line now c)"
  using adds_or_nothing [of cwd line now c] by (auto simp: frame_simps)

lemma process_status:
  assumes "\<And>p d. dc_detections c p = Some d \<Longrightarrow> det_Status d = ''infected''"
    and "dc_detections (process cwd line now c) p = Some d"
  shows "det_Status d = ''infected''"
  using adds_or_nothing [of cwd line now c] assms
  by (auto simp: cache_Add_def split: if_splits)

end

text \<open>The worlds the program runs in: the watcher, if any, keeps the contract.\<close>

definition world_ok :: "World \<Rightarrow> bool" where
  "world_ok w \<longleftrightarrow> (case w_watcher w of None \<Rightarrow> True | Some f \<Rightarrow> log_watcher f)"

section \<open>What events and waiting leave alone\<close>

lemma clock_to_frame [frame_simps]:
  "w_now (clock_to t w) = max (w_now w) t" "w_cache (clock_to t w) = w_cache w"
  "w_files (clock_to t w) = w_files w" "w_watcher (clock_to t w) = w_watcher w"
  "w_cwd (clock_to t w) = w_cwd w" "w_denied (clock_to t w) = w_denied w"
  "w_metrics (clock_to t w) = w_metrics w" "w_future (clock_to t w) = w_future w"
  "w_exec (clock_to t w) = w_exec w" "w_hidden (clock_to t w) = w_hidden w"
  by (simp_all add: clock_to_def)

lemma apply_event_frame [frame_simps]:
  "w_now (apply_event e w) = w_now w" "w_watcher (apply_event e w) = w_watcher w"
  "w_cwd (apply_event e w) = w_cwd w" "w_denied (apply_event e w) = w_denied w"
  "w_metrics (apply_event e w) = w_metrics w" "w_exec (apply_event e w) = w_exec w"
  "w_hidden (apply_event e w) = w_hidden w"
  by (cases e; simp split: option.splits)+

lemma apply_event_files: "w_files w p = None \<Longrightarrow> w_files (apply_event e w) p = None"
  by (cases e) (auto split: option.splits)

text \<open>The part of the world that the passing of time does not touch.\<close>

definition same_setup :: "World \<Rightarrow> World \<Rightarrow> bool" where
  "same_setup w w' \<longleftrightarrow> w_watcher w' = w_watcher w \<and> w_cwd w' = w_cwd w \<and> w_denied w' = w_denied w \<and>
     w_metrics w' = w_metrics w \<and> w_exec w' = w_exec w \<and> w_hidden w' = w_hidden w"

lemma same_setup_refl [simp]: "same_setup w w"
  by (simp add: same_setup_def)

lemma same_setup_trans: "same_setup a b \<Longrightarrow> same_setup b c \<Longrightarrow> same_setup a c"
  by (simp add: same_setup_def)

lemma same_setup_ok: "same_setup w w' \<Longrightarrow> world_ok w' = world_ok w"
  by (simp add: same_setup_def world_ok_def)

lemma same_setup_event: "same_setup w (apply_event e (clock_to t w))"
  by (simp add: same_setup_def frame_simps)

lemma run_until_frame:
  "same_setup w (run_until t es w) \<and> w_now (run_until t es w) = max (w_now w) t \<and>
   (\<forall>p. w_files w p = None \<longrightarrow> w_files (run_until t es w) p = None)"
proof (induction t es w rule: run_until.induct)
  case (1 t w)
  then show ?case by (simp add: same_setup_def frame_simps)
next
  case (2 t te e es w)
  show ?case
  proof (cases "te \<le> t")
    case True
    let ?w1 = "apply_event e (clock_to te w)"
    have "w_files ?w1 p = None" if "w_files w p = None" for p
      using that by (simp add: apply_event_files frame_simps)
    with 2 True same_setup_event [of w e te] show ?thesis
      by (auto simp: frame_simps intro: same_setup_trans)
  next
    case False
    then show ?thesis by (simp add: same_setup_def frame_simps)
  qed
qed

lemma sleep_until_frame:
  "same_setup w (sleep_until t w)" "w_now (sleep_until t w) = max (w_now w) t"
  "w_files w p = None \<Longrightarrow> w_files (sleep_until t w) p = None"
  using run_until_frame [of w t "w_future w"] by (simp_all add: sleep_until_def)

lemma same_setup_released: "same_setup w w' \<Longrightarrow> pipes_released n w' = pipes_released n w"
  by (simp add: same_setup_def pipes_released_def)

lemma run_command_frame:
  assumes "run_command bin args timeout w = (r, w')"
  shows "same_setup w w'" "w_now w \<le> w_now w'"
    "pipes_released n w \<Longrightarrow> w_now w' \<le> w_now w + max n (max 0 timeout)"
    "r \<noteq> CmdDeadlineExceeded \<Longrightarrow> w_now w' \<le> w_now w + max 0 timeout"
    "w_files w p = None \<Longrightarrow> w_files w' p = None"
proof -
  have "same_setup w w' \<and> w_now w \<le> w_now w' \<and>
    (pipes_released n w \<longrightarrow> w_now w' \<le> w_now w + max n (max 0 timeout)) \<and>
    (r \<noteq> CmdDeadlineExceeded \<longrightarrow> w_now w' \<le> w_now w + max 0 timeout) \<and>
    (w_files w p = None \<longrightarrow> w_files w' p = None)"
  proof (cases "timeout \<le> 0")
    case True
    with assms show ?thesis by (simp add: run_command_def)
  next
    case False
    show ?thesis
    proof (cases "w_exec w bin args (w_files w)")
      case (StartFails e)
      with False assms show ?thesis by (auto simp: run_command_def max_def)
    next
      case (Exits dur code out err held)
      with False assms have w': "w' = sleep_until (w_now w + max (min dur timeout) held) w"
        and r: "r \<noteq> CmdDeadlineExceeded \<longrightarrow> max (min dur timeout) held < timeout"
        by (auto simp: run_command_def Let_def split: if_splits)
      have "pipes_released n w \<longrightarrow> held \<le> n" using Exits by (auto simp: pipes_released_def)
      then have "pipes_released n w \<longrightarrow> max (min dur timeout) held \<le> max n (max 0 timeout)"
        by (auto simp: max_def min_def)
      with r sleep_until_frame [where w = w and t = "w_now w + max (min dur timeout) held"] show ?thesis
        unfolding w' by (auto simp: max_def split: if_splits)
    qed
  qed
  then show "same_setup w w'" "w_now w \<le> w_now w'"
    "pipes_released n w \<Longrightarrow> w_now w' \<le> w_now w + max n (max 0 timeout)"
    "r \<noteq> CmdDeadlineExceeded \<Longrightarrow> w_now w' \<le> w_now w + max 0 timeout"
    "w_files w p = None \<Longrightarrow> w_files w' p = None" by blast+
qed

section \<open>Correctness of \<open>Wait\<close>\<close>

lemma Wait_poll_frame:
  "Wait_poll p c = (r, c') \<Longrightarrow> dc_added c' = dc_added c \<and> dc_detections c' p = None"
  by (auto dest!: Wait_poll_cases)

text \<open>An event that leaves the channel open adds no detection.\<close>

lemma apply_event_no_add:
  assumes "world_ok w" "\<not> channel_closed ch (w_cache (apply_event e w))" "ch = dc_added (w_cache w)"
    and "dc_detections (w_cache w) p = None"
  shows "dc_detections (w_cache (apply_event e w)) p = None \<and>
    dc_added (w_cache (apply_event e w)) = ch"
proof (cases e)
  case (LogLine line)
  show ?thesis
  proof (cases "w_watcher w")
    case None
    with assms LogLine show ?thesis by simp
  next
    case (Some f)
    with assms(1) have "log_watcher f" by (simp add: world_ok_def)
    then have "\<not> dc_added (w_cache w) < dc_added (f (w_cwd w) line (w_now w) (w_cache w)) \<Longrightarrow>
        f (w_cwd w) line (w_now w) (w_cache w) = w_cache w"
      using log_watcher.process_added log_watcher.process_unchanged le_neq_implies_less by metis
    moreover have "w_cache (apply_event e w) = f (w_cwd w) line (w_now w) (w_cache w)"
      using Some LogLine by simp
    ultimately have "f (w_cwd w) line (w_now w) (w_cache w) = w_cache w"
      using assms(2,3) by (simp add: channel_closed_def)
    with assms Some LogLine show ?thesis by simp
  qed
next
  case CleanupTick
  with assms show ?thesis
    by (auto simp: cleanup_tick_def cache_cleanup_def split: option.splits if_splits)
next
  case (OtherTake q)
  with assms show ?thesis by (auto simp: cache_Get_def split: option.splits)
qed (use assms in simp)

lemma wait_select_spec:
  assumes "world_ok w" "ch = dc_added (w_cache w)" "dc_detections (w_cache w) p = None"
    and "w_now w \<le> deadline" and "wait_select p deadline ch es w = (r, w')"
  shows "same_setup w w' \<and> dc_detections (w_cache w') p = None \<and>
    w_now w \<le> w_now w' \<and> w_now w' \<le> deadline \<and> (r = None \<longrightarrow> w_now w' = deadline) \<and>
    (\<forall>q. w_files w q = None \<longrightarrow> w_files w' q = None)"
  using assms
proof (induction p deadline ch es w arbitrary: r w' rule: wait_select.induct)
  case (1 p deadline ch w)
  then show ?case by (auto simp: same_setup_def frame_simps)
next
  case (2 p deadline ch te e es w)
  show ?case
  proof (cases "te \<le> deadline")
    case False
    with "2.prems" show ?thesis by (auto simp: same_setup_def frame_simps)
  next
    case te: True
    let ?w0 = "clock_to te w"
    let ?w1 = "apply_event e ?w0"
    have ok: "world_ok ?w0" "world_ok ?w1"
      using "2.prems"(1) same_setup_ok [OF same_setup_event] by (simp_all add: world_ok_def frame_simps)
    have now: "w_now ?w1 = max (w_now w) te" by (simp add: frame_simps)
    have files: "w_files ?w1 q = None" if "w_files w q = None" for q
      using that by (simp add: apply_event_files frame_simps)
    show ?thesis
    proof (cases "channel_closed ch (w_cache ?w1)")
      case False
      have "dc_detections (w_cache ?w1) p = None \<and> dc_added (w_cache ?w1) = ch"
        using apply_event_no_add [OF ok(1) False] "2.prems"(2,3) by (simp add: frame_simps)
      then have "same_setup ?w1 w' \<and> dc_detections (w_cache w') p = None \<and>
          w_now ?w1 \<le> w_now w' \<and> w_now w' \<le> deadline \<and> (r = None \<longrightarrow> w_now w' = deadline) \<and>
          (\<forall>q. w_files ?w1 q = None \<longrightarrow> w_files w' q = None)"
        using False te "2.prems"(4,5) ok(2) now
        by (intro "2.IH"(2)) (auto simp: Let_def)
      then show ?thesis
        using now files same_setup_trans [OF same_setup_event] by fastforce
    next
      case closed: True
      obtain x c where poll: "Wait_poll p (w_cache ?w1) = (x, c)" by fastforce
      note pf = Wait_poll_frame [OF poll]
      have upd: "same_setup ?w1 (?w1\<lparr>w_cache := c\<rparr>)" by (simp add: same_setup_def)
      show ?thesis
      proof (cases x)
        case (Inl d)
        with "2.prems"(5) te closed poll
        have "r = Some d" "w' = ?w1\<lparr>w_cache := c, w_future := es\<rparr>"
          by (auto simp: Let_def)
        then show ?thesis
          using pf now files te "2.prems"(4) same_setup_event [of w e te]
          by (auto simp: same_setup_def)
      next
        case (Inr ch')
        with poll have ch': "ch' = dc_added (w_cache ?w1)" by (auto dest: Wait_poll_cases)
        have "same_setup (?w1\<lparr>w_cache := c\<rparr>) w' \<and> dc_detections (w_cache w') p = None \<and>
            w_now (?w1\<lparr>w_cache := c\<rparr>) \<le> w_now w' \<and> w_now w' \<le> deadline \<and>
            (r = None \<longrightarrow> w_now w' = deadline) \<and>
            (\<forall>q. w_files (?w1\<lparr>w_cache := c\<rparr>) q = None \<longrightarrow> w_files w' q = None)"
          using poll Inr closed te "2.prems"(4,5) same_setup_ok [OF upd] ok(2) pf ch' now
          by (intro "2.IH"(1) [OF te refl closed poll [symmetric] Inr]) (auto simp: Let_def)
        then show ?thesis
          using now files same_setup_trans [OF same_setup_event same_setup_trans [OF upd]]
          by fastforce
      qed
    qed
  qed
qed

lemma cache_Wait_spec:
  assumes "world_ok w" "0 \<le> timeout" "cache_Wait p timeout w = (r, w')"
  shows "same_setup w w' \<and> dc_detections (w_cache w') p = None \<and>
    w_now w \<le> w_now w' \<and> w_now w' \<le> w_now w + timeout \<and>
    (r = None \<longrightarrow> w_now w' = w_now w + timeout) \<and>
    (\<forall>q. w_files w q = None \<longrightarrow> w_files w' q = None)"
proof -
  obtain x c where poll: "Wait_poll p (w_cache w) = (x, c)" by fastforce
  note pf = Wait_poll_frame [OF poll]
  have upd: "same_setup w (w\<lparr>w_cache := c\<rparr>)" by (simp add: same_setup_def)
  show ?thesis
  proof (cases x)
    case (Inl d)
    with poll assms pf upd show ?thesis by (auto simp: cache_Wait_def)
  next
    case (Inr ch)
    with poll have "ch = dc_added (w_cache w)" by (auto dest: Wait_poll_cases)
    with Inr poll assms pf same_setup_ok [OF upd]
    have "same_setup (w\<lparr>w_cache := c\<rparr>) w' \<and> dc_detections (w_cache w') p = None \<and>
        w_now (w\<lparr>w_cache := c\<rparr>) \<le> w_now w' \<and> w_now w' \<le> w_now w + timeout \<and>
        (r = None \<longrightarrow> w_now w' = w_now w + timeout) \<and>
        (\<forall>q. w_files (w\<lparr>w_cache := c\<rparr>) q = None \<longrightarrow> w_files w' q = None)"
      by (intro wait_select_spec [where es = "w_future w" and ch = ch])
        (auto simp: cache_Wait_def)
    with upd show ?thesis by (auto intro: same_setup_trans)
  qed
qed

text \<open>
  C17: \<open>Wait\<close> on a world whose log watcher keeps its contract returns by its deadline; it comes
  back empty-handed only at the deadline, and then no detection of the path is in the cache; a
  detection it returns is no longer there. Meanwhile files may vanish, but none comes into being,
  and nothing is recorded in the metrics.
\<close>

theorem cache_Wait_correct:
  assumes "world_ok w" and "0 \<le> timeout" and "cache_Wait p timeout w = (r, w')"
  shows "dc_detections (w_cache w') p = None \<and>
    w_now w \<le> w_now w' \<and> w_now w' \<le> w_now w + timeout \<and>
    (r = None \<longrightarrow> w_now w' = w_now w + timeout) \<and>
    (\<forall>q. w_files w q = None \<longrightarrow> w_files w' q = None) \<and> w_metrics w' = w_metrics w"
  using cache_Wait_spec [OF assms] by (auto simp: same_setup_def)

text \<open>A small world for concrete runs: an empty cache and nothing denied.\<close>

definition sample_world ::
  "(string \<Rightarrow> TailLine \<Rightarrow> gotime \<Rightarrow> DetectionCache \<Rightarrow> DetectionCache) option \<Rightarrow>
   (gotime \<times> EnvEvent) list \<Rightarrow> ExecRun \<Rightarrow> World" where
  "sample_world watcher future run =
     \<lparr>w_now = 0, w_cwd = ''/srv'', w_files = [''/u/a'' \<mapsto> ''x''], w_denied = (\<lambda>_. False),
      w_hidden = (\<lambda>_. False),
      w_cache = NewDetectionCache 0, w_watcher = watcher, w_future = future,
      w_exec = (\<lambda>_ _ _. run), w_metrics = []\<rparr>"

lemma cache_Wait_correct_witness:
  "\<exists>w'. cache_Wait ''/u/a'' 5 (sample_world None [(2, CleanupTick)] (StartFails [])) = (None, w') \<and>
     w_now w' = 5"
proof -
  obtain r w' where run: "cache_Wait ''/u/a'' 5 (sample_world None [(2, CleanupTick)] (StartFails []))
      = (r, w')" by fastforce
  have ok: "world_ok (sample_world None [(2, CleanupTick)] (StartFails []))"
    by (simp add: sample_world_def world_ok_def)
  have "r = None"
    using run by (simp add: sample_world_def cache_Wait_def Wait_poll_def NewDetectionCache_def
        cleanup_tick_def cache_cleanup_def channel_closed_def clock_to_def Let_def)
  then show ?thesis
    using run cache_Wait_correct [OF ok _ run] by (simp add: sample_world_def)
qed

text \<open>A detection that is already there is returned at once.\<close>

lemma cache_Wait_hit:
  "dc_detections (w_cache w) p = Some d \<Longrightarrow>
   cache_Wait p timeout w =
     (Some d, w\<lparr>w_cache := (w_cache w)\<lparr>dc_detections := (dc_detections (w_cache w))(p := None)\<rparr>\<rparr>)"
  by (simp add: cache_Wait_def Wait_poll_def)

text \<open>
  Every detection in the cache is an infection: the watchers add nothing else.
\<close>

definition cache_infected :: "DetectionCache \<Rightarrow> bool" where
  "cache_infected c \<longleftrightarrow> (\<forall>p d. dc_detections c p = Some d \<longrightarrow> det_Status d = ''infected'')"

lemma cache_infected_New: "cache_infected (NewDetectionCache ttl)"
  by (simp add: cache_infected_def NewDetectionCache_def)

lemma cache_infected_poll: "cache_infected c \<Longrightarrow> Wait_poll p c = (r, c') \<Longrightarrow>
    cache_infected c' \<and> (\<forall>d. r = Inl d \<longrightarrow> det_Status d = ''infected'')"
  by (auto simp: cache_infected_def Wait_poll_def split: option.splits if_splits)

text \<open>
  What the program's steps keep of the cache in a world whose watcher keeps its contract: it is not
  stopped behind the program's back, and it holds infections only.
\<close>

definition cache_kept :: "World \<Rightarrow> World \<Rightarrow> bool" where
  "cache_kept w w' \<longleftrightarrow> dc_stopped (w_cache w') = dc_stopped (w_cache w) \<and>
     (cache_infected (w_cache w) \<longrightarrow> cache_infected (w_cache w'))"

lemma cache_kept_refl [simp]: "cache_kept w w"
  by (simp add: cache_kept_def)

lemma cache_kept_trans: "cache_kept a b \<Longrightarrow> cache_kept b c \<Longrightarrow> cache_kept a c"
  by (simp add: cache_kept_def)

lemma cache_kept_same: "w_cache w' = w_cache w \<Longrightarrow> cache_kept w w'"
  by (simp add: cache_kept_def)

lemma apply_event_cache:
  assumes "world_ok w"
  shows "dc_added (w_cache w) \<le> dc_added (w_cache (apply_event e w)) \<and>
    cache_kept w (apply_event e w)"
proof (cases e)
  case (LogLine line)
  show ?thesis
  proof (cases "w_watcher w")
    case None
    with LogLine show ?thesis by simp
  next
    case (Some f)
    with assms have f: "log_watcher f" by (simp add: world_ok_def)
    let ?c = "f (w_cwd w) line (w_now w) (w_cache w)"
    have "dc_stopped ?c = dc_stopped (w_cache w)"
      using log_watcher.adds_or_nothing [OF f, of "w_cwd w" line "w_now w" "w_cache w"]
      by (auto simp: frame_simps)
    moreover have "cache_infected (w_cache w) \<Longrightarrow> cache_infected ?c"
      unfolding cache_infected_def by (blast intro: log_watcher.process_status [OF f])
    ultimately show ?thesis
      using LogLine Some log_watcher.process_added [OF f] by (simp add: cache_kept_def)
  qed
next
  case CleanupTick
  then show ?thesis
    by (auto simp: cleanup_tick_def cache_cleanup_def cache_infected_def cache_kept_def
        split: option.splits if_splits)
next
  case (OtherTake q)
  then show ?thesis
    by (auto simp: cache_Get_def cache_infected_def cache_kept_def split: option.splits)
qed (simp add: cache_kept_def)

lemma event_kept:
  assumes "world_ok w"
  shows "cache_kept w (apply_event e (clock_to t w))" "world_ok (apply_event e (clock_to t w))"
proof -
  have "world_ok (clock_to t w)" using assms by (simp add: world_ok_def frame_simps)
  from apply_event_cache [OF this, of e] show "cache_kept w (apply_event e (clock_to t w))"
    by (simp add: cache_kept_def frame_simps)
  show "world_ok (apply_event e (clock_to t w))"
    using assms same_setup_ok [OF same_setup_event] by simp
qed

lemma run_until_kept: "world_ok w \<Longrightarrow> cache_kept w (run_until t es w)"
proof (induction t es w rule: run_until.induct)
  case (2 t te e es w)
  show ?case
  proof (cases "te \<le> t")
    case True
    have "cache_kept (apply_event e (clock_to te w)) (run_until t es (apply_event e (clock_to te w)))"
      using "2.IH" [OF True] event_kept(2) [OF "2.prems"] by blast
    with True event_kept(1) [OF "2.prems"] show ?thesis by (auto intro: cache_kept_trans)
  qed (simp add: cache_kept_def frame_simps)
qed (simp add: cache_kept_def frame_simps)

lemma run_command_kept:
  "world_ok w \<Longrightarrow> run_command b a t w = (r, w') \<Longrightarrow> cache_kept w w'"
  using run_until_kept
  by (auto simp: run_command_def sleep_until_def Let_def split: if_splits ExecRun.splits)

lemma poll_kept:
  "Wait_poll p c = (r, c') \<Longrightarrow> dc_stopped c' = dc_stopped c \<and> (cache_infected c \<longrightarrow> cache_infected c')"
  using cache_infected_poll by (auto dest: Wait_poll_cases)

lemma wait_select_kept:
  "world_ok w \<Longrightarrow> wait_select p deadline ch es w = (r, w') \<Longrightarrow> cache_kept w w'"
proof (induction p deadline ch es w arbitrary: r w' rule: wait_select.induct)
  case (1 p deadline ch w)
  then show ?case by (auto simp: cache_kept_def frame_simps)
next
  case (2 p deadline ch te e es w)
  show ?case
  proof (cases "te \<le> deadline")
    case False
    with "2.prems" show ?thesis by (auto simp: cache_kept_def frame_simps)
  next
    case te: True
    let ?w1 = "apply_event e (clock_to te w)"
    note ev = event_kept [OF "2.prems"(1), of e te]
    show ?thesis
    proof (cases "channel_closed ch (w_cache ?w1)")
      case False
      with te "2.prems"(2) "2.IH"(2) [OF te refl False ev(2)] ev(1) show ?thesis
        by (auto simp: Let_def intro: cache_kept_trans)
    next
      case closed: True
      obtain x c where poll: "Wait_poll p (w_cache ?w1) = (x, c)" by fastforce
      have kept: "cache_kept w (?w1\<lparr>w_cache := c\<rparr>)"
        using ev(1) poll_kept [OF poll] by (simp add: cache_kept_def)
      have ok: "world_ok (?w1\<lparr>w_cache := c\<rparr>)" using ev(2) by (simp add: world_ok_def)
      show ?thesis
      proof (cases x)
        case (Inl d)
        with "2.prems"(2) te closed poll have "w' = ?w1\<lparr>w_cache := c, w_future := es\<rparr>"
          by (auto simp: Let_def)
        with kept show ?thesis by (simp add: cache_kept_def)
      next
        case (Inr ch')
        with "2.prems"(2) te closed poll
        have "wait_select p deadline ch' es (?w1\<lparr>w_cache := c\<rparr>) = (r, w')" by (simp add: Let_def)
        from "2.IH"(1) [OF te refl closed poll [symmetric] Inr ok this] kept show ?thesis
          by (rule cache_kept_trans [rotated])
      qed
    qed
  qed
qed

lemma cache_Wait_kept:
  assumes "world_ok w" "cache_Wait p timeout w = (r, w')"
  shows "cache_kept w w'"
proof -
  obtain x c where poll: "Wait_poll p (w_cache w) = (x, c)" by fastforce
  have kept: "cache_kept w (w\<lparr>w_cache := c\<rparr>)" using poll_kept [OF poll] by (simp add: cache_kept_def)
  have ok: "world_ok (w\<lparr>w_cache := c\<rparr>)" using assms(1) by (simp add: world_ok_def)
  show ?thesis
    using assms(2) poll kept wait_select_kept [OF ok] cache_kept_trans [OF kept]
    by (cases x) (auto simp: cache_Wait_def)
qed

text \<open>
  \<open>Wait\<close> hears every report: if at some moment before its deadline the watcher reads a line that
  makes it add a detection of the path, then \<open>Wait\<close> has returned a detection by that moment,
  whatever else happens before.
\<close>

lemma wait_select_hears:
  assumes "world_ok w" "cache_infected (w_cache w)" "ch \<le> dc_added (w_cache w)"
    and "w_watcher w = Some f" "w_now w \<le> te" "te \<le> deadline"
    and "\<And>t e. (t, e) \<in> set pre \<Longrightarrow> t \<le> te"
    and "\<And>c. \<exists>d. det_Status d = ''infected'' \<and> f (w_cwd w) line te c = cache_Add p d te c"
  shows "\<exists>d w'. wait_select p deadline ch (pre @ (te, LogLine line) # es) w = (Some d, w') \<and>
    det_Status d = ''infected'' \<and> w_now w' \<le> te"
  using assms
proof (induction pre arbitrary: ch w)
  case Nil
  let ?w0 = "clock_to te w"
  have now: "w_now ?w0 = te" using Nil.prems(5) by (simp add: frame_simps)
  obtain d where d: "det_Status d = ''infected''"
    "f (w_cwd w) line te (w_cache w) = cache_Add p d te (w_cache w)"
    using Nil.prems(8) by blast
  then have "w_cache (apply_event (LogLine line) ?w0) = cache_Add p d te (w_cache w)"
    using now Nil.prems(4) by (simp add: frame_simps)
  then show ?case
    using Nil.prems(3,4,6) d(1) now
    by (simp add: Let_def channel_closed_def Wait_poll_def cache_Add_def frame_simps)
next
  case (Cons x pre)
  obtain t e where x: "x = (t, e)" by fastforce
  with Cons.prems(7) [of t e] have t: "t \<le> te" by simp
  let ?w1 = "apply_event e (clock_to t w)"
  have ok: "world_ok ?w1" using Cons.prems(1) same_setup_ok [OF same_setup_event] by simp
  have ok0: "world_ok (clock_to t w)"
    using Cons.prems(1) by (simp add: world_ok_def frame_simps)
  have cache: "dc_added (w_cache w) \<le> dc_added (w_cache ?w1)" "cache_infected (w_cache ?w1)"
    using apply_event_cache [OF ok0, of e] Cons.prems(2) by (simp_all add: frame_simps cache_kept_def)
  have frame: "w_watcher ?w1 = Some f" "w_cwd ?w1 = w_cwd w" "w_now ?w1 \<le> te"
    using Cons.prems(4,5) t by (simp_all add: frame_simps)
  show ?case
  proof (cases "channel_closed ch (w_cache ?w1)")
    case False
    have "\<exists>d w'. wait_select p deadline ch (pre @ (te, LogLine line) # es) ?w1 = (Some d, w') \<and>
        det_Status d = ''infected'' \<and> w_now w' \<le> te"
      by (rule Cons.IH) (use ok cache frame Cons.prems in auto)
    with False x t Cons.prems(6) show ?thesis by (simp add: Let_def)
  next
    case True
    obtain r c where poll: "Wait_poll p (w_cache ?w1) = (r, c)" by fastforce
    note inf = cache_infected_poll [OF cache(2) poll]
    show ?thesis
    proof (cases r)
      case (Inl d)
      with True x t Cons.prems(6) poll inf frame show ?thesis by (simp add: Let_def)
    next
      case (Inr ch')
      with poll have "ch' = dc_added (w_cache ?w1) \<and> c = w_cache ?w1"
        by (auto dest: Wait_poll_cases)
      moreover have "\<exists>d w'. wait_select p deadline ch' (pre @ (te, LogLine line) # es)
          (?w1\<lparr>w_cache := c\<rparr>) = (Some d, w') \<and> det_Status d = ''infected'' \<and> w_now w' \<le> te"
        by (rule Cons.IH) (use ok inf frame Cons.prems calculation in \<open>auto simp: world_ok_def\<close>)
      ultimately show ?thesis
        using True Inr x t Cons.prems(6) poll by (simp add: Let_def)
    qed
  qed
qed

lemma cache_Wait_hears:
  assumes "world_ok w" "cache_infected (w_cache w)" "w_watcher w = Some f"
    and "w_now w \<le> te" "te \<le> w_now w + timeout"
    and "w_future w = pre @ (te, LogLine line) # es" "\<And>t e. (t, e) \<in> set pre \<Longrightarrow> t \<le> te"
    and "\<And>c. \<exists>d. det_Status d = ''infected'' \<and> f (w_cwd w) line te c = cache_Add p d te c"
  shows "\<exists>d w'. cache_Wait p timeout w = (Some d, w') \<and> det_Status d = ''infected'' \<and> w_now w' \<le> te"
proof -
  obtain r c where poll: "Wait_poll p (w_cache w) = (r, c)" by fastforce
  note inf = cache_infected_poll [OF assms(2) poll]
  show ?thesis
  proof (cases r)
    case (Inl d)
    with poll inf assms(4) show ?thesis by (simp add: cache_Wait_def)
  next
    case (Inr ch)
    with poll have c: "c = w_cache w" "ch = dc_added (w_cache w)" by (auto dest: Wait_poll_cases)
    have "\<exists>d w'. wait_select p (w_now w + timeout) ch (pre @ (te, LogLine line) # es)
        (w\<lparr>w_cache := c\<rparr>) = (Some d, w') \<and> det_Status d = ''infected'' \<and> w_now w' \<le> te"
      by (rule wait_select_hears) (use assms c inf in auto)
    with Inr poll assms(6) show ?thesis by (simp add: cache_Wait_def)
  qed
qed

end
