(* ===== verification/Config.thy ===== *)
theory Config
  imports Go_Strings
begin

text \<open>
  Package \<open>config\<close> (\<open>internal/config/config.go\<close>): the configuration record, its defaults read
  from environment variables, and its validation. The environment is a function \<open>env\<close>
  (\<open>os.Getenv\<close>, empty for an unset variable) and \<open>stat_ok\<close> says whether \<open>os.Stat\<close> succeeds.
\<close>

section \<open>Data\<close>

type_synonym EngineType = string

definition EngineClamAV :: EngineType where
  "EngineClamAV = ''clamav''"

definition EngineTrendMicro :: EngineType where
  "EngineTrendMicro = ''trendmicro''"

definition EngineMock :: EngineType where
  "EngineMock = ''mock''"

lemmas engine_defs = EngineClamAV_def EngineTrendMicro_def EngineMock_def

lemma engines_distinct [simp]:
  "EngineClamAV \<noteq> EngineTrendMicro" "EngineTrendMicro \<noteq> EngineClamAV"
  "EngineClamAV \<noteq> EngineMock" "EngineMock \<noteq> EngineClamAV"
  "EngineTrendMicro \<noteq> EngineMock" "EngineMock \<noteq> EngineTrendMicro"
  by (simp_all add: engine_defs)

record DriverConfig =
  dcfg_Engine :: EngineType
  dcfg_RTSLogPath :: string
  dcfg_ScanBinaryPath :: string
  dcfg_Timeout :: int  \<comment> \<open>milliseconds\<close>

record AuthConfig =
  auth_Enabled :: bool
  auth_K8sAPIEndpoint :: string
  auth_Timeout :: int  \<comment> \<open>milliseconds\<close>
  auth_AllowlistFile :: string
  auth_TokenPath :: string

record Config =
  cfg_Port :: int
  cfg_UploadDir :: string
  cfg_MaxFileSize :: int
  cfg_ActiveEngine :: EngineType
  cfg_LogLevel :: string
  cfg_Drivers :: "EngineType \<rightharpoonup> DriverConfig"
  cfg_Auth :: AuthConfig

datatype ConfigError =
    InvalidActiveEngine EngineType
  | InvalidPort int
  | InvalidMaxFileSize int
  | MissingK8sAPIEndpoint
  | InvalidAuthTimeout int
  | InvalidTokenPath string

section \<open>Environment variables\<close>

definition getEnv :: "(string \<Rightarrow> string) \<Rightarrow> string \<Rightarrow> string \<Rightarrow> string" where
  "getEnv env key defaultValue = (if env key \<noteq> [] then env key else defaultValue)"

definition getEnvInt :: "(string \<Rightarrow> string) \<Rightarrow> string \<Rightarrow> int \<Rightarrow> int" where
  "getEnvInt env key defaultValue =
     (if env key \<noteq> [] then (case Atoi (env key) of Some i \<Rightarrow> i | None \<Rightarrow> defaultValue)
      else defaultValue)"

definition getEnvInt64 :: "(string \<Rightarrow> string) \<Rightarrow> string \<Rightarrow> int \<Rightarrow> int" where
  "getEnvInt64 env key defaultValue =
     (if env key \<noteq> [] then (case ParseInt (env key) of Some i \<Rightarrow> i | None \<Rightarrow> defaultValue)
      else defaultValue)"

definition getEnvBool :: "(string \<Rightarrow> string) \<Rightarrow> string \<Rightarrow> bool \<Rightarrow> bool" where
  "getEnvBool env key defaultValue =
     (if env key \<noteq> [] then env key \<in> {''true'', ''1'', ''yes''} else defaultValue)"

section \<open>Validation and loading\<close>

definition config_Validate :: "(string \<Rightarrow> bool) \<Rightarrow> Config \<Rightarrow> ConfigError option" where
  "config_Validate stat_ok c =
     (if cfg_ActiveEngine c \<noteq> EngineClamAV \<and> cfg_ActiveEngine c \<noteq> EngineTrendMicro
         \<and> cfg_ActiveEngine c \<noteq> EngineMock
      then Some (InvalidActiveEngine (cfg_ActiveEngine c))
      else if cfg_Port c < 1 \<or> cfg_Port c > 65535 then Some (InvalidPort (cfg_Port c))
      else if cfg_MaxFileSize c < 1 then Some (InvalidMaxFileSize (cfg_MaxFileSize c))
      else if auth_Enabled (cfg_Auth c) then
        (if auth_K8sAPIEndpoint (cfg_Auth c) = [] then Some MissingK8sAPIEndpoint
         else if auth_Timeout (cfg_Auth c) < 1
           then Some (InvalidAuthTimeout (auth_Timeout (cfg_Auth c)))
         else if auth_TokenPath (cfg_Auth c) \<noteq> [] \<and> \<not> stat_ok (auth_TokenPath (cfg_Auth c))
           then Some (InvalidTokenPath (auth_TokenPath (cfg_Auth c)))
         else None)
      else None)"

text \<open>The record \<open>Load\<close> builds before it validates it.\<close>

definition config_from_env :: "(string \<Rightarrow> string) \<Rightarrow> Config" where
  "config_from_env env =
     \<lparr>cfg_Port = getEnvInt env ''PORT'' 3000,
      cfg_UploadDir = getEnv env ''UPLOAD_DIR'' ''/tmp/av-scanner'',
      cfg_MaxFileSize = getEnvInt64 env ''MAX_FILE_SIZE'' 104857600,
      cfg_ActiveEngine = getEnv env ''AV_ENGINE'' ''clamav'',
      cfg_LogLevel = getEnv env ''LOG_LEVEL'' ''info'',
      cfg_Drivers =
        [EngineClamAV \<mapsto>
           \<lparr>dcfg_Engine = EngineClamAV,
            dcfg_RTSLogPath = getEnv env ''CLAMAV_RTS_LOG_PATH'' ''/var/log/clamav/clamonacc.log'',
            dcfg_ScanBinaryPath = getEnv env ''CLAMAV_SCAN_BINARY'' ''/usr/bin/clamdscan'',
            dcfg_Timeout = getEnvInt env ''CLAMAV_TIMEOUT'' 15000\<rparr>,
         EngineTrendMicro \<mapsto>
           \<lparr>dcfg_Engine = EngineTrendMicro,
            dcfg_RTSLogPath = getEnv env ''TM_RTS_LOG_PATH'' ''/var/opt/ds_agent/diag/ds_am.log'',
            dcfg_ScanBinaryPath = getEnv env ''TM_SCAN_BINARY'' ''/opt/ds_agent/dsa_scan'',
            dcfg_Timeout = getEnvInt env ''TM_TIMEOUT'' 15000\<rparr>],
      cfg_Auth =
        \<lparr>auth_Enabled = getEnvBool env ''AUTH_ENABLED'' False,
         auth_K8sAPIEndpoint = getEnv env ''K8S_API_ENDPOINT'' [],
         auth_Timeout = getEnvInt env ''K8S_AUTH_TIMEOUT'' 5000,
         auth_AllowlistFile = getEnv env ''AUTH_ALLOWLIST_FILE'' ''/etc/av-scanner/allowlist.yaml'',
         auth_TokenPath = getEnv env ''K8S_AUTH_TOKEN_PATH'' []\<rparr>\<rparr>"

definition Load :: "(string \<Rightarrow> string) \<Rightarrow> (string \<Rightarrow> bool) \<Rightarrow> ConfigError + Config" where
  "Load env stat_ok =
     (let cfg = config_from_env env
      in case config_Validate stat_ok cfg of Some e \<Rightarrow> Inl e | None \<Rightarrow> Inr cfg)"

section \<open>What a loaded configuration guarantees\<close>

definition valid_config :: "(string \<Rightarrow> bool) \<Rightarrow> Config \<Rightarrow> bool" where
  "valid_config stat_ok c \<longleftrightarrow>
     cfg_ActiveEngine c \<in> {EngineClamAV, EngineTrendMicro, EngineMock} \<and>
     1 \<le> cfg_Port c \<and> cfg_Port c \<le> 65535 \<and> 1 \<le> cfg_MaxFileSize c \<and>
     (auth_Enabled (cfg_Auth c) \<longrightarrow>
        auth_K8sAPIEndpoint (cfg_Auth c) \<noteq> [] \<and> 1 \<le> auth_Timeout (cfg_Auth c) \<and>
        (auth_TokenPath (cfg_Auth c) = [] \<or> stat_ok (auth_TokenPath (cfg_Auth c))))"

lemma config_Validate_iff: "config_Validate stat_ok c = None \<longleftrightarrow> valid_config stat_ok c"
  by (auto simp: config_Validate_def valid_config_def)

lemma Load_cases:
  "Load env stat_ok = Inr c \<longleftrightarrow> c = config_from_env env \<and> valid_config stat_ok c"
proof (cases "config_Validate stat_ok (config_from_env env)")
  case None
  then show ?thesis using config_Validate_iff [of stat_ok c] by (auto simp: Load_def)
next
  case (Some e)
  then show ?thesis using config_Validate_iff [of stat_ok c] by (auto simp: Load_def)
qed

lemma getEnvInt_range:
  "MinInt64 \<le> d \<Longrightarrow> d \<le> MaxInt64 \<Longrightarrow>
   MinInt64 \<le> getEnvInt env k d \<and> getEnvInt env k d \<le> MaxInt64"
  by (auto simp: getEnvInt_def Atoi_range split: option.splits)

text \<open>
  C33: \<open>config.Load\<close> succeeds exactly when the environment describes a valid configuration,
  and then returns that configuration: a known engine, a TCP port, a positive size limit, and
  with authentication on an endpoint, a positive timeout and a token path that is empty or that
  \<open>os.Stat\<close> finds (whether the token can be read is not checked); moreover the active engine is the
  mock or has a driver entry of its own.
\<close>

theorem Load_correct:
  "(\<exists>c. Load env stat_ok = Inr c) = valid_config stat_ok (config_from_env env) \<and>
   (\<forall>c. Load env stat_ok = Inr c \<longrightarrow>
      c = config_from_env env \<and> valid_config stat_ok c \<and>
      (cfg_ActiveEngine c \<noteq> EngineMock \<longrightarrow>
         (\<exists>d. cfg_Drivers c (cfg_ActiveEngine c) = Some d \<and> dcfg_Engine d = cfg_ActiveEngine c)))"
proof (intro conjI allI impI)
  show "(\<exists>c. Load env stat_ok = Inr c) = valid_config stat_ok (config_from_env env)"
    by (simp add: Load_cases)
  fix c
  assume "Load env stat_ok = Inr c"
  then have c: "c = config_from_env env" and v: "valid_config stat_ok c"
    unfolding Load_cases by blast+
  show "c = config_from_env env" by (rule c)
  show "valid_config stat_ok c" by (rule v)
  assume "cfg_ActiveEngine c \<noteq> EngineMock"
  with v have "cfg_ActiveEngine c = EngineClamAV \<or> cfg_ActiveEngine c = EngineTrendMicro"
    by (auto simp: valid_config_def)
  moreover have "\<exists>d. cfg_Drivers c EngineClamAV = Some d \<and> dcfg_Engine d = EngineClamAV"
    and "\<exists>d. cfg_Drivers c EngineTrendMicro = Some d \<and> dcfg_Engine d = EngineTrendMicro"
    by (simp_all add: c config_from_env_def)
  ultimately show
    "\<exists>d. cfg_Drivers c (cfg_ActiveEngine c) = Some d \<and> dcfg_Engine d = cfg_ActiveEngine c"
    by auto
qed

text \<open>The configuration an empty environment gives is one where the conclusions hold.\<close>

theorem Load_correct_witness:
  "\<exists>c. Load (\<lambda>_. []) (\<lambda>_. False) = Inr c \<and> cfg_ActiveEngine c = EngineClamAV \<and>
     cfg_Port c = 3000 \<and>
     (\<exists>d. cfg_Drivers c EngineClamAV = Some d \<and> dcfg_Engine d = EngineClamAV)"
proof -
  let ?c = "config_from_env (\<lambda>_. [])"
  have eng: "cfg_ActiveEngine ?c = EngineClamAV" and port: "cfg_Port ?c = 3000"
    by (simp_all add: config_from_env_def getEnv_def getEnvInt_def EngineClamAV_def)
  have "valid_config (\<lambda>_. False) ?c"
    by (simp add: valid_config_def config_from_env_def getEnv_def getEnvInt_def
        getEnvInt64_def getEnvBool_def EngineClamAV_def)
  with Load_correct [of "\<lambda>_. []" "\<lambda>_. False"] obtain c
    where "Load (\<lambda>_. []) (\<lambda>_. False) = Inr c" "c = ?c"
      "cfg_ActiveEngine c \<noteq> EngineMock \<longrightarrow>
        (\<exists>d. cfg_Drivers c (cfg_ActiveEngine c) = Some d \<and> dcfg_Engine d = cfg_ActiveEngine c)"
    by blast
  with eng port show ?thesis by auto
qed

end
