(* ===== verification/Drivers.thy ===== *)
theory Drivers
  imports World Config
begin

text \<open>
  Package \<open>drivers\<close>, the part all engines share: the verdict types of
  \<open>internal/drivers/types.go\<close>, the \<open>Driver\<close> interface as a record of operations on the world,
  \<open>WatchRTS\<close> of \<open>internal/drivers/rts.go\<close>, and the contract \<open>av_driver\<close> of the interface, which
  the scanner relies on and every engine provides.
\<close>

section \<open>Verdicts\<close>

text \<open>\<open>StatusUnset\<close> is the empty string, the zero value of \<open>ScanStatus\<close>.\<close>

datatype ScanStatus = StatusUnset | StatusClean | StatusInfected | StatusError

fun status_string :: "ScanStatus \<Rightarrow> string" where
  "status_string StatusUnset = []"
| "status_string StatusClean = ''clean''"
| "status_string StatusInfected = ''infected''"
| "status_string StatusError = ''error''"

datatype ScanPhase = PhaseRTS | PhaseManual

fun phase_string :: "ScanPhase \<Rightarrow> string" where
  "phase_string PhaseRTS = ''rts''"
| "phase_string PhaseManual = ''manual''"

text \<open>The diagnostic value \<open>Raw\<close>: a map with the log entry, or the command's outcome.\<close>

datatype RawInfo = RawNil | RawLog string | RawCmd int string string

record ScanResult =
  sr_Status :: ScanStatus
  sr_Engine :: EngineType
  sr_Signature :: string
  sr_Phase :: ScanPhase
  sr_FilePath :: string
  sr_FileID :: string
  sr_Timestamp :: gotime
  sr_Duration :: int  \<comment> \<open>milliseconds\<close>
  sr_Raw :: RawInfo

record EngineHealth =
  eh_Engine :: EngineType
  eh_Healthy :: bool
  eh_Version :: string
  eh_LastCheck :: gotime
  eh_Error :: string

record EngineInfo =
  ei_Engine :: EngineType
  ei_Available :: bool
  ei_RTSEnabled :: bool
  ei_ManualScanAvailable :: bool

record WatchOptions =
  wo_Timeout :: duration

datatype ScanErr =
    ErrNoRTSDetection
  | DeadlineExceeded
  | ErrOS OSError
  | ErrExec string

section \<open>The \<open>Driver\<close> interface\<close>

record Driver =
  drv_Engine :: EngineType
  drv_Config :: DriverConfig
  drv_Start :: "World \<Rightarrow> ScanErr option \<times> World"
  drv_Stop :: "World \<Rightarrow> World"
  drv_RTSWatch :: "string \<Rightarrow> WatchOptions \<Rightarrow> World \<Rightarrow> (ScanErr + ScanResult) \<times> World"
  drv_ManualScan :: "string \<Rightarrow> World \<Rightarrow> (ScanErr + ScanResult) \<times> World"
  drv_CheckHealth :: "World \<Rightarrow> ScanErr + EngineHealth"
  drv_GetInfo :: EngineInfo

text \<open>\<open>time.Duration(Timeout) * time.Millisecond\<close>, a product of two \<open>int64\<close>s.\<close>

definition timeout_budget :: "DriverConfig \<Rightarrow> duration" where
  "timeout_budget cfg = wrap64 (dcfg_Timeout cfg * Millisecond)"

definition time_Since :: "gotime \<Rightarrow> World \<Rightarrow> duration" where
  "time_Since start w = w_now w - start"

section \<open>Waiting for the real-time scanner\<close>

definition WatchRTS ::
  "EngineType \<Rightarrow> string \<Rightarrow> WatchOptions \<Rightarrow> World \<Rightarrow> (ScanErr + ScanResult) \<times> World" where
  "WatchRTS engine filePath opts w =
     (let startTime = w_now w;
          absPath = abs_or_same (w_cwd w) filePath
      in case cache_Wait absPath (wo_Timeout opts) w of
           (None, w1) \<Rightarrow> (Inl ErrNoRTSDetection, w1)
         | (Some cached, w1) \<Rightarrow>
             if det_Status cached \<noteq> ''infected'' then (Inl ErrNoRTSDetection, w1)
             else (Inr \<lparr>sr_Status = StatusInfected, sr_Engine = engine,
                        sr_Signature = det_Signature cached, sr_Phase = PhaseRTS,
                        sr_FilePath = filePath, sr_FileID = Base filePath,
                        sr_Timestamp = w_now w1,
                        sr_Duration = Milliseconds (time_Since startTime w1),
                        sr_Raw = RawLog (det_Raw cached)\<rparr>, w1))"

section \<open>The background watcher of the two log-reading engines\<close>

text \<open>
  The body of \<open>watchLog\<close>'s loop around an engine's \<open>processLogLine\<close>: nil and errors are skipped.
\<close>

fun watch_line ::
  "(string \<Rightarrow> string \<Rightarrow> gotime \<Rightarrow> DetectionCache \<Rightarrow> DetectionCache) \<Rightarrow>
   string \<Rightarrow> TailLine \<Rightarrow> gotime \<Rightarrow> DetectionCache \<Rightarrow> DetectionCache" where
  "watch_line process cwd NilLine now c = c"
| "watch_line process cwd (LineErr e) now c = c"
| "watch_line process cwd (LineText line) now c = process cwd line now c"

text \<open>
  What the \<open>Start\<close> of either engine does: with an accessible log the watcher goroutine begins; it
  gives up at once when the tailer cannot open the file.
\<close>

definition start_watcher ::
  "string \<Rightarrow> (string \<Rightarrow> TailLine \<Rightarrow> gotime \<Rightarrow> DetectionCache \<Rightarrow> DetectionCache) \<Rightarrow>
   World \<Rightarrow> ScanErr option \<times> World" where
  "start_watcher logPath watchLog w =
     (if os_Stat logPath w \<noteq> None then (None, w)
      else if w_denied w (resolve w logPath) then (None, w)
      else (None, w\<lparr>w_watcher := Some watchLog\<rparr>))"

definition stop_watcher :: "World \<Rightarrow> World" where
  "stop_watcher w = w\<lparr>w_watcher := None\<rparr>"

section \<open>The contract of a driver\<close>

text \<open>
  What a scan may do to the world: time passes, files vanish, detections come and go; nothing else.
\<close>

definition scan_effect :: "World \<Rightarrow> World \<Rightarrow> bool" where
  "scan_effect w w' \<longleftrightarrow> same_setup w w' \<and> w_now w \<le> w_now w' \<and>
     (\<forall>p. w_files w p = None \<longrightarrow> w_files w' p = None) \<and> (world_ok w \<longrightarrow> cache_kept w w')"

lemma scan_effect_refl [simp]: "scan_effect w w"
  by (simp add: scan_effect_def)

lemma scan_effect_trans: "scan_effect a b \<Longrightarrow> scan_effect b c \<Longrightarrow> scan_effect a c"
  using same_setup_ok [of a b]
  by (auto simp: scan_effect_def intro: same_setup_trans cache_kept_trans)

lemma scan_effect_ok: "scan_effect w w' \<Longrightarrow> world_ok w' = world_ok w"
  by (simp add: scan_effect_def same_setup_ok)

locale av_driver =
  fixes d :: Driver
  assumes manual_verdict: "drv_ManualScan d p w = (Inr r, w') \<Longrightarrow>
      sr_Status r \<noteq> StatusUnset \<and> sr_Phase r = PhaseManual \<and> sr_Engine r = drv_Engine d"
    and manual_effect: "drv_ManualScan d p w = (x, w') \<Longrightarrow> scan_effect w w'"
    and manual_time: "drv_ManualScan d p w = (x, w') \<Longrightarrow> pipes_released n w \<Longrightarrow>
      w_now w' \<le> w_now w + max n (max 0 (timeout_budget (drv_Config d)))"
    and rts_verdict: "drv_RTSWatch d p opts w = (Inr r, w') \<Longrightarrow>
      sr_Status r = StatusInfected \<and> sr_Phase r = PhaseRTS \<and> sr_Engine r = drv_Engine d"
    and rts_effect: "world_ok w \<Longrightarrow> 0 \<le> wo_Timeout opts \<Longrightarrow> drv_RTSWatch d p opts w = (x, w') \<Longrightarrow>
      scan_effect w w' \<and> w_now w' \<le> w_now w + wo_Timeout opts"
    and start_ok: "world_ok w \<Longrightarrow> world_ok (snd (drv_Start d w)) \<and> fst (drv_Start d w) = None"
    and stop_ok: "world_ok w \<Longrightarrow> world_ok (drv_Stop d w)"
    and health_engine: "drv_CheckHealth d w = Inr h \<Longrightarrow> eh_Engine h = drv_Engine d"
    and info_engine: "ei_Engine (drv_GetInfo d) = drv_Engine d"
begin

text \<open>A real-time result is never clean, and a manual scan followed by a wait keeps the budget.\<close>

lemma rts_never_clean: "fst (drv_RTSWatch d p opts w) = Inr r \<Longrightarrow> sr_Status r \<noteq> StatusClean"
  using rts_verdict [of p opts w r "snd (drv_RTSWatch d p opts w)"] by (auto simp: prod_eq_iff)

lemma manual_then_rts:
  assumes "world_ok w" "pipes_released n w" "drv_ManualScan d p w = (x, w1)"
    and "drv_RTSWatch d p \<lparr>wo_Timeout = max 0 (w_now w + timeout_budget (drv_Config d) - w_now w1)\<rparr> w1
      = (y, w2)"
  shows "scan_effect w w2 \<and> w_now w2 \<le> w_now w + max n (max 0 (timeout_budget (drv_Config d)))"
proof -
  have 1: "scan_effect w w1" "w_now w1 \<le> w_now w + max n (max 0 (timeout_budget (drv_Config d)))"
    using manual_effect [OF assms(3)] manual_time [OF assms(3,2)] by blast+
  with assms(1) have "world_ok w1" by (simp add: scan_effect_ok)
  from rts_effect [OF this _ assms(4)]
  have "scan_effect w1 w2"
    "w_now w2 \<le> w_now w1 + max 0 (w_now w + timeout_budget (drv_Config d) - w_now w1)"
    by auto
  with 1 show ?thesis by (auto intro: scan_effect_trans)
qed

end

section \<open>The shared operations keep the contract\<close>

lemma WatchRTS_verdict:
  "WatchRTS engine p opts w = (Inr r, w') \<Longrightarrow>
   sr_Status r = StatusInfected \<and> sr_Phase r = PhaseRTS \<and> sr_Engine r = engine"
  by (auto simp: WatchRTS_def Let_def split: prod.splits option.splits if_splits)

lemma WatchRTS_effect:
  assumes "world_ok w" "0 \<le> wo_Timeout opts" "WatchRTS engine p opts w = (x, w')"
  shows "scan_effect w w' \<and> w_now w' \<le> w_now w + wo_Timeout opts"
proof -
  obtain r w1 where "cache_Wait (abs_or_same (w_cwd w) p) (wo_Timeout opts) w = (r, w1)"
    by fastforce
  moreover from this assms(3) have "w' = w1"
    by (auto simp: WatchRTS_def Let_def split: option.splits if_splits)
  ultimately show ?thesis
    using cache_Wait_spec [OF assms(1,2)] cache_Wait_kept [OF assms(1)]
    by (simp add: scan_effect_def)
qed

lemma watch_line_watcher:
  assumes "\<And>cwd line now c. process cwd line now c = c \<or>
    (\<exists>p d. det_Status d = ''infected'' \<and> process cwd line now c = cache_Add p d now c)"
  shows "log_watcher (watch_line process)"
proof
  fix cwd line now c
  show "watch_line process cwd line now c = c \<or>
    (\<exists>p d. det_Status d = ''infected'' \<and> watch_line process cwd line now c = cache_Add p d now c)"
    using assms by (cases line) auto
qed

lemma start_watcher_ok:
  "log_watcher watchLog \<Longrightarrow> world_ok w \<Longrightarrow>
   world_ok (snd (start_watcher logPath watchLog w)) \<and> fst (start_watcher logPath watchLog w) = None"
  by (simp add: start_watcher_def world_ok_def)

lemma stop_watcher_ok: "world_ok (stop_watcher w)"
  by (simp add: stop_watcher_def world_ok_def)

lemma run_command_effect:
  "run_command bin args timeout w = (r, w') \<Longrightarrow> scan_effect w w'"
  using run_command_frame [of bin args timeout w r w'] run_command_kept [of w bin args timeout r w']
  by (simp add: scan_effect_def)

end
