(* ===== verification/Go_Regexp.thy ===== *)
theory Go_Regexp
  imports Go_Strings
begin

text \<open>
  The fragment of Go's \<open>regexp\<close> package the program uses: a pattern is a sequence of
  literals, greedy repetitions of one character class (captured or not) and the end of the
  text. Matching is leftmost-first as in RE2: the first start position that matches wins, and
  at that position each repetition prefers the longest run. The classes are applied to bytes:
  every class of the patterns treats all bytes above ASCII alike and every literal is ASCII,
  so matching by bytes and by UTF-8 runes agree.
\<close>

section \<open>Patterns and the matcher\<close>

datatype rx =
    Lit string
  | Rep bool nat "char \<Rightarrow> bool"  \<comment> \<open>captured?, least number of repetitions, class\<close>
  | EndText

text \<open>All ways to match one item at the head of the text, in the order of preference.\<close>

fun step_rx :: "rx \<Rightarrow> string \<Rightarrow> (string list \<times> string) list" where
  "step_rx (Lit l) s = (if HasPrefix s l then [([], drop (length l) s)] else [])"
| "step_rx (Rep cap m p) s =
     map (\<lambda>k. (if cap then [take k s] else [], drop k s))
       (rev [m..<Suc (length (takeWhile p s))])"
| "step_rx EndText s = (if s = [] then [([], s)] else [])"

fun first_some :: "('a \<Rightarrow> 'b option) \<Rightarrow> 'a list \<Rightarrow> 'b option" where
  "first_some f [] = None"
| "first_some f (x # xs) = (case f x of None \<Rightarrow> first_some f xs | Some y \<Rightarrow> Some y)"

fun match_here :: "rx list \<Rightarrow> string \<Rightarrow> (string list \<times> string) option" where
  "match_here [] s = Some ([], s)"
| "match_here (r # rs) s =
     first_some (\<lambda>(caps, t). map_option (\<lambda>(caps', u). (caps @ caps', u)) (match_here rs t))
       (step_rx r s)"

text \<open>The whole match first, then the captured groups, as \<open>FindStringSubmatch\<close> returns them.\<close>

fun FindStringSubmatch :: "rx list \<Rightarrow> string \<Rightarrow> string list option" where
  "FindStringSubmatch rs [] =
     (case match_here rs [] of Some (caps, u) \<Rightarrow> Some ([] # caps) | None \<Rightarrow> None)"
| "FindStringSubmatch rs (c # cs) =
     (case match_here rs (c # cs) of
        Some (caps, u) \<Rightarrow> Some (take (length (c # cs) - length u) (c # cs) # caps)
      | None \<Rightarrow> FindStringSubmatch rs cs)"

definition rx_dot :: "char \<Rightarrow> bool" where
  "rx_dot c \<longleftrightarrow> c \<noteq> CHR 0x0A"

definition rx_space :: "char \<Rightarrow> bool" where
  "rx_space c \<longleftrightarrow> c \<in> {CHR 0x09, CHR 0x0A, CHR 0x0C, CHR 0x0D, CHR 0x20}"

section \<open>What a match is\<close>

text \<open>The declarative meaning: the pattern matches a prefix of the text, leaving a rest.\<close>

inductive rx_matches :: "rx list \<Rightarrow> string \<Rightarrow> string list \<Rightarrow> string \<Rightarrow> bool" where
  m_nil: "rx_matches [] s [] s"
| m_lit: "rx_matches rs t caps u \<Longrightarrow> rx_matches (Lit l # rs) (l @ t) caps u"
| m_rep: "rx_matches rs t caps u \<Longrightarrow> list_all p w \<Longrightarrow> m \<le> length w \<Longrightarrow>
    rx_matches (Rep cap m p # rs) (w @ t) ((if cap then [w] else []) @ caps) u"
| m_end: "rx_matches rs [] caps u \<Longrightarrow> rx_matches (EndText # rs) [] caps u"

inductive_cases rx_matches_nilE: "rx_matches [] s caps u"
inductive_cases rx_matches_litE: "rx_matches (Lit l # rs) s caps u"
inductive_cases rx_matches_repE: "rx_matches (Rep cap m p # rs) s caps u"
inductive_cases rx_matches_endE: "rx_matches (EndText # rs) s caps u"

lemmas rx_matches_elims =
  rx_matches_nilE rx_matches_litE rx_matches_repE rx_matches_endE

inductive_simps rx_matches_nil: "rx_matches [] s caps u"
inductive_simps rx_matches_end: "rx_matches (EndText # rs) s caps u"

lemma first_some_Some: "first_some f xs = Some y \<Longrightarrow> \<exists>x\<in>set xs. f x = Some y"
  by (induction xs) (auto split: option.splits)

lemma first_some_None: "first_some f xs = None \<longleftrightarrow> (\<forall>x\<in>set xs. f x = None)"
  by (induction xs) (auto split: option.splits)

lemma step_rx_sound:
  assumes "(caps, t) \<in> set (step_rx r s)" and "rx_matches rs t caps' u"
  shows "rx_matches (r # rs) s (caps @ caps') u"
proof (cases r)
  case (Lit l)
  with assms show ?thesis
    by (auto split: if_splits dest!: HasPrefix_split intro: m_lit)
      (metis HasPrefix_split m_lit)
next
  case (Rep cap m p)
  with assms(1) obtain k where k: "m \<le> k" "k \<le> length (takeWhile p s)"
    and eq: "caps = (if cap then [take k s] else [])" "t = drop k s"
    by auto
  have "list_all p (take k s)"
    using k(2) by (metis list_all_iff set_take_subset_set_take set_takeWhileD subset_iff
        take_all_iff takeWhile_eq_take)
  moreover have "m \<le> length (take k s)"
    using k by (metis le_trans length_take length_takeWhile_le min.absorb2)
  ultimately have "rx_matches (Rep cap m p # rs) (take k s @ drop k s)
      ((if cap then [take k s] else []) @ caps') u"
    using assms(2) eq(2) by (intro m_rep) auto
  then show ?thesis using Rep eq by simp
next
  case EndText
  with assms show ?thesis by (auto split: if_splits intro: m_end)
qed

lemma match_here_sound: "match_here rs s = Some (caps, u) \<Longrightarrow> rx_matches rs s caps u"
proof (induction rs arbitrary: s caps u)
  case Nil
  then show ?case by (auto intro: m_nil)
next
  case (Cons r rs)
  then obtain c t where "(c, t) \<in> set (step_rx r s)"
    and "map_option (\<lambda>(caps', u). (c @ caps', u)) (match_here rs t) = Some (caps, u)"
    by (force dest: first_some_Some)
  then obtain caps' where "(c, t) \<in> set (step_rx r s)" "match_here rs t = Some (caps', u)"
    "caps = c @ caps'"
    by (auto simp: map_option_case split: option.splits)
  then show ?case using Cons.IH step_rx_sound by blast
qed

lemma match_here_complete: "rx_matches rs s caps u \<Longrightarrow> match_here rs s \<noteq> None"
proof (induction rule: rx_matches.induct)
  case (m_rep rs t caps u p w m cap)
  have "takeWhile p (w @ t) = w @ takeWhile p t"
    using m_rep.hyps(2) by (simp add: list_all_iff)
  then have "length w \<in> set [m..<Suc (length (takeWhile p (w @ t)))]"
    using m_rep.hyps(3) by simp
  moreover have "match_here rs (drop (length w) (w @ t)) \<noteq> None" using m_rep.IH by simp
  ultimately show ?case
    unfolding match_here.simps step_rx.simps first_some_None
    by (auto intro!: bexI [of _ "length w"])
qed (auto simp: first_some_None)

text \<open>
  The search finds a match exactly when some suffix of the text has one: the executable
  matcher implements the declarative one.
\<close>

lemma FindStringSubmatch_None:
  "FindStringSubmatch rs s = None \<longleftrightarrow> (\<forall>a b caps u. s = a @ b \<longrightarrow> \<not> rx_matches rs b caps u)"
proof (induction rs s rule: FindStringSubmatch.induct)
  case (1 rs)
  show ?case
    using match_here_sound match_here_complete by (fastforce split: option.splits)
next
  case (2 rs c cs)
  have split: "(\<forall>a b caps u. c # cs = a @ b \<longrightarrow> \<not> rx_matches rs b caps u) \<longleftrightarrow>
      (\<forall>caps u. \<not> rx_matches rs (c # cs) caps u) \<and>
      (\<forall>a b caps u. cs = a @ b \<longrightarrow> \<not> rx_matches rs b caps u)"
    by (metis Cons_eq_append_conv)
  have here: "match_here rs (c # cs) = None \<longleftrightarrow> (\<forall>caps u. \<not> rx_matches rs (c # cs) caps u)"
    using match_here_sound match_here_complete by (metis option.exhaust surj_pair)
  show ?case
  proof (cases "match_here rs (c # cs)")
    case None
    with 2 split here show ?thesis by simp
  next
    case (Some a)
    with split here show ?thesis by (auto split: prod.splits)
  qed
qed

lemma FindStringSubmatch_Some:
  "FindStringSubmatch rs s = Some ms \<Longrightarrow>
   \<exists>m caps a b u. ms = m # caps \<and> s = a @ b \<and> rx_matches rs b caps u"
proof (induction rs s rule: FindStringSubmatch.induct)
  case (1 rs)
  then show ?case by (auto dest: match_here_sound split: option.splits)
next
  case (2 rs c cs)
  show ?case
  proof (cases "match_here rs (c # cs)")
    case None
    with 2 obtain m caps a b u where "ms = m # caps \<and> cs = a @ b \<and> rx_matches rs b caps u" by auto
    then show ?thesis by (metis append_Cons)
  next
    case (Some y)
    obtain caps u where y: "y = (caps, u)" by fastforce
    with Some 2 have "ms = take (length (c # cs) - length u) (c # cs) # caps"
      by (simp del: match_here.simps)
    with match_here_sound [OF Some [unfolded y]] show ?thesis by (metis append_Nil)
  qed
qed

section \<open>Deterministic patterns\<close>

text \<open>
  A greedy repetition takes the longest run from which the rest of the pattern matches:
  \<open>k\<close> characters when the rest matches there and nowhere further.
\<close>

lemma first_some_rev_upt:
  assumes "m \<le> k" "k < n" and "f k = Some y" and "\<And>j. k < j \<Longrightarrow> j < n \<Longrightarrow> f j = None"
  shows "first_some f (rev [m..<n]) = Some y"
  using assms
proof (induction n)
  case 0
  then show ?case by simp
next
  case (Suc n)
  show ?case
  proof (cases "k = n")
    case True
    with Suc.prems show ?thesis by simp
  next
    case False
    with Suc.prems have "f n = None" "m \<le> n" "k < n" by auto
    with Suc show ?thesis by simp
  qed
qed

lemma first_some_map: "first_some f (map g xs) = first_some (\<lambda>x. f (g x)) xs"
  by (induction xs) (auto split: option.splits)

lemma match_here_rep:
  assumes w: "list_all p w" "m \<le> length w"
    and rest: "match_here rs t = Some (caps, u)"
    and greedy: "\<And>k. length w < k \<Longrightarrow> k \<le> length (takeWhile p (w @ t)) \<Longrightarrow>
      match_here rs (drop k (w @ t)) = None"
  shows "match_here (Rep cap m p # rs) (w @ t) = Some ((if cap then [w] else []) @ caps, u)"
proof -
  have len: "length w \<le> length (takeWhile p (w @ t))"
    using w(1) by (simp add: list_all_iff)
  show ?thesis
    unfolding match_here.simps step_rx.simps first_some_map
    by (rule first_some_rev_upt [where k = "length w"])
       (use w len rest greedy in \<open>auto\<close>)
qed

lemma match_here_rep_max:
  assumes "list_all p w" "m \<le> length w" "match_here rs t = Some (caps, u)"
    and "t = [] \<or> \<not> p (hd t)"
  shows "match_here (Rep cap m p # rs) (w @ t) = Some ((if cap then [w] else []) @ caps, u)"
proof (rule match_here_rep [OF assms(1-3)])
  fix k
  assume "length w < k" "k \<le> length (takeWhile p (w @ t))"
  moreover have "takeWhile p (w @ t) = w"
    using assms(1,4) by (cases t) (auto simp: list_all_iff takeWhile_append2)
  ultimately show "match_here rs (drop k (w @ t)) = None" by simp
qed

lemma match_here_lit:
  "match_here rs t = Some (caps, u) \<Longrightarrow> match_here (Lit l # rs) (l @ t) = Some (caps, u)"
  by simp

lemma match_here_lit_None: "\<not> HasPrefix s l \<Longrightarrow> match_here (Lit l # rs) s = None"
  by simp

lemma FindStringSubmatch_here:
  "match_here rs s = Some (caps, u) \<Longrightarrow>
   FindStringSubmatch rs s = Some (take (length s - length u) s # caps)"
  by (cases s) auto

lemma FindStringSubmatch_skip:
  assumes "\<And>b. b \<noteq> [] \<Longrightarrow> (\<exists>a. pre = a @ b) \<Longrightarrow> match_here rs (b @ s) = None"
  shows "FindStringSubmatch rs (pre @ s) = FindStringSubmatch rs s"
  using assms
proof (induction pre)
  case Nil
  then show ?case by simp
next
  case (Cons c pre)
  have "match_here rs (c # pre @ s) = None"
    using Cons.prems [of "c # pre"] by auto
  moreover have "FindStringSubmatch rs (pre @ s) = FindStringSubmatch rs s"
    by (rule Cons.IH) (metis Cons.prems append_Cons)
  ultimately show ?case by simp
qed

end
