(* ===== verification/Clamav.thy ===== *)
theory Clamav
  imports Drivers Go_Regexp
begin

text \<open>
  The ClamAV engine (\<open>internal/drivers/clamav.go\<close>): the log line pattern, the log watcher, the
  manual scan with \<open>clamdscan\<close>, and the driver as a value of the \<open>Driver\<close> interface.
\<close>

section \<open>Definitions\<close>

text \<open>The pattern \<open>(.+):\s+(.+)\s+FOUND$\<close>.\<close>

definition clamavFoundRegex :: "rx list" where
  "clamavFoundRegex =
     [Rep True 1 rx_dot, Lit '':'', Rep False 1 rx_space, Rep True 1 rx_dot,
      Rep False 1 rx_space, Lit ''FOUND'', EndText]"

definition clamav_processLogLine ::
  "string \<Rightarrow> string \<Rightarrow> gotime \<Rightarrow> DetectionCache \<Rightarrow> DetectionCache" where
  "clamav_processLogLine cwd line now c =
     (case FindStringSubmatch clamavFoundRegex line of
        None \<Rightarrow> c
      | Some matches \<Rightarrow>
          cache_Add (abs_or_same cwd (matches ! 1))
            \<lparr>det_FilePath = matches ! 1, det_Status = ''infected'', det_Signature = matches ! 2,
             det_Raw = line, det_Timestamp = 0\<rparr> now c)"

text \<open>The verdict from the exit code and the trimmed standard output.\<close>

definition clamav_verdict :: "int \<Rightarrow> string \<Rightarrow> ScanStatus \<times> string" where
  "clamav_verdict exitCode output =
     (case FindStringSubmatch clamavFoundRegex output of
        Some matches \<Rightarrow> (StatusInfected, matches ! 2)
      | None \<Rightarrow>
          if exitCode = 0 then (StatusClean, [])
          else if exitCode = 1 then (StatusInfected, [])
          else (StatusError, []))"

definition clamav_args :: "string \<Rightarrow> string list" where
  "clamav_args filePath = [''--fdpass'', ''--stdout'', ''--no-summary'', filePath]"

definition clamav_ManualScan ::
  "DriverConfig \<Rightarrow> string \<Rightarrow> World \<Rightarrow> (ScanErr + ScanResult) \<times> World" where
  "clamav_ManualScan cfg filePath w =
     (let startTime = w_now w;
          fileID = Base filePath
      in case run_command (dcfg_ScanBinaryPath cfg) (clamav_args filePath) (timeout_budget cfg) w of
           (CmdDeadlineExceeded, w1) \<Rightarrow> (Inl DeadlineExceeded, w1)
         | (CmdError e, w1) \<Rightarrow> (Inl (ErrExec e), w1)
         | (CmdExit exitCode stdout stderr, w1) \<Rightarrow>
             (let output = TrimSpace stdout;
                  v = clamav_verdict exitCode output
              in (Inr \<lparr>sr_Status = fst v, sr_Engine = EngineClamAV, sr_Signature = snd v,
                       sr_Phase = PhaseManual, sr_FilePath = filePath, sr_FileID = fileID,
                       sr_Timestamp = w_now w1,
                       sr_Duration = Milliseconds (time_Since startTime w1),
                       sr_Raw = RawCmd exitCode output stderr\<rparr>, w1)))"

text \<open>The loop of \<open>watchLog\<close>, and \<open>Start\<close>, which runs it in a goroutine.\<close>

definition clamav_watchLog :: "string \<Rightarrow> TailLine \<Rightarrow> gotime \<Rightarrow> DetectionCache \<Rightarrow> DetectionCache" where
  "clamav_watchLog = watch_line clamav_processLogLine"

definition clamav_Start :: "DriverConfig \<Rightarrow> World \<Rightarrow> ScanErr option \<times> World" where
  "clamav_Start cfg w = start_watcher (dcfg_RTSLogPath cfg) clamav_watchLog w"

definition clamav_Stop :: "World \<Rightarrow> World" where
  "clamav_Stop w = stop_watcher w"

definition clamav_RTSWatch ::
  "string \<Rightarrow> WatchOptions \<Rightarrow> World \<Rightarrow> (ScanErr + ScanResult) \<times> World" where
  "clamav_RTSWatch filePath opts w = WatchRTS EngineClamAV filePath opts w"

definition clamav_CheckHealth :: "DriverConfig \<Rightarrow> World \<Rightarrow> ScanErr + EngineHealth" where
  "clamav_CheckHealth cfg w =
     (let health = \<lparr>eh_Engine = EngineClamAV, eh_Healthy = False, eh_Version = [],
                    eh_LastCheck = w_now w, eh_Error = []\<rparr>
      in if os_Stat (dcfg_RTSLogPath cfg) w \<noteq> None
         then Inr (health\<lparr>eh_Healthy := False,
                          eh_Error := ''RTS log not accessible: '' @ dcfg_RTSLogPath cfg\<rparr>)
         else Inr (health\<lparr>eh_Healthy := True\<rparr>))"

definition clamav_GetInfo :: EngineInfo where
  "clamav_GetInfo = \<lparr>ei_Engine = EngineClamAV, ei_Available = True, ei_RTSEnabled = True,
                     ei_ManualScanAvailable = True\<rparr>"

definition NewClamAVDriver :: "DriverConfig \<Rightarrow> Driver" where
  "NewClamAVDriver cfg =
     \<lparr>drv_Engine = EngineClamAV, drv_Config = cfg,
      drv_Start = clamav_Start cfg, drv_Stop = clamav_Stop,
      drv_RTSWatch = clamav_RTSWatch, drv_ManualScan = clamav_ManualScan cfg,
      drv_CheckHealth = clamav_CheckHealth cfg, drv_GetInfo = clamav_GetInfo\<rparr>"

lemmas clamav_driver_defs = NewClamAVDriver_def clamav_Start_def clamav_Stop_def clamav_RTSWatch_def
  clamav_CheckHealth_def clamav_GetInfo_def clamav_watchLog_def

section \<open>The contracts\<close>

interpretation clamav_log: log_watcher "watch_line clamav_processLogLine"
proof (rule watch_line_watcher)
  fix cwd line now c
  show "clamav_processLogLine cwd line now c = c \<or>
    (\<exists>p d. det_Status d = ''infected'' \<and> clamav_processLogLine cwd line now c = cache_Add p d now c)"
    unfolding clamav_processLogLine_def
    by (cases "FindStringSubmatch clamavFoundRegex line") (auto intro!: exI)
qed

interpretation clamav: av_driver "NewClamAVDriver cfg" for cfg
proof
  fix p w r w'
  assume "drv_ManualScan (NewClamAVDriver cfg) p w = (Inr r, w')"
  then show "sr_Status r \<noteq> StatusUnset \<and> sr_Phase r = PhaseManual \<and>
      sr_Engine r = drv_Engine (NewClamAVDriver cfg)"
    by (auto simp: clamav_driver_defs clamav_ManualScan_def clamav_verdict_def Let_def
        split: prod.splits CmdResult.splits option.splits if_splits)
next
  fix p w x w' n
  assume "drv_ManualScan (NewClamAVDriver cfg) p w = (x, w')"
  then obtain r where run:
    "run_command (dcfg_ScanBinaryPath cfg) (clamav_args p) (timeout_budget cfg) w = (r, w')"
    by (auto simp: clamav_driver_defs clamav_ManualScan_def Let_def
        split: prod.splits CmdResult.splits)
  show "scan_effect w w'" by (rule run_command_effect [OF run])
  assume "pipes_released n w"
  from run_command_frame(3) [OF run this]
  show "w_now w' \<le> w_now w + max n (max 0 (timeout_budget (drv_Config (NewClamAVDriver cfg))))"
    by (simp add: clamav_driver_defs)
qed (auto simp: clamav_driver_defs WatchRTS_verdict start_watcher_ok clamav_log.log_watcher_axioms
    stop_watcher_ok Let_def dest: WatchRTS_effect split: if_splits)

section \<open>The log line pattern\<close>

lemma clamav_tail_match:
  assumes "sig \<noteq> []" "\<And>c. c \<in> set sig \<Longrightarrow> \<not> rx_space c"
  shows "match_here [Rep True 1 rx_dot, Rep False 1 rx_space, Lit ''FOUND'', EndText]
    (sig @ '' FOUND'') = Some ([sig], [])"
proof -
  have space: "match_here [Rep False 1 rx_space, Lit ''FOUND'', EndText] '' FOUND'' = Some ([], [])"
    by (simp add: rx_space_def)
  have dot: "list_all rx_dot sig"
    using assms(2) by (auto simp: list_all_iff rx_space_def rx_dot_def)
  show ?thesis
  proof (subst match_here_rep [OF dot _ space])
    fix k
    assume "length sig < k"
    then have "drop k (sig @ '' FOUND'') = drop (k - length sig) '' FOUND''" by simp
    moreover obtain j where "k - length sig = Suc j"
      using \<open>length sig < k\<close> by (metis Suc_diff_Suc)
    ultimately have eq: "drop k (sig @ '' FOUND'') = drop j ''FOUND''" by simp
    have "takeWhile rx_space (drop j ''FOUND'') = []"
      by (cases "j < 5") (auto simp: less_Suc_eq numeral_eq_Suc rx_space_def)
    then show "match_here [Rep False 1 rx_space, Lit ''FOUND'', EndText] (drop k (sig @ '' FOUND''))
        = None"
      unfolding eq match_here.simps(2) [of "Rep False 1 rx_space"] step_rx.simps by simp
  qed (use assms(1) in \<open>auto simp: Suc_le_eq\<close>)
qed

lemma clamav_line_match:
  assumes "path \<noteq> []" "CHR 0x0A \<notin> set path" "sig \<noteq> []"
    and sig: "\<And>c. c \<in> set sig \<Longrightarrow> \<not> rx_space c \<and> c \<noteq> CHR '':''"
  shows "\<exists>m. FindStringSubmatch clamavFoundRegex (path @ '': '' @ sig @ '' FOUND'') =
    Some [m, path, sig]"
proof -
  let ?rest = "[Lit '':'', Rep False 1 rx_space, Rep True 1 rx_dot, Rep False 1 rx_space,
      Lit ''FOUND'', EndText]"
  let ?t = "'': '' @ sig @ '' FOUND''"
  have tail: "match_here (tl (tl ?rest)) (sig @ '' FOUND'') = Some ([sig], [])"
    using clamav_tail_match [of sig] assms(3) sig by (simp del: match_here.simps)
  have "match_here (Rep False 1 rx_space # tl (tl ?rest)) ('' '' @ (sig @ '' FOUND''))
      = Some ((if False then ['' ''] else []) @ [sig], [])"
    by (rule match_here_rep_max [OF _ _ tail]) (use assms(3) sig in \<open>auto simp: rx_space_def hd_append\<close>)
  then have "match_here (Rep False 1 rx_space # tl (tl ?rest)) ('' '' @ sig @ '' FOUND'')
      = Some ([sig], [])" by (simp del: match_here.simps)
  from match_here_lit [OF this, of "'':''"] have rest: "match_here ?rest ?t = Some ([sig], [])"
    by (simp del: match_here.simps)
  have "match_here (Rep True 1 rx_dot # ?rest) (path @ ?t)
      = Some ((if True then [path] else []) @ [sig], [])"
  proof (rule match_here_rep [OF _ _ rest])
    show "list_all rx_dot path" using assms(2) by (auto simp: list_all_iff rx_dot_def)
    fix k
    assume k: "length path < k"
    then obtain j where j: "k - length path = Suc j" by (metis Suc_diff_Suc)
    with k have drop: "drop k (path @ ?t) = drop j ('' '' @ sig @ '' FOUND'')" by simp
    have "\<not> HasPrefix (drop j ('' '' @ sig @ '' FOUND'')) '':''"
    proof
      assume "HasPrefix (drop j ('' '' @ sig @ '' FOUND'')) '':''"
      then have "CHR '':'' \<in> set (drop j ('' '' @ sig @ '' FOUND''))"
        by (auto simp: HasPrefix_iff)
      then have "CHR '':'' \<in> set ('' '' @ sig @ '' FOUND'')" by (rule in_set_dropD)
      with sig show False by auto
    qed
    then show "match_here ?rest (drop k (path @ ?t)) = None"
      unfolding drop by (rule match_here_lit_None)
  qed (use assms(1) in \<open>auto simp: Suc_le_eq\<close>)
  then have "match_here clamavFoundRegex (path @ ?t) = Some ([path, sig], [])"
    by (simp add: clamavFoundRegex_def del: match_here.simps)
  then show ?thesis by (auto dest: FindStringSubmatch_here)
qed

section \<open>The manual scan\<close>

text \<open>
  C6: a ClamAV manual scan says clean exactly when the scanner was run on this file with the
  file's path as its last argument, exited with code 0 and released its output before the timeout,
  and its trimmed output does not report a signature. A timeout, a failed start and every other exit code never do.
\<close>

theorem clamav_clean_iff:
  "(\<exists>r w'. clamav_ManualScan cfg p w = (Inr r, w') \<and> sr_Status r = StatusClean) \<longleftrightarrow>
   (\<exists>dur out err held. w_exec w (dcfg_ScanBinaryPath cfg) [''--fdpass'', ''--stdout'', ''--no-summary'', p]
        (w_files w) = Exits dur 0 out err held \<and>
      0 < timeout_budget cfg \<and> dur < timeout_budget cfg \<and> held < timeout_budget cfg \<and>
      FindStringSubmatch clamavFoundRegex (TrimSpace out) = None)"
  by (auto simp: clamav_ManualScan_def run_command_def clamav_args_def clamav_verdict_def Let_def
      split: if_splits ExecRun.splits option.splits)

section \<open>End to end: from the log to the verdict\<close>

lemma clamav_reports:
  assumes "IsAbs cwd" "CHR 0x0A \<notin> set (Abs cwd p)" "sig \<noteq> []"
    and "\<And>c. c \<in> set sig \<Longrightarrow> \<not> rx_space c \<and> c \<noteq> CHR '':''"
  shows "\<exists>d. det_Status d = ''infected'' \<and> det_Signature d = sig \<and>
    watch_line clamav_processLogLine cwd (LineText (Abs cwd p @ '': '' @ sig @ '' FOUND'')) now c =
      cache_Add (Abs cwd p) d now c"
proof -
  have "Abs cwd p \<noteq> []" using Abs_absolute [OF assms(1)] by (simp add: IsAbs_iff)
  from clamav_line_match [OF this assms(2-4)] obtain m where
    "FindStringSubmatch clamavFoundRegex (Abs cwd p @ '': '' @ sig @ '' FOUND'') = Some [m, Abs cwd p, sig]"
    by blast
  then show ?thesis
    using assms(1)
    by (auto simp: clamav_processLogLine_def abs_or_same_Abs Abs_idem intro!: exI)
qed

text \<open>
  Whenever ClamAV's log watcher runs and reads, before the deadline of a real-time watch, the line
  "path: signature FOUND" for the watched file, the watch returns an infected result, no later
  than the moment the line is read, whatever else is logged, quarantined, cleaned up or taken
  before that line.
\<close>

lemma clamav_rts_detects:
  assumes "w_watcher w = Some (watch_line clamav_processLogLine)" and "cache_infected (w_cache w)"
    and "IsAbs (w_cwd w)" and "CHR 0x0A \<notin> set (Abs (w_cwd w) p)"
    and "sig \<noteq> []" and "\<forall>c\<in>set sig. \<not> rx_space c \<and> c \<noteq> CHR '':''"
    and "w_future w = pre @ (te, LogLine (LineText (Abs (w_cwd w) p @ '': '' @ sig @ '' FOUND''))) # es"
    and "\<forall>(t, e)\<in>set pre. t \<le> te" and "w_now w \<le> te" and "te \<le> w_now w + wo_Timeout opts"
  shows "\<exists>r w'. drv_RTSWatch (NewClamAVDriver cfg) p opts w = (Inr r, w') \<and>
    sr_Status r = StatusInfected \<and> sr_FilePath r = p \<and> w_now w' \<le> te"
proof -
  have ok: "world_ok w"
    using assms(1) clamav_log.log_watcher_axioms by (simp add: world_ok_def)
  have "\<exists>d w'. cache_Wait (Abs (w_cwd w) p) (wo_Timeout opts) w = (Some d, w') \<and>
      det_Status d = ''infected'' \<and> w_now w' \<le> te"
    by (rule cache_Wait_hears [OF ok assms(2,1,9,10,7)])
      (use assms(8) clamav_reports [OF assms(3-5)] assms(6) in blast)+
  then show ?thesis
    using assms(3) by (auto simp: clamav_driver_defs WatchRTS_def abs_or_same_Abs Let_def)
qed

end
