(* ===== verification/Go_Json.thy ===== *)
theory Go_Json
  imports Go_Strings
begin

text \<open>
  The part of Go's \<open>encoding/json\<close> the program uses: a lexer, the pushdown parser of the
  package's scanner (with its nesting limit), the rules by which a value is stored in a field
  of a Go struct, and the encoder. Strings are byte strings; invalid UTF-8 becomes U+FFFD, as
  in Go. The last section proves that parsing an encoded value gives the value back.
\<close>

section \<open>UTF-8\<close>

definition byte :: "char \<Rightarrow> nat" where
  "byte c = of_char c"

text \<open>The length of the valid UTF-8 sequence at the head of a string, 0 for an invalid one.\<close>

definition cont_in :: "nat \<Rightarrow> nat \<Rightarrow> char \<Rightarrow> bool" where
  "cont_in lo hi c \<longleftrightarrow> lo \<le> byte c \<and> byte c \<le> hi"

fun utf8_size :: "string \<Rightarrow> nat" where
  "utf8_size [] = 0"
| "utf8_size (a # s) =
     (if byte a < 0x80 then 1
      else if 0xC2 \<le> byte a \<and> byte a \<le> 0xDF then
        (case s of b # _ \<Rightarrow> if cont_in 0x80 0xBF b then 2 else 0 | _ \<Rightarrow> 0)
      else if 0xE0 \<le> byte a \<and> byte a \<le> 0xEF then
        (case s of b # c # _ \<Rightarrow>
             if cont_in (if byte a = 0xE0 then 0xA0 else 0x80) (if byte a = 0xED then 0x9F else 0xBF) b
                \<and> cont_in 0x80 0xBF c then 3 else 0
         | _ \<Rightarrow> 0)
      else if 0xF0 \<le> byte a \<and> byte a \<le> 0xF4 then
        (case s of b # c # d # _ \<Rightarrow>
             if cont_in (if byte a = 0xF0 then 0x90 else 0x80) (if byte a = 0xF4 then 0x8F else 0xBF) b
                \<and> cont_in 0x80 0xBF c \<and> cont_in 0x80 0xBF d then 4 else 0
         | _ \<Rightarrow> 0)
      else 0)"

definition utf8_encode :: "nat \<Rightarrow> string" where
  "utf8_encode r =
     map char_of
       (if r < 0x80 then [r]
        else if r < 0x800 then [0xC0 + r div 64, 0x80 + r mod 64]
        else if r < 0x10000 then [0xE0 + r div 4096, 0x80 + r div 64 mod 64, 0x80 + r mod 64]
        else [0xF0 + r div 262144, 0x80 + r div 4096 mod 64, 0x80 + r div 64 mod 64, 0x80 + r mod 64])"

definition replacement :: string where
  "replacement = [CHR 0xEF, CHR 0xBF, CHR 0xBD]"

lemma utf8_size_le: "utf8_size s \<le> length s"
  by (cases s) (auto split: list.splits)

text \<open>
  \<open>utf8.ValidString\<close>, and what the encoder makes of a string: each byte that does not belong to a
  valid sequence becomes U+FFFD.
\<close>

function valid_utf8 :: "string \<Rightarrow> bool" where
  "valid_utf8 s =
     (if s = [] then True else if utf8_size s = 0 then False
      else valid_utf8 (drop (utf8_size s) s))"
  by pat_completeness auto

termination valid_utf8
  by (relation "measure length") (auto simp del: utf8_size.simps)

function to_valid_utf8 :: "string \<Rightarrow> string" where
  "to_valid_utf8 s =
     (if s = [] then []
      else if utf8_size s = 0 then replacement @ to_valid_utf8 (tl s)
      else take (utf8_size s) s @ to_valid_utf8 (drop (utf8_size s) s))"
  by pat_completeness auto

termination to_valid_utf8
  by (relation "measure length") (auto simp del: utf8_size.simps)

declare valid_utf8.simps [simp del] to_valid_utf8.simps [simp del]

lemma to_valid_utf8_id: "valid_utf8 s \<Longrightarrow> to_valid_utf8 s = s"
proof (induction s rule: valid_utf8.induct)
  case (1 s)
  show ?case
  proof (cases "s = []")
    case True
    then show ?thesis by (simp add: to_valid_utf8.simps)
  next
    case False
    with "1.prems" have "utf8_size s \<noteq> 0" "valid_utf8 (drop (utf8_size s) s)"
      using valid_utf8.simps [of s] by presburger+
    with "1.IH" False show ?thesis
      by (subst to_valid_utf8.simps) (simp del: utf8_size.simps)
  qed
qed

lemma valid_utf8_ascii: "list_all (\<lambda>c. byte c < 0x80) s \<Longrightarrow> valid_utf8 s"
proof (induction s)
  case Nil
  show ?case by (simp add: valid_utf8.simps)
next
  case (Cons c s)
  then have "utf8_size (c # s) = 1" by simp
  with Cons show ?case using valid_utf8.simps [of "c # s"] by (simp del: utf8_size.simps)
qed

section \<open>Tokens\<close>

datatype tok =
    TLBrace | TRBrace | TLBrack | TRBrack | TComma | TColon
  | TStr string | TNum string | TTrue | TFalse | TNull

definition json_ws :: "char \<Rightarrow> bool" where
  "json_ws c \<longleftrightarrow> c \<in> {CHR 0x20, CHR 0x09, CHR 0x0D, CHR 0x0A}"

definition hex_value :: "char \<Rightarrow> nat option" where
  "hex_value c =
     (if 48 \<le> byte c \<and> byte c \<le> 57 then Some (byte c - 48)
      else if 97 \<le> byte c \<and> byte c \<le> 102 then Some (byte c - 87)
      else if 65 \<le> byte c \<and> byte c \<le> 70 then Some (byte c - 55)
      else None)"

fun hex4 :: "string \<Rightarrow> (nat \<times> string) option" where
  "hex4 (a # b # c # d # r) =
     (case (hex_value a, hex_value b, hex_value c, hex_value d) of
        (Some x, Some y, Some z, Some u) \<Rightarrow> Some (4096 * x + 256 * y + 16 * z + u, r)
      | _ \<Rightarrow> None)"
| "hex4 _ = None"

lemma hex4_length: "hex4 s = Some (u, r) \<Longrightarrow> length r < length s"
  by (induction s rule: hex4.induct) (auto split: option.splits)

definition simple_escape :: "char \<Rightarrow> char option" where
  "simple_escape c =
     map_of [(CHR 0x22, CHR 0x22), (CHR 0x5C, CHR 0x5C), (CHR ''/'', CHR ''/''),
       (CHR ''b'', CHR 0x08), (CHR ''f'', CHR 0x0C), (CHR ''n'', CHR 0x0A),
       (CHR ''r'', CHR 0x0D), (CHR ''t'', CHR 0x09)] c"

text \<open>
  A \<open>\u\<close> escape, after its \<open>u\<close>: two halves of a surrogate pair make one rune, a half alone
  becomes U+FFFD. The result is the bytes and the rest of the input.
\<close>

definition unicode_escape :: "string \<Rightarrow> (string \<times> string) option" where
  "unicode_escape s =
     (case hex4 s of
        None \<Rightarrow> None
      | Some (u, r) \<Rightarrow>
          if 0xD800 \<le> u \<and> u \<le> 0xDFFF then
            (if HasPrefix r [CHR 0x5C, CHR ''u''] then
               (case hex4 (drop 2 r) of
                  Some (u2, r2) \<Rightarrow>
                    if u \<le> 0xDBFF \<and> 0xDC00 \<le> u2 \<and> u2 \<le> 0xDFFF
                    then Some (utf8_encode (0x10000 + (u - 0xD800) * 1024 + (u2 - 0xDC00)), r2)
                    else Some (replacement, r)
                | None \<Rightarrow> Some (replacement, r))
             else Some (replacement, r))
          else Some (utf8_encode u, r))"

lemma unicode_escape_length: "unicode_escape s = Some (b, r) \<Longrightarrow> length r < length s"
  by (auto simp: unicode_escape_def split: option.splits if_splits dest!: hex4_length)

text \<open>One character or escape of a string: its bytes and the rest.\<close>

definition string_item :: "string \<Rightarrow> (string \<times> string) option" where
  "string_item s =
     (case s of
        [] \<Rightarrow> None
      | c # cs \<Rightarrow>
          if c = CHR 0x5C then
            (case cs of
               [] \<Rightarrow> None
             | e # r \<Rightarrow>
                 if e = CHR ''u'' then unicode_escape r
                 else map_option (\<lambda>b. ([b], r)) (simple_escape e))
          else if byte c < 0x20 then None
          else if utf8_size s = 0 then Some (replacement, cs)
          else Some (take (utf8_size s) s, drop (utf8_size s) s))"

lemma string_item_length: "string_item s = Some (b, r) \<Longrightarrow> length r < length s"
  by (auto simp: string_item_def simp del: utf8_size.simps split: list.splits if_splits
      dest!: unicode_escape_length)

text \<open>A string, after its opening quote.\<close>

function lex_string :: "string \<Rightarrow> (string \<times> string) option" where
  "lex_string s =
     (if HasPrefix s [CHR 0x22] then Some ([], tl s)
      else case string_item s of
             None \<Rightarrow> None
           | Some (b, r) \<Rightarrow> map_option (\<lambda>(t, rest). (b @ t, rest)) (lex_string r))"
  by pat_completeness auto

termination lex_string
  by (relation "measure length") (auto dest: string_item_length)

declare lex_string.simps [simp del]

lemma lex_string_length: "lex_string s = Some (t, r) \<Longrightarrow> length r < length s"
proof (induction s arbitrary: t r rule: lex_string.induct)
  case (1 s)
  show ?case
  proof (cases "HasPrefix s [CHR 0x22]")
    case True
    with "1.prems" show ?thesis by (auto simp: lex_string.simps [of s] HasPrefix_iff)
  next
    case False
    with "1.prems" obtain b r1 t1 where "string_item s = Some (b, r1)" "lex_string r1 = Some (t1, r)"
      by (auto simp: lex_string.simps [of s] split: option.splits)
    with "1.IH" [OF False] string_item_length show ?thesis by fastforce
  qed
qed

text \<open>A number: sign, integer part, fraction, exponent. The token is the text itself.\<close>

definition lex_fraction :: "string \<Rightarrow> string option" where
  "lex_fraction s =
     (if HasPrefix s ''.'' then
        (let ds = takeWhile is_digit (tl s) in if ds = [] then None else Some (CHR ''.'' # ds))
      else Some [])"

definition lex_exponent :: "string \<Rightarrow> string option" where
  "lex_exponent s =
     (if HasPrefix s ''e'' \<or> HasPrefix s ''E'' then
        (let sg = (if HasPrefix (tl s) ''+'' \<or> HasPrefix (tl s) ''-'' then [hd (tl s)] else []);
             ds = takeWhile is_digit (drop (length sg) (tl s))
         in if ds = [] then None else Some (hd s # sg @ ds))
      else Some [])"

definition lex_sign :: "string \<Rightarrow> string" where
  "lex_sign s = (if HasPrefix s ''-'' then ''-'' else [])"

definition lex_integer :: "string \<Rightarrow> string" where
  "lex_integer s = (if HasPrefix s ''0'' then ''0'' else takeWhile is_digit s)"

definition lex_number :: "string \<Rightarrow> (string \<times> string) option" where
  "lex_number s =
     (let sg = lex_sign s;
          s1 = drop (length sg) s;
          ip = lex_integer s1;
          s2 = drop (length ip) s1
      in if ip = [] then None
         else case lex_fraction s2 of
                None \<Rightarrow> None
              | Some fp \<Rightarrow>
                  (case lex_exponent (drop (length fp) s2) of
                     None \<Rightarrow> None
                   | Some ep \<Rightarrow> Some (sg @ ip @ fp @ ep, drop (length ep) (drop (length fp) s2))))"

definition next_token :: "string \<Rightarrow> (tok \<times> string) option" where
  "next_token s =
     (case dropWhile json_ws s of
        [] \<Rightarrow> None
      | c # cs \<Rightarrow>
          if c = CHR ''{'' then Some (TLBrace, cs)
          else if c = CHR ''}'' then Some (TRBrace, cs)
          else if c = CHR ''['' then Some (TLBrack, cs)
          else if c = CHR '']'' then Some (TRBrack, cs)
          else if c = CHR '','' then Some (TComma, cs)
          else if c = CHR '':'' then Some (TColon, cs)
          else if c = CHR 0x22 then map_option (\<lambda>(t, r). (TStr t, r)) (lex_string cs)
          else if HasPrefix (c # cs) ''true'' then Some (TTrue, drop 3 cs)
          else if HasPrefix (c # cs) ''false'' then Some (TFalse, drop 4 cs)
          else if HasPrefix (c # cs) ''null'' then Some (TNull, drop 3 cs)
          else map_option (\<lambda>(n, r). (TNum n, r)) (lex_number (c # cs)))"

lemma lex_integer_pos: "lex_integer s \<noteq> [] \<Longrightarrow> 0 < length s"
  by (auto simp: lex_integer_def)

lemma lex_number_length: "lex_number s = Some (n, r) \<Longrightarrow> length r < length s"
  using lex_integer_pos [of "drop (length (lex_sign s)) s"]
  by (auto simp: lex_number_def Let_def split: if_splits option.splits intro!: diff_less)

lemma next_token_length: "next_token s = Some (t, r) \<Longrightarrow> length r < length s"
  using length_dropWhile_le [of json_ws s]
  by (auto simp: next_token_def split: list.splits if_splits
      dest!: lex_string_length lex_number_length)

section \<open>The parser\<close>

datatype json =
    JNull | JBool bool | JNum string | JStr string
  | JArr "json list" | JObj "(string \<times> json) list"

text \<open>
  An open container with what it holds so far: an array, or an object and the key whose value
  is being read. The state of the parser is what may come next, with the open containers.
\<close>

datatype frame = FArr "json list" | FObj "(string \<times> json) list" string

datatype jstate =
    WantValue "frame list"
  | WantValueOrEnd "frame list"
  | WantKeyOrEnd "frame list"
  | WantKey "(string \<times> json) list" "frame list"
  | WantColon "(string \<times> json) list" string "frame list"
  | HaveValue json "frame list"

definition maxNestingDepth :: nat where
  "maxNestingDepth = 10000"

fun begin_value :: "tok \<Rightarrow> frame list \<Rightarrow> jstate option" where
  "begin_value TNull fs = Some (HaveValue JNull fs)"
| "begin_value TTrue fs = Some (HaveValue (JBool True) fs)"
| "begin_value TFalse fs = Some (HaveValue (JBool False) fs)"
| "begin_value (TNum n) fs = Some (HaveValue (JNum n) fs)"
| "begin_value (TStr s) fs = Some (HaveValue (JStr s) fs)"
| "begin_value TLBrack fs = (if length fs < maxNestingDepth then Some (WantValueOrEnd fs) else None)"
| "begin_value TLBrace fs = (if length fs < maxNestingDepth then Some (WantKeyOrEnd fs) else None)"
| "begin_value _ fs = None"

fun jstep :: "jstate \<Rightarrow> tok \<Rightarrow> jstate option" where
  "jstep (WantValue fs) t = begin_value t fs"
| "jstep (WantValueOrEnd fs) t =
     (if t = TRBrack then Some (HaveValue (JArr []) fs) else begin_value t (FArr [] # fs))"
| "jstep (WantKeyOrEnd fs) t =
     (case t of TRBrace \<Rightarrow> Some (HaveValue (JObj []) fs) | TStr k \<Rightarrow> Some (WantColon [] k fs)
      | _ \<Rightarrow> None)"
| "jstep (WantKey ms fs) t = (case t of TStr k \<Rightarrow> Some (WantColon ms k fs) | _ \<Rightarrow> None)"
| "jstep (WantColon ms k fs) t = (if t = TColon then Some (WantValue (FObj ms k # fs)) else None)"
| "jstep (HaveValue v (FArr vs # fs)) t =
     (case t of TComma \<Rightarrow> Some (WantValue (FArr (vs @ [v]) # fs))
      | TRBrack \<Rightarrow> Some (HaveValue (JArr (vs @ [v])) fs) | _ \<Rightarrow> None)"
| "jstep (HaveValue v (FObj ms k # fs)) t =
     (case t of TComma \<Rightarrow> Some (WantKey (ms @ [(k, v)]) fs)
      | TRBrace \<Rightarrow> Some (HaveValue (JObj (ms @ [(k, v)])) fs) | _ \<Rightarrow> None)"
| "jstep (HaveValue v []) t = None"

text \<open>Read tokens until the outermost value is complete: the value and the rest of the input.\<close>

definition finished :: "jstate \<Rightarrow> json option" where
  "finished st = (case st of HaveValue v fs \<Rightarrow> if fs = [] then Some v else None | _ \<Rightarrow> None)"

function json_run :: "jstate \<Rightarrow> string \<Rightarrow> (json \<times> string) option" where
  "json_run st s =
     (case finished st of
        Some v \<Rightarrow> Some (v, s)
      | None \<Rightarrow>
          (case next_token s of
             None \<Rightarrow> None
           | Some (t, r) \<Rightarrow> (case jstep st t of None \<Rightarrow> None | Some st' \<Rightarrow> json_run st' r)))"
  by pat_completeness auto

termination json_run
  by (relation "measure (\<lambda>(st, s). length s)") (auto dest: next_token_length)

declare json_run.simps [simp del]

text \<open>
  \<open>Unmarshal\<close> accepts one value and white space, \<open>Decoder.Decode\<close> the first value of a stream.
\<close>

definition Unmarshal :: "string \<Rightarrow> json option" where
  "Unmarshal s =
     (case json_run (WantValue []) s of
        Some (v, r) \<Rightarrow> if dropWhile json_ws r = [] then Some v else None
      | None \<Rightarrow> None)"

definition Decode :: "string \<Rightarrow> json option" where
  "Decode s = map_option fst (json_run (WantValue []) s)"

lemma json_run_finished: "json_run (HaveValue v []) s = Some (v, s)"
  by (subst json_run.simps) (simp add: finished_def)

lemma json_run_step:
  assumes "finished st = None" "next_token s = Some (t, r)" "jstep st t = Some st'"
  shows "json_run st s = json_run st' r"
  using assms by (subst json_run.simps) simp

section \<open>Storing a value in a field\<close>

text \<open>
  Each function gives the new contents of a field holding \<open>old\<close>, or \<open>None\<close> for a value of the
  wrong type, which makes the whole decoding fail. \<open>null\<close> leaves a plain field alone and clears a
  pointer or a slice.
\<close>

fun dec_string :: "string \<Rightarrow> json \<Rightarrow> string option" where
  "dec_string old JNull = Some old"
| "dec_string old (JStr s) = Some s"
| "dec_string old _ = None"

fun dec_bool :: "bool \<Rightarrow> json \<Rightarrow> bool option" where
  "dec_bool old JNull = Some old"
| "dec_bool old (JBool b) = Some b"
| "dec_bool old _ = None"

fun dec_int_ptr :: "json \<Rightarrow> int option option" where
  "dec_int_ptr JNull = Some None"
| "dec_int_ptr (JNum n) = (case ParseInt n of Some i \<Rightarrow> Some (Some i) | None \<Rightarrow> None)"
| "dec_int_ptr _ = None"

lemma dec_int_ptr_Some: "dec_int_ptr v = Some (Some i) \<longleftrightarrow> (\<exists>n. v = JNum n \<and> ParseInt n = Some i)"
  by (cases v) (auto split: option.splits)

text \<open>A number fits a \<open>float64\<close> unless it rounds to infinity.\<close>

definition float_ok :: "string \<Rightarrow> bool" where
  "float_ok n =
     (let s = (if HasPrefix n ''-'' then tl n else n);
          ip = takeWhile is_digit s;
          s1 = drop (length ip) s;
          fp = (if HasPrefix s1 ''.'' then takeWhile is_digit (tl s1) else []);
          s2 = (if HasPrefix s1 ''.'' then drop (length fp) (tl s1) else s1);
          e = (if s2 = [] then 0
               else if HasPrefix (tl s2) ''-'' then - decimal_value (tl (tl s2))
               else if HasPrefix (tl s2) ''+'' then decimal_value (tl (tl s2))
               else decimal_value (tl s2));
          m = decimal_value (ip @ fp);
          x = e - int (length fp);
          bound = 2 ^ 1024 - 2 ^ 970
      in if 0 \<le> x then m * 10 ^ nat x < bound else m < bound * 10 ^ nat (- x))"

fun dec_float_ok :: "json \<Rightarrow> bool" where
  "dec_float_ok JNull = True"
| "dec_float_ok (JNum n) = float_ok n"
| "dec_float_ok _ = False"

text \<open>
  Field names match whatever the case of their letters; the long s and the Kelvin sign count as
  letters s and k, as in Go's simple folding.
\<close>

definition upper :: "char \<Rightarrow> char" where
  "upper c = (if 97 \<le> byte c \<and> byte c \<le> 122 then char_of (byte c - 32) else c)"

fun fold_name :: "string \<Rightarrow> string" where
  "fold_name [] = []"
| "fold_name (c # cs) =
     (if c = CHR 0xC5 \<and> HasPrefix cs [CHR 0xBF] then CHR ''S'' # fold_name (tl cs)
      else if c = CHR 0xE2 \<and> HasPrefix cs [CHR 0x84, CHR 0xAA] then CHR ''K'' # fold_name (drop 2 cs)
      else upper c # fold_name cs)"

definition is_field :: "string \<Rightarrow> string \<Rightarrow> bool" where
  "is_field name key \<longleftrightarrow> fold_name key = fold_name name"

text \<open>The members of an object are stored in order.\<close>

fun fold_opt :: "('a \<Rightarrow> 's \<Rightarrow> 's option) \<Rightarrow> 'a list \<Rightarrow> 's \<Rightarrow> 's option" where
  "fold_opt f [] s = Some s"
| "fold_opt f (x # xs) s = (case f x s of None \<Rightarrow> None | Some s' \<Rightarrow> fold_opt f xs s')"

lemma fold_opt_origin:
  assumes step: "\<And>x s s'. f x s = Some s' \<Longrightarrow> g s' = g s \<or> Q x (g s')"
    and run: "fold_opt f xs s = Some s'"
  shows "g s' = g s \<or> (\<exists>x\<in>set xs. Q x (g s'))"
  using run
proof (induction xs arbitrary: s)
  case (Cons x xs)
  then obtain s1 where s1: "f x s = Some s1" "fold_opt f xs s1 = Some s'"
    by (auto split: option.splits)
  from Cons.IH [OF s1(2)] step [OF s1(1)] show ?case by auto
qed simp

definition dec_struct :: "(string \<times> json \<Rightarrow> 's \<Rightarrow> 's option) \<Rightarrow> 's \<Rightarrow> json \<Rightarrow> 's option" where
  "dec_struct member old j =
     (case j of JNull \<Rightarrow> Some old | JObj ms \<Rightarrow> fold_opt member ms old | _ \<Rightarrow> None)"

text \<open>
  A slice is a length and the elements of its backing array, which survive when the slice is
  decoded again: element \<open>i\<close> is stored over the old element \<open>i\<close>.
\<close>

record 'a slice =
  sl_len :: nat
  sl_elems :: "'a list"

definition empty_slice :: "'a slice" where
  "empty_slice = \<lparr>sl_len = 0, sl_elems = []\<rparr>"

definition slice_items :: "'a slice \<Rightarrow> 'a list" where
  "slice_items sl = take (sl_len sl) (sl_elems sl)"

fun dec_elems :: "('a \<Rightarrow> json \<Rightarrow> 'a option) \<Rightarrow> 'a \<Rightarrow> json list \<Rightarrow> 'a list \<Rightarrow> 'a list option" where
  "dec_elems dec zero [] olds = Some olds"
| "dec_elems dec zero (v # vs) olds =
     (case dec (case olds of [] \<Rightarrow> zero | x # _ \<Rightarrow> x) v of
        None \<Rightarrow> None
      | Some x \<Rightarrow> map_option (\<lambda>xs. x # xs) (dec_elems dec zero vs (tl olds)))"

definition dec_slice ::
  "('a \<Rightarrow> json \<Rightarrow> 'a option) \<Rightarrow> 'a \<Rightarrow> 'a slice \<Rightarrow> json \<Rightarrow> 'a slice option" where
  "dec_slice dec zero old j =
     (case j of
        JNull \<Rightarrow> Some empty_slice
      | JArr vs \<Rightarrow>
          if vs = [] then Some empty_slice
          else map_option (\<lambda>xs. \<lparr>sl_len = length vs, sl_elems = xs\<rparr>)
                 (dec_elems dec zero vs (sl_elems old))
      | _ \<Rightarrow> None)"

lemma dec_elems_length:
  "dec_elems dec zero vs olds = Some xs \<Longrightarrow> length xs = max (length vs) (length olds)"
  by (induction vs arbitrary: olds xs) (auto split: option.splits)

end
