(* ===== verification/Trendmicro.thy ===== *)
theory Trendmicro
  imports Drivers Go_Regexp Go_Json
begin

text \<open>
  The Trend Micro engine (\<open>internal/drivers/trendmicro.go\<close>): the log line pattern, the log
  watcher, the manual scan with \<open>dsa_scan\<close> whose JSON report is decoded field by field, and the
  driver as a value of the \<open>Driver\<close> interface.
\<close>

section \<open>Definitions\<close>

text \<open>The pattern \<open>\([^,]+,\s*([^)]+)\)\s*virus found:\<close>.\<close>

definition tmVirusFoundRegex :: "rx list" where
  "tmVirusFoundRegex =
     [Lit ''('', Rep False 1 (\<lambda>c. c \<noteq> CHR '',''), Lit '','', Rep False 0 rx_space,
      Rep True 1 (\<lambda>c. c \<noteq> CHR '')''), Lit '')'', Rep False 0 rx_space, Lit ''virus found:'']"

definition tm_processLogLine ::
  "string \<Rightarrow> string \<Rightarrow> gotime \<Rightarrow> DetectionCache \<Rightarrow> DetectionCache" where
  "tm_processLogLine cwd line now c =
     (case FindStringSubmatch tmVirusFoundRegex line of
        None \<Rightarrow> c
      | Some matches \<Rightarrow>
          (let filePath = TrimSpace (matches ! 1)
           in cache_Add (abs_or_same cwd filePath)
                \<lparr>det_FilePath = filePath, det_Status = ''infected'', det_Signature = ''virus'',
                 det_Raw = line, det_Timestamp = 0\<rparr> now c))"

text \<open>The struct the report is decoded into; a pointer is an option, \<open>None\<close> for nil.\<close>

record TmInfectedFile =
  tf_FileName :: string
  tf_MalwareName :: string

record TmReport =
  tm_TraceID :: string
  tm_NumOfFileScanned :: "int option"
  tm_NumOfFileSkipped :: "int option"
  tm_NumOfFileInfected :: "int option"
  tm_ErrorCode :: "int option"
  tm_InfectedFiles :: "TmInfectedFile slice"

definition empty_file :: TmInfectedFile where
  "empty_file = \<lparr>tf_FileName = [], tf_MalwareName = []\<rparr>"

definition empty_report :: TmReport where
  "empty_report =
     \<lparr>tm_TraceID = [], tm_NumOfFileScanned = None, tm_NumOfFileSkipped = None,
      tm_NumOfFileInfected = None, tm_ErrorCode = None, tm_InfectedFiles = empty_slice\<rparr>"

fun file_member :: "string \<times> json \<Rightarrow> TmInfectedFile \<Rightarrow> TmInfectedFile option" where
  "file_member (k, v) f =
     (if is_field ''fileName'' k
      then map_option (\<lambda>s. f\<lparr>tf_FileName := s\<rparr>) (dec_string (tf_FileName f) v)
      else if is_field ''malwareName'' k
      then map_option (\<lambda>s. f\<lparr>tf_MalwareName := s\<rparr>) (dec_string (tf_MalwareName f) v)
      else Some f)"

fun report_member :: "string \<times> json \<Rightarrow> TmReport \<Rightarrow> TmReport option" where
  "report_member (k, v) r =
     (if is_field ''traceID'' k
      then map_option (\<lambda>s. r\<lparr>tm_TraceID := s\<rparr>) (dec_string (tm_TraceID r) v)
      else if is_field ''numOfFileScanned'' k
      then map_option (\<lambda>i. r\<lparr>tm_NumOfFileScanned := i\<rparr>) (dec_int_ptr v)
      else if is_field ''numOfFileSkipped'' k
      then map_option (\<lambda>i. r\<lparr>tm_NumOfFileSkipped := i\<rparr>) (dec_int_ptr v)
      else if is_field ''numOfFileInfected'' k
      then map_option (\<lambda>i. r\<lparr>tm_NumOfFileInfected := i\<rparr>) (dec_int_ptr v)
      else if is_field ''timeElapse'' k
      then (if dec_float_ok v then Some r else None)
      else if is_field ''errorCode'' k
      then map_option (\<lambda>i. r\<lparr>tm_ErrorCode := i\<rparr>) (dec_int_ptr v)
      else if is_field ''infectedFiles'' k
      then map_option (\<lambda>sl. r\<lparr>tm_InfectedFiles := sl\<rparr>)
             (dec_slice (dec_struct file_member) empty_file (tm_InfectedFiles r) v)
      else Some r)"

definition decode_report :: "string \<Rightarrow> TmReport option" where
  "decode_report s =
     (case Unmarshal s of
        None \<Rightarrow> None
      | Some j \<Rightarrow> dec_struct report_member empty_report j)"

definition int_val :: "int option \<Rightarrow> int" where
  "int_val p = (case p of None \<Rightarrow> 0 | Some i \<Rightarrow> i)"

definition parseManualScanOutput :: "string \<Rightarrow> int \<Rightarrow> ScanStatus \<times> string" where
  "parseManualScanOutput result exitCode =
     (case decode_report result of
        None \<Rightarrow> (StatusError, [])
      | Some r \<Rightarrow>
          (let scanned = int_val (tm_NumOfFileScanned r);
               skipped = int_val (tm_NumOfFileSkipped r);
               infected = int_val (tm_NumOfFileInfected r);
               errorCode = int_val (tm_ErrorCode r);
               files = slice_items (tm_InfectedFiles r)
           in if infected > 0 \<or> length files > 0 \<or> exitCode = 1 \<or> exitCode = 3 then
                (StatusInfected, if length files > 0 then tf_MalwareName (files ! 0) else [])
              else
                (let complete = tm_NumOfFileScanned r \<noteq> None \<and> tm_NumOfFileSkipped r \<noteq> None \<and>
                       tm_NumOfFileInfected r \<noteq> None \<and> tm_ErrorCode r \<noteq> None
                 in if \<not> complete \<or> exitCode \<noteq> 0 \<or> errorCode \<noteq> 0 \<or> skipped > 0 \<or> scanned = 0
                    then (StatusError, [])
                    else (StatusClean, []))))"

definition tm_args :: "string \<Rightarrow> string list" where
  "tm_args filePath = [''--target'', filePath, ''--json'', ''--log'', ''/dev/stderr'']"

definition tm_ManualScan ::
  "DriverConfig \<Rightarrow> string \<Rightarrow> World \<Rightarrow> (ScanErr + ScanResult) \<times> World" where
  "tm_ManualScan cfg filePath w =
     (let startTime = w_now w;
          fileID = Base filePath
      in case run_command (dcfg_ScanBinaryPath cfg) (tm_args filePath) (timeout_budget cfg) w of
           (CmdDeadlineExceeded, w1) \<Rightarrow> (Inl DeadlineExceeded, w1)
         | (CmdError e, w1) \<Rightarrow> (Inl (ErrExec e), w1)
         | (CmdExit exitCode stdout stderr, w1) \<Rightarrow>
             (let result = stderr;
                  diag = TrimSpace stdout;
                  v = parseManualScanOutput result exitCode
              in (Inr \<lparr>sr_Status = fst v, sr_Engine = EngineTrendMicro, sr_Signature = snd v,
                       sr_Phase = PhaseManual, sr_FilePath = filePath, sr_FileID = fileID,
                       sr_Timestamp = w_now w1,
                       sr_Duration = Milliseconds (time_Since startTime w1),
                       sr_Raw = RawCmd exitCode diag result\<rparr>, w1)))"

text \<open>The loop of \<open>watchLog\<close>, and \<open>Start\<close>, which runs it in a goroutine.\<close>

definition tm_watchLog :: "string \<Rightarrow> TailLine \<Rightarrow> gotime \<Rightarrow> DetectionCache \<Rightarrow> DetectionCache" where
  "tm_watchLog = watch_line tm_processLogLine"

definition tm_Start :: "DriverConfig \<Rightarrow> World \<Rightarrow> ScanErr option \<times> World" where
  "tm_Start cfg w = start_watcher (dcfg_RTSLogPath cfg) tm_watchLog w"

definition tm_Stop :: "World \<Rightarrow> World" where
  "tm_Stop w = stop_watcher w"

definition tm_RTSWatch ::
  "string \<Rightarrow> WatchOptions \<Rightarrow> World \<Rightarrow> (ScanErr + ScanResult) \<times> World" where
  "tm_RTSWatch filePath opts w = WatchRTS EngineTrendMicro filePath opts w"

definition tm_CheckHealth :: "DriverConfig \<Rightarrow> World \<Rightarrow> ScanErr + EngineHealth" where
  "tm_CheckHealth cfg w =
     (let health = \<lparr>eh_Engine = EngineTrendMicro, eh_Healthy = False, eh_Version = [],
                    eh_LastCheck = w_now w, eh_Error = []\<rparr>
      in if os_Stat (dcfg_RTSLogPath cfg) w \<noteq> None
         then Inr (health\<lparr>eh_Healthy := False,
                          eh_Error := ''RTS log not accessible: '' @ dcfg_RTSLogPath cfg\<rparr>)
         else Inr (health\<lparr>eh_Healthy := True\<rparr>))"

definition tm_GetInfo :: EngineInfo where
  "tm_GetInfo = \<lparr>ei_Engine = EngineTrendMicro, ei_Available = True, ei_RTSEnabled = True,
                     ei_ManualScanAvailable = True\<rparr>"

definition NewTrendMicroDriver :: "DriverConfig \<Rightarrow> Driver" where
  "NewTrendMicroDriver cfg =
     \<lparr>drv_Engine = EngineTrendMicro, drv_Config = cfg,
      drv_Start = tm_Start cfg, drv_Stop = tm_Stop,
      drv_RTSWatch = tm_RTSWatch, drv_ManualScan = tm_ManualScan cfg,
      drv_CheckHealth = tm_CheckHealth cfg, drv_GetInfo = tm_GetInfo\<rparr>"

lemmas tm_driver_defs = NewTrendMicroDriver_def tm_Start_def tm_Stop_def tm_RTSWatch_def
  tm_CheckHealth_def tm_GetInfo_def tm_watchLog_def

section \<open>The contracts\<close>

interpretation tm_log: log_watcher "watch_line tm_processLogLine"
proof (rule watch_line_watcher)
  fix cwd line now c
  show "tm_processLogLine cwd line now c = c \<or>
    (\<exists>p d. det_Status d = ''infected'' \<and> tm_processLogLine cwd line now c = cache_Add p d now c)"
    unfolding tm_processLogLine_def
    by (cases "FindStringSubmatch tmVirusFoundRegex line") (auto simp: Let_def intro!: exI)
qed

lemma parseManualScanOutput_set: "fst (parseManualScanOutput s code) \<noteq> StatusUnset"
  by (simp add: parseManualScanOutput_def Let_def split: option.split)

interpretation trendmicro: av_driver "NewTrendMicroDriver cfg" for cfg
proof
  fix p w r w'
  assume "drv_ManualScan (NewTrendMicroDriver cfg) p w = (Inr r, w')"
  then show "sr_Status r \<noteq> StatusUnset \<and> sr_Phase r = PhaseManual \<and>
      sr_Engine r = drv_Engine (NewTrendMicroDriver cfg)"
    by (auto simp: tm_driver_defs tm_ManualScan_def parseManualScanOutput_set Let_def
        split: prod.splits CmdResult.splits)
next
  fix p w x w' n
  assume "drv_ManualScan (NewTrendMicroDriver cfg) p w = (x, w')"
  then obtain r where run:
    "run_command (dcfg_ScanBinaryPath cfg) (tm_args p) (timeout_budget cfg) w = (r, w')"
    by (auto simp: tm_driver_defs tm_ManualScan_def Let_def
        split: prod.splits CmdResult.splits)
  show "scan_effect w w'" by (rule run_command_effect [OF run])
  assume "pipes_released n w"
  from run_command_frame(3) [OF run this]
  show "w_now w' \<le> w_now w + max n (max 0 (timeout_budget (drv_Config (NewTrendMicroDriver cfg))))"
    by (simp add: tm_driver_defs)
qed (auto simp: tm_driver_defs WatchRTS_verdict start_watcher_ok tm_log.log_watcher_axioms
    stop_watcher_ok Let_def dest: WatchRTS_effect split: if_splits)

section \<open>The report\<close>

text \<open>Where each counter of the decoded report comes from.\<close>

lemma report_member_origin:
  assumes "report_member x r = Some r'"
  shows "tm_NumOfFileScanned r' = tm_NumOfFileScanned r \<or>
      is_field ''numOfFileScanned'' (fst x) \<and> dec_int_ptr (snd x) = Some (tm_NumOfFileScanned r')"
    and "tm_NumOfFileSkipped r' = tm_NumOfFileSkipped r \<or>
      is_field ''numOfFileSkipped'' (fst x) \<and> dec_int_ptr (snd x) = Some (tm_NumOfFileSkipped r')"
    and "tm_NumOfFileInfected r' = tm_NumOfFileInfected r \<or>
      is_field ''numOfFileInfected'' (fst x) \<and> dec_int_ptr (snd x) = Some (tm_NumOfFileInfected r')"
    and "tm_ErrorCode r' = tm_ErrorCode r \<or>
      is_field ''errorCode'' (fst x) \<and> dec_int_ptr (snd x) = Some (tm_ErrorCode r')"
  using assms by (cases x; fastforce split: if_splits)+

definition has_counter :: "string \<Rightarrow> (int \<Rightarrow> bool) \<Rightarrow> (string \<times> json) list \<Rightarrow> bool" where
  "has_counter name P ms \<longleftrightarrow>
     list_ex (\<lambda>(k, v). is_field name k \<and>
       (case v of JNum n \<Rightarrow> (case ParseInt n of Some i \<Rightarrow> P i | None \<Rightarrow> False) | _ \<Rightarrow> False)) ms"

lemma counter_origin:
  assumes step: "\<And>x r r'. report_member x r = Some r' \<Longrightarrow>
      g r' = g r \<or> is_field name (fst x) \<and> dec_int_ptr (snd x) = Some (g r')"
    and "fold_opt report_member ms empty_report = Some r" "g empty_report = None"
    and "g r = Some i" "P i"
  shows "has_counter name P ms"
proof -
  from fold_opt_origin [of report_member g "\<lambda>x o'. is_field name (fst x) \<and> dec_int_ptr (snd x) = Some o'",
      OF step assms(2)] assms(3,4)
  obtain x where "x \<in> set ms" "is_field name (fst x)" "dec_int_ptr (snd x) = Some (Some i)"
    by auto
  with assms(5) show ?thesis
    by (force simp: has_counter_def list_ex_iff dec_int_ptr_Some split_beta)
qed

text \<open>
  C5: a Trend Micro report gives a clean verdict only if the scanner's exit code is 0 and the
  report is a JSON object that really contains all four counters as numbers: a nonzero count of
  scanned files, no skipped file, no infected file and an error code of 0. A missing or null
  counter, a truncated report or any other exit code never gives clean.
\<close>

theorem tm_clean_needs_report:
  assumes "fst (parseManualScanOutput report exitCode) = StatusClean"
  shows "exitCode = 0 \<and> (\<exists>ms. Unmarshal report = Some (JObj ms) \<and>
    has_counter ''numOfFileScanned'' (\<lambda>i. i \<noteq> 0) ms \<and> has_counter ''numOfFileSkipped'' (\<lambda>i. i \<le> 0) ms \<and>
    has_counter ''numOfFileInfected'' (\<lambda>i. i \<le> 0) ms \<and> has_counter ''errorCode'' (\<lambda>i. i = 0) ms)"
proof -
  obtain r where r: "decode_report report = Some r"
    and v: "exitCode = 0" "int_val (tm_NumOfFileScanned r) \<noteq> 0" "tm_NumOfFileScanned r \<noteq> None"
      "int_val (tm_NumOfFileSkipped r) \<le> 0" "tm_NumOfFileSkipped r \<noteq> None"
      "int_val (tm_NumOfFileInfected r) \<le> 0" "tm_NumOfFileInfected r \<noteq> None"
      "int_val (tm_ErrorCode r) = 0" "tm_ErrorCode r \<noteq> None"
    using assms by (auto simp: parseManualScanOutput_def Let_def split: option.splits if_splits)
  obtain j where j: "Unmarshal report = Some j" "dec_struct report_member empty_report j = Some r"
    using r by (auto simp: decode_report_def split: option.splits)
  have "j \<noteq> JNull"
    using j(2) v(3) by (auto simp: dec_struct_def empty_report_def)
  then obtain ms where ms: "j = JObj ms" "fold_opt report_member ms empty_report = Some r"
    using j(2) by (auto simp: dec_struct_def split: json.splits)
  note origin = counter_origin [OF _ ms(2)]
  have "has_counter ''numOfFileScanned'' (\<lambda>i. i \<noteq> 0) ms"
    using v(2,3) by (auto simp: int_val_def empty_report_def dest: report_member_origin(1)
        intro!: origin [where g = tm_NumOfFileScanned])
  moreover have "has_counter ''numOfFileSkipped'' (\<lambda>i. i \<le> 0) ms"
    using v(4,5) by (auto simp: int_val_def empty_report_def dest: report_member_origin(2)
        intro!: origin [where g = tm_NumOfFileSkipped])
  moreover have "has_counter ''numOfFileInfected'' (\<lambda>i. i \<le> 0) ms"
    using v(6,7) by (auto simp: int_val_def empty_report_def dest: report_member_origin(3)
        intro!: origin [where g = tm_NumOfFileInfected])
  moreover have "has_counter ''errorCode'' (\<lambda>i. i = 0) ms"
    using v(8,9) by (auto simp: int_val_def empty_report_def dest: report_member_origin(4)
        intro!: origin [where g = tm_ErrorCode])
  ultimately show ?thesis using v(1) j(1) ms(1) by blast
qed

section \<open>The log line pattern\<close>

lemma tm_line_match:
  assumes "CHR ''('' \<notin> set pre" and "trace \<noteq> []" "CHR '','' \<notin> set trace"
    and "path \<noteq> []" "\<not> rx_space (hd path)" "CHR '')'' \<notin> set path"
  shows "\<exists>m. FindStringSubmatch tmVirusFoundRegex
    (pre @ ''('' @ trace @ '', '' @ path @ '') virus found:'' @ rest) = Some [m, path]"
proof -
  let ?vf = "''virus found:''"
  have "match_here [Lit ?vf] (?vf @ rest) = Some ([], rest)"
    by (intro match_here_lit) simp
  then have "match_here (Rep False 0 rx_space # [Lit ?vf]) ('' '' @ (?vf @ rest))
      = Some ((if False then ['' ''] else []) @ [], rest)"
    by (rule match_here_rep_max [rotated 2]) (simp_all add: rx_space_def)
  then have "match_here [Rep False 0 rx_space, Lit ?vf] ('' '' @ (?vf @ rest)) = Some ([], rest)"
    by (simp del: match_here.simps)
  from match_here_lit [OF this, of "'')''"]
  have close: "match_here [Lit '')'', Rep False 0 rx_space, Lit ?vf] ('')'' @ '' '' @ ?vf @ rest)
      = Some ([], rest)" .
  have "match_here (Rep True 1 (\<lambda>c. c \<noteq> CHR '')'') # [Lit '')'', Rep False 0 rx_space, Lit ?vf])
      (path @ ('')'' @ '' '' @ ?vf @ rest)) = Some ((if True then [path] else []) @ [], rest)"
    by (rule match_here_rep_max [OF _ _ close])
      (use assms(4,6) in \<open>auto simp: list_all_iff Suc_le_eq\<close>)
  then have path: "match_here [Rep True 1 (\<lambda>c. c \<noteq> CHR '')''), Lit '')'', Rep False 0 rx_space, Lit ?vf]
      (path @ ('')'' @ '' '' @ ?vf @ rest)) = Some ([path], rest)"
    by (simp del: match_here.simps)
  have "match_here (Rep False 0 rx_space #
      [Rep True 1 (\<lambda>c. c \<noteq> CHR '')''), Lit '')'', Rep False 0 rx_space, Lit ?vf])
      ('' '' @ (path @ ('')'' @ '' '' @ ?vf @ rest))) = Some ((if False then ['' ''] else []) @ [path], rest)"
    by (rule match_here_rep_max [OF _ _ path])
      (use assms(4,5) in \<open>auto simp: rx_space_def hd_append\<close>)
  then have "match_here [Rep False 0 rx_space, Rep True 1 (\<lambda>c. c \<noteq> CHR '')''), Lit '')'',
      Rep False 0 rx_space, Lit ?vf] ('' '' @ path @ ('')'' @ '' '' @ ?vf @ rest)) = Some ([path], rest)"
    by (simp del: match_here.simps)
  from match_here_lit [OF this, of "'',''"]
  have comma: "match_here [Lit '','', Rep False 0 rx_space, Rep True 1 (\<lambda>c. c \<noteq> CHR '')''), Lit '')'',
      Rep False 0 rx_space, Lit ?vf] ('','' @ '' '' @ path @ '')'' @ '' '' @ ?vf @ rest)
      = Some ([path], rest)" .
  have "match_here (Rep False 1 (\<lambda>c. c \<noteq> CHR '','') # [Lit '','', Rep False 0 rx_space,
      Rep True 1 (\<lambda>c. c \<noteq> CHR '')''), Lit '')'', Rep False 0 rx_space, Lit ?vf])
      (trace @ ('','' @ '' '' @ path @ '')'' @ '' '' @ ?vf @ rest))
      = Some ((if False then [trace] else []) @ [path], rest)"
    by (rule match_here_rep_max [OF _ _ comma])
      (use assms(2,3) in \<open>auto simp: list_all_iff Suc_le_eq\<close>)
  then have "match_here [Rep False 1 (\<lambda>c. c \<noteq> CHR '',''), Lit '','', Rep False 0 rx_space,
      Rep True 1 (\<lambda>c. c \<noteq> CHR '')''), Lit '')'', Rep False 0 rx_space, Lit ?vf]
      (trace @ '','' @ '' '' @ path @ '')'' @ '' '' @ ?vf @ rest) = Some ([path], rest)"
    by (simp del: match_here.simps)
  from match_here_lit [OF this, of "''(''"]
  have "match_here tmVirusFoundRegex
      (''('' @ trace @ '','' @ '' '' @ path @ '')'' @ '' '' @ ?vf @ rest) = Some ([path], rest)"
    by (simp add: tmVirusFoundRegex_def del: match_here.simps)
  from FindStringSubmatch_here [OF this]
  obtain m where here: "FindStringSubmatch tmVirusFoundRegex
      (''('' @ trace @ '','' @ '' '' @ path @ '')'' @ '' '' @ ?vf @ rest) = Some [m, path]" by blast
  have "FindStringSubmatch tmVirusFoundRegex
      (pre @ ''('' @ trace @ '','' @ '' '' @ path @ '')'' @ '' '' @ ?vf @ rest) = Some [m, path]"
  proof (subst FindStringSubmatch_skip)
    fix b
    assume "b \<noteq> []" "\<exists>a. pre = a @ b"
    with assms(1) have "\<not> HasPrefix (b @ ''('' @ trace @ '','' @ '' '' @ path @ '')'' @ '' '' @ ?vf @ rest) ''(''"
      by (cases b) (auto simp: HasPrefix_iff)
    then show "match_here tmVirusFoundRegex
        (b @ ''('' @ trace @ '','' @ '' '' @ path @ '')'' @ '' '' @ ?vf @ rest) = None"
      unfolding tmVirusFoundRegex_def by (rule match_here_lit_None)
  qed (rule here)
  then show ?thesis by (simp del: FindStringSubmatch.simps)
qed

section \<open>End to end: from the log to the verdict\<close>

definition tm_log_line :: "string \<Rightarrow> string \<Rightarrow> string \<Rightarrow> string \<Rightarrow> string" where
  "tm_log_line pre trace path rest = pre @ ''('' @ trace @ '', '' @ path @ '') virus found:'' @ rest"

lemma tm_reports:
  assumes "IsAbs cwd" "CHR '')'' \<notin> set (Abs cwd p)" "TrimSpace (Abs cwd p) = Abs cwd p"
    and "CHR ''('' \<notin> set pre" "trace \<noteq> []" "CHR '','' \<notin> set trace"
  shows "\<exists>d. det_Status d = ''infected'' \<and>
    watch_line tm_processLogLine cwd (LineText (tm_log_line pre trace (Abs cwd p) rest)) now c =
      cache_Add (Abs cwd p) d now c"
proof -
  have "Abs cwd p \<noteq> []" "\<not> rx_space (hd (Abs cwd p))"
    using Abs_absolute [OF assms(1), of p] by (auto simp: IsAbs_iff rx_space_def)
  from tm_line_match [OF assms(4-6) this assms(2)] obtain m where
    "FindStringSubmatch tmVirusFoundRegex (tm_log_line pre trace (Abs cwd p) rest) = Some [m, Abs cwd p]"
    unfolding tm_log_line_def by blast
  then show ?thesis
    using assms(1,3)
    by (auto simp: tm_processLogLine_def abs_or_same_Abs Abs_idem Let_def intro!: exI)
qed

text \<open>
  Whenever Trend Micro's log watcher runs and reads, before the deadline of a real-time watch,
  a line of the documented form "... (trace, path) virus found: ..." for the watched file, the
  watch returns an infected result no later than the moment the line is read, whatever happens
  before that line. The path must not contain a closing parenthesis.
\<close>

lemma trendmicro_rts_detects:
  assumes "w_watcher w = Some (watch_line tm_processLogLine)" and "cache_infected (w_cache w)"
    and "IsAbs (w_cwd w)" and "CHR '')'' \<notin> set (Abs (w_cwd w) p)"
    and "TrimSpace (Abs (w_cwd w) p) = Abs (w_cwd w) p"
    and "CHR ''('' \<notin> set before" and "trace \<noteq> []" and "CHR '','' \<notin> set trace"
    and "w_future w = pre @ (te, LogLine (LineText (tm_log_line before trace (Abs (w_cwd w) p) rest))) # es"
    and "\<forall>(t, e)\<in>set pre. t \<le> te" and "w_now w \<le> te" and "te \<le> w_now w + wo_Timeout opts"
  shows "\<exists>r w'. drv_RTSWatch (NewTrendMicroDriver cfg) p opts w = (Inr r, w') \<and>
    sr_Status r = StatusInfected \<and> sr_FilePath r = p \<and> w_now w' \<le> te"
proof -
  have ok: "world_ok w"
    using assms(1) tm_log.log_watcher_axioms by (simp add: world_ok_def)
  have "\<exists>d w'. cache_Wait (Abs (w_cwd w) p) (wo_Timeout opts) w = (Some d, w') \<and>
      det_Status d = ''infected'' \<and> w_now w' \<le> te"
    by (rule cache_Wait_hears [OF ok assms(2,1,11,12,9)])
      (use assms(10) tm_reports [OF assms(3-8)] in blast)+
  then show ?thesis
    using assms(3) by (auto simp: tm_driver_defs WatchRTS_def abs_or_same_Abs Let_def)
qed

text \<open>
  C28: the pattern cannot report a path with a closing parenthesis: when the working directory has
  none, no log line whatsoever makes the watcher store a detection for such a path. The upload
  path ends with the client's file extension, so a name like "a.x)" escapes the real-time log.
\<close>

theorem trendmicro_paren_never_reported:
  assumes "CHR '')'' \<in> set p" and "CHR '')'' \<notin> set cwd"
  shows "dc_detections (tm_processLogLine cwd line now c) p = dc_detections c p"
proof (cases "FindStringSubmatch tmVirusFoundRegex line")
  case None
  then show ?thesis by (simp add: tm_processLogLine_def)
next
  case (Some ms)
  from FindStringSubmatch_Some [OF this] obtain m caps b u
    where ms: "ms = m # caps" "rx_matches tmVirusFoundRegex b caps u" by blast
  from ms(2) obtain w where "caps = [w]" "list_all (\<lambda>c. c \<noteq> CHR '')'') w"
    unfolding tmVirusFoundRegex_def by (auto elim!: rx_matches_elims)
  with ms(1) have "CHR '')'' \<notin> set (ms ! 1)" by (auto simp: list_all_iff)
  moreover obtain a z where "ms ! 1 = a @ TrimSpace (ms ! 1) @ z" using TrimSpace_substring by blast
  ultimately have "CHR '')'' \<notin> set (TrimSpace (ms ! 1))" by (metis UnCI set_append)
  with assms abs_or_same_chars [of cwd "TrimSpace (ms ! 1)"]
  have "abs_or_same cwd (TrimSpace (ms ! 1)) \<noteq> p" by auto
  with Some show ?thesis by (simp add: tm_processLogLine_def Let_def cache_Add_def)
qed

lemma trendmicro_paren_never_reported_witness:
  "dc_detections (tm_processLogLine ''/srv'' ''(0-0, /u/a.x)) virus found: 2'' 3 (NewDetectionCache 0))
     ''/u/a.x)'' = None"
  by (subst trendmicro_paren_never_reported) (simp_all add: NewDetectionCache_def)

definition sample_report :: string where
  "sample_report =
     ''{\"numOfFileScanned\":1,\"numOfFileSkipped\":0,\"numOfFileInfected\":0,\"errorCode\":0}''"

lemma sample_report_parsed:
  "Unmarshal sample_report =
     Some (JObj [(''numOfFileScanned'', JNum ''1''), (''numOfFileSkipped'', JNum ''0''),
                 (''numOfFileInfected'', JNum ''0''), (''errorCode'', JNum ''0'')])"
  by code_simp

lemma folded_names:
  "fold_name ''traceID'' = ''TRACEID''" "fold_name ''timeElapse'' = ''TIMEELAPSE''"
  "fold_name ''numOfFileScanned'' = ''NUMOFFILESCANNED''"
  "fold_name ''numOfFileSkipped'' = ''NUMOFFILESKIPPED''"
  "fold_name ''numOfFileInfected'' = ''NUMOFFILEINFECTED''"
  "fold_name ''errorCode'' = ''ERRORCODE''" "fold_name ''infectedFiles'' = ''INFECTEDFILES''"
  by code_simp+

lemma ParseInt_small: "ParseInt ''0'' = Some 0" "ParseInt ''1'' = Some 1"
  by code_simp+

lemma sample_report_decoded:
  "decode_report sample_report =
     Some (empty_report\<lparr>tm_NumOfFileScanned := Some 1, tm_NumOfFileSkipped := Some 0,
                        tm_NumOfFileInfected := Some 0, tm_ErrorCode := Some 0\<rparr>)"
  by (simp add: decode_report_def sample_report_parsed dec_struct_def is_field_def folded_names
      ParseInt_small empty_report_def del: fold_name.simps)

lemma sample_report_clean: "fst (parseManualScanOutput sample_report 0) = StatusClean"
  by (simp add: parseManualScanOutput_def sample_report_decoded empty_report_def empty_slice_def
      int_val_def slice_items_def)

lemma tm_clean_needs_report_witness:
  "\<exists>ms. Unmarshal sample_report = Some (JObj ms) \<and>
    has_counter ''numOfFileScanned'' (\<lambda>i. i \<noteq> 0) ms \<and> has_counter ''numOfFileSkipped'' (\<lambda>i. i \<le> 0) ms \<and>
    has_counter ''numOfFileInfected'' (\<lambda>i. i \<le> 0) ms \<and> has_counter ''errorCode'' (\<lambda>i. i = 0) ms"
  using tm_clean_needs_report [OF sample_report_clean] by blast

end
