(* ===== verification/Mock.thy ===== *)
theory Mock
  imports Drivers
begin

text \<open>
  The mock engine (\<open>internal/drivers/mock.go\<close>): it looks for the EICAR test string in the file.
\<close>

definition EICARSignature :: string where
  "EICARSignature = ''EICAR-Test-File''"

text \<open>The source keeps the pattern broken at its third character and repairs it here.\<close>

definition eicar_broken :: string where
  "eicar_broken =
     ''X5x!P%@AP[4'' @ [CHR 0x5C] @ ''PZX54(P^)7CC)7}$EICAR-STANDARD-ANTIVIRUS-TEST-FILE!$H+H*''"

definition EICARPattern :: string where
  "EICARPattern = Replace1 eicar_broken CHR ''x'' ''O''"

definition mock_scan ::
  "string \<Rightarrow> ScanPhase \<Rightarrow> World \<Rightarrow> (ScanErr + ScanResult) \<times> World" where
  "mock_scan filePath phase w =
     (let startTime = w_now w;
          fileID = Base filePath
      in case os_ReadFile filePath w of
           Inl e \<Rightarrow> (Inl (ErrOS e), w)
         | Inr content \<Rightarrow>
             (let result = \<lparr>sr_Status = StatusClean, sr_Engine = EngineMock, sr_Signature = [],
                            sr_Phase = phase, sr_FilePath = filePath, sr_FileID = fileID,
                            sr_Timestamp = w_now w,
                            sr_Duration = Milliseconds (time_Since startTime w),
                            sr_Raw = RawNil\<rparr>
              in (Inr (if Contains content EICARPattern
                       then result\<lparr>sr_Status := StatusInfected, sr_Signature := EICARSignature\<rparr>
                       else result), w)))"

definition mock_RTSWatch ::
  "string \<Rightarrow> WatchOptions \<Rightarrow> World \<Rightarrow> (ScanErr + ScanResult) \<times> World" where
  "mock_RTSWatch filePath opts w =
     (case mock_scan filePath PhaseRTS w of
        (Inl e, w1) \<Rightarrow> (Inl e, w1)
      | (Inr result, w1) \<Rightarrow>
          if sr_Status result \<noteq> StatusInfected then (Inl ErrNoRTSDetection, w1)
          else (Inr result, w1))"

definition mock_ManualScan :: "string \<Rightarrow> World \<Rightarrow> (ScanErr + ScanResult) \<times> World" where
  "mock_ManualScan filePath w = mock_scan filePath PhaseManual w"

definition mock_Start :: "World \<Rightarrow> ScanErr option \<times> World" where
  "mock_Start w = (None, w)"

definition mock_Stop :: "World \<Rightarrow> World" where
  "mock_Stop w = w"

definition mock_CheckHealth :: "World \<Rightarrow> ScanErr + EngineHealth" where
  "mock_CheckHealth w = Inr \<lparr>eh_Engine = EngineMock, eh_Healthy = True, eh_Version = ''1.0.0-mock'',
                            eh_LastCheck = w_now w, eh_Error = []\<rparr>"

definition mock_GetInfo :: EngineInfo where
  "mock_GetInfo = \<lparr>ei_Engine = EngineMock, ei_Available = True, ei_RTSEnabled = False,
                   ei_ManualScanAvailable = True\<rparr>"

definition NewMockDriver :: "DriverConfig \<Rightarrow> Driver" where
  "NewMockDriver cfg =
     \<lparr>drv_Engine = EngineMock, drv_Config = cfg, drv_Start = mock_Start, drv_Stop = mock_Stop,
      drv_RTSWatch = mock_RTSWatch, drv_ManualScan = mock_ManualScan,
      drv_CheckHealth = mock_CheckHealth, drv_GetInfo = mock_GetInfo\<rparr>"

lemmas mock_driver_defs = NewMockDriver_def mock_Start_def mock_Stop_def mock_CheckHealth_def
  mock_GetInfo_def

text \<open>A mock scan reads and answers; it leaves the world as it is.\<close>

lemma mock_scan_world: "mock_scan p ph w = (x, w') \<Longrightarrow> w' = w"
  by (auto simp: mock_scan_def Let_def split: sum.splits)

lemma mock_scan_result:
  "mock_scan p ph w = (Inr r, w') \<Longrightarrow> sr_Phase r = ph \<and> sr_Engine r = EngineMock \<and>
     (sr_Status r = StatusClean \<or> sr_Status r = StatusInfected)"
  by (auto simp: mock_scan_def Let_def split: sum.splits if_splits)

interpretation mock: av_driver "NewMockDriver cfg" for cfg
  by unfold_locales
    (auto simp: mock_driver_defs mock_ManualScan_def mock_RTSWatch_def
      dest: mock_scan_world mock_scan_result split: prod.splits sum.splits if_splits)

text \<open>The repaired pattern is the published 68 byte EICAR test file.\<close>

lemma EICARPattern_text:
  "EICARPattern = ''X5O!P%@AP[4'' @ CHR 0x5C #
     ''PZX54(P^)7CC)7}$EICAR-STANDARD-ANTIVIRUS-TEST-FILE!$H+H*''"
  by (simp add: EICARPattern_def eicar_broken_def)

lemma mock_scan_cases:
  "mock_scan p ph w =
     (case os_ReadFile p w of
        Inl e \<Rightarrow> (Inl (ErrOS e), w)
      | Inr content \<Rightarrow>
          (Inr \<lparr>sr_Status = (if Contains content EICARPattern then StatusInfected else StatusClean),
                sr_Engine = EngineMock,
                sr_Signature = (if Contains content EICARPattern then EICARSignature else []),
                sr_Phase = ph, sr_FilePath = p, sr_FileID = Base p, sr_Timestamp = w_now w,
                sr_Duration = Milliseconds (time_Since (w_now w) w), sr_Raw = RawNil\<rparr>, w))"
  by (simp add: mock_scan_def Let_def split: sum.split)

end
