(* ===== verification/Scanner.thy ===== *)
theory Scanner
  imports Clamav Trendmicro Mock
begin

text \<open>
  Package \<open>scanner\<close> (\<open>internal/scanner/scanner.go\<close>): the scanner owns the driver of the active
  engine and turns a manual scan, or failing that the real-time scanner's report, into the
  verdict of an upload. A call on a driver that is not in the map is a nil dereference: \<open>None\<close>.
\<close>

section \<open>State\<close>

record ScanResponse =
  resp_FileID :: string
  resp_Status :: ScanStatus
  resp_Engine :: EngineType
  resp_Signature :: string
  resp_ScanResult :: "ScanResult option"
  resp_TotalDuration :: int

record Scanner =
  scn_drivers :: "EngineType \<rightharpoonup> Driver"
  scn_activeEngine :: EngineType
  scn_config :: Config

datatype ScanFailure = ScanNoVerdict | ScanFileGone

fun failure_text :: "ScanFailure \<Rightarrow> string" where
  "failure_text ScanNoVerdict = ''scan failed: scanner returned no verdict and no RTS detection found''"
| "failure_text ScanFileGone = ''scan failed: file not accessible and no RTS detection found''"

text \<open>The zero value of \<open>DriverConfig\<close>, which a lookup of a missing engine gives.\<close>

definition zero_driver_config :: DriverConfig where
  "zero_driver_config =
     \<lparr>dcfg_Engine = [], dcfg_RTSLogPath = [], dcfg_ScanBinaryPath = [], dcfg_Timeout = 0\<rparr>"

definition driver_config :: "Config \<Rightarrow> EngineType \<Rightarrow> DriverConfig" where
  "driver_config cfg e = (case cfg_Drivers cfg e of None \<Rightarrow> zero_driver_config | Some c \<Rightarrow> c)"

section \<open>Operations\<close>

definition active_drivers :: "Config \<Rightarrow> EngineType \<rightharpoonup> Driver" where
  "active_drivers cfg =
     (if cfg_ActiveEngine cfg = EngineClamAV
      then [EngineClamAV \<mapsto> NewClamAVDriver (driver_config cfg EngineClamAV)]
      else if cfg_ActiveEngine cfg = EngineTrendMicro
      then [EngineTrendMicro \<mapsto> NewTrendMicroDriver (driver_config cfg EngineTrendMicro)]
      else if cfg_ActiveEngine cfg = EngineMock
      then [EngineMock \<mapsto> NewMockDriver (zero_driver_config\<lparr>dcfg_Engine := EngineMock\<rparr>)]
      else Map.empty)"

definition scanner_New :: "Config \<Rightarrow> World \<Rightarrow> Scanner \<times> World" where
  "scanner_New cfg w =
     (\<lparr>scn_drivers = active_drivers cfg, scn_activeEngine = cfg_ActiveEngine cfg, scn_config = cfg\<rparr>,
      w\<lparr>w_cache := NewDetectionCache DefaultTTL\<rparr>)"

definition active_driver :: "Scanner \<Rightarrow> Driver option" where
  "active_driver s = scn_drivers s (scn_activeEngine s)"

definition scanner_Start :: "Scanner \<Rightarrow> World \<Rightarrow> (ScanErr option \<times> World) option" where
  "scanner_Start s w = map_option (\<lambda>d. drv_Start d w) (active_driver s)"

text \<open>\<open>Stop\<close> stops the watcher and the cache; closing the cache twice panics.\<close>

definition scanner_Stop :: "Scanner \<Rightarrow> World \<Rightarrow> World option" where
  "scanner_Stop s w =
     (case active_driver s of
        None \<Rightarrow> None
      | Some d \<Rightarrow>
          (let w1 = drv_Stop d w
           in map_option (\<lambda>c. w1\<lparr>w_cache := c\<rparr>) (cache_Stop (w_cache w1))))"

definition deleteFile :: "string \<Rightarrow> World \<Rightarrow> OSError option \<times> World" where
  "deleteFile filePath w =
     (case os_Remove filePath w of
        (None, w1) \<Rightarrow> (None, w1)
      | (Some NotExist, w1) \<Rightarrow> (None, w1)
      | (Some e, w1) \<Rightarrow> (Some e, w1))"

text \<open>The end of \<open>Scan\<close> once there is a verdict: clean up, answer, count.\<close>

definition finish_scan ::
  "Driver \<Rightarrow> string \<Rightarrow> string \<Rightarrow> gotime \<Rightarrow> ScanStatus \<Rightarrow> string \<Rightarrow> ScanResult option \<Rightarrow> World \<Rightarrow>
   (ScanFailure + ScanResponse) \<times> World" where
  "finish_scan d filePath fileID startTime status sig result w =
     (let w1 = snd (deleteFile filePath w)
      in (Inr \<lparr>resp_FileID = fileID, resp_Status = status, resp_Engine = drv_Engine d,
               resp_Signature = sig, resp_ScanResult = result,
               resp_TotalDuration = Milliseconds (time_Since startTime w1)\<rparr>,
          w1\<lparr>w_metrics := RecordScan (drv_Engine d) (status_string status) (w_metrics w1)\<rparr>))"

text \<open>The second step of \<open>Scan\<close>: wait for the real-time scanner for the rest of the budget.\<close>

definition wait_rts ::
  "Driver \<Rightarrow> string \<Rightarrow> string \<Rightarrow> gotime \<Rightarrow> ScanResult option \<Rightarrow> World \<Rightarrow>
   (ScanFailure + ScanResponse) \<times> World" where
  "wait_rts d filePath fileID startTime result w =
     (let budget = timeout_budget (drv_Config d);
          left = startTime + budget - w_now w;
          remaining = (if left < 0 then 0 else left);
          (rts, w1) = drv_RTSWatch d filePath \<lparr>wo_Timeout = remaining\<rparr> w
      in if (case rts of Inl _ \<Rightarrow> False | Inr q \<Rightarrow> sr_Status q = StatusInfected)
         then finish_scan d filePath fileID startTime StatusInfected (sr_Signature (projr rts)) result w1
         else if os_Stat filePath w1 = Some NotExist then (Inl ScanFileGone, w1)
         else (Inl ScanNoVerdict, w1))"

definition scan_with ::
  "Driver \<Rightarrow> string \<Rightarrow> string \<Rightarrow> World \<Rightarrow> (ScanFailure + ScanResponse) \<times> World" where
  "scan_with d filePath fileID w =
     (let startTime = w_now w;
          (manual, w1) = drv_ManualScan d filePath w
      in case manual of
           Inl _ \<Rightarrow> wait_rts d filePath fileID startTime None w1
         | Inr r \<Rightarrow>
             if sr_Status r = StatusClean \<or> sr_Status r = StatusInfected
             then finish_scan d filePath fileID startTime (sr_Status r) (sr_Signature r) (Some r) w1
             else wait_rts d filePath fileID startTime (Some r) w1)"

definition Scan ::
  "Scanner \<Rightarrow> string \<Rightarrow> string \<Rightarrow> string \<Rightarrow> int \<Rightarrow> World \<Rightarrow>
   ((ScanFailure + ScanResponse) \<times> World) option" where
  "Scan s filePath fileID originalName bytes w =
     map_option (\<lambda>d. scan_with d filePath fileID w) (active_driver s)"

definition scanner_CheckHealth :: "Scanner \<Rightarrow> World \<Rightarrow> EngineHealth option list option" where
  "scanner_CheckHealth s w =
     map_option (\<lambda>d. [case drv_CheckHealth d w of Inl _ \<Rightarrow> None | Inr h \<Rightarrow> Some h]) (active_driver s)"

definition GetActiveEngineHealth :: "Scanner \<Rightarrow> World \<Rightarrow> (ScanErr + EngineHealth) option" where
  "GetActiveEngineHealth s w = map_option (\<lambda>d. drv_CheckHealth d w) (active_driver s)"

definition GetEngineInfo :: "Scanner \<Rightarrow> EngineInfo list option" where
  "GetEngineInfo s = map_option (\<lambda>d. [drv_GetInfo d]) (active_driver s)"

definition ActiveEngine :: "Scanner \<Rightarrow> EngineType" where
  "ActiveEngine s = scn_activeEngine s"

definition GetUploadPath :: "Scanner \<Rightarrow> string \<Rightarrow> string \<Rightarrow> string" where
  "GetUploadPath s fileID originalName =
     path_Join [cfg_UploadDir (scn_config s), fileID @ Ext originalName]"

section \<open>The scan, for any driver that keeps the contract\<close>

lemma deleteFile_frame:
  "w_now (snd (deleteFile p w)) = w_now w" "w_metrics (snd (deleteFile p w)) = w_metrics w"
  "w_cwd (snd (deleteFile p w)) = w_cwd w" "w_watcher (snd (deleteFile p w)) = w_watcher w"
  "w_denied (snd (deleteFile p w)) = w_denied w" "w_exec (snd (deleteFile p w)) = w_exec w"
  "w_cache (snd (deleteFile p w)) = w_cache w" "w_hidden (snd (deleteFile p w)) = w_hidden w"
  by (auto simp: deleteFile_def os_Remove_def split: prod.splits option.splits OSError.splits if_splits)

lemma deleteFile_files:
  "w_files (snd (deleteFile p w)) q =
     (if p \<noteq> [] \<and> q = resolve w p \<and> \<not> w_denied w q then None else w_files w q)"
  by (auto simp: deleteFile_def os_Remove_def file_at_def split: prod.splits option.splits if_splits)

text \<open>A world after a scan: the one before it, up to what a scan may do, and the metrics.\<close>

definition scan_outcome ::
  "Driver \<Rightarrow> string \<Rightarrow> World \<Rightarrow> ScanFailure + ScanResponse \<Rightarrow> World \<Rightarrow> bool" where
  "scan_outcome d p w x w' \<longleftrightarrow>
     w_now w \<le> w_now w' \<and>
     (\<forall>n. pipes_released n w \<longrightarrow> w_now w' \<le> w_now w + max n (max 0 (timeout_budget (drv_Config d)))) \<and>
     (\<forall>q. w_files w q = None \<longrightarrow> w_files w' q = None) \<and> world_ok w' \<and> cache_kept w w' \<and>
     w_hidden w' = w_hidden w \<and> w_cwd w' = w_cwd w \<and>
     (case x of
        Inl e \<Rightarrow> w_metrics w' = w_metrics w \<and> (e = ScanFileGone \<longleftrightarrow> os_Stat p w' = Some NotExist)
      | Inr r \<Rightarrow> w_metrics w' = RecordScan (drv_Engine d) (status_string (resp_Status r)) (w_metrics w) \<and>
          resp_Engine r = drv_Engine d \<and>
          (w_denied w (resolve w p) \<or> file_at w' p = None))"

context av_driver
begin

lemma finish_scan_outcome:
  assumes "world_ok w" "scan_effect w w1"
    and "\<And>n. pipes_released n w \<Longrightarrow> w_now w1 \<le> w_now w + max n (max 0 (timeout_budget (drv_Config d)))"
    and "finish_scan d p fileID start status sig result w1 = (x, w')"
  shows "scan_outcome d p w x w'"
proof -
  let ?w2 = "snd (deleteFile p w1)"
  have x: "w' = ?w2\<lparr>w_metrics := RecordScan (drv_Engine d) (status_string status) (w_metrics ?w2)\<rparr>"
    "\<exists>r. x = Inr r \<and> resp_Status r = status \<and> resp_Engine r = drv_Engine d"
    using assms(4) by (auto simp: finish_scan_def Let_def)
  have same: "same_setup w w1" using assms(2) by (simp add: scan_effect_def)
  have "world_ok w'" using assms(1) same by (simp add: x world_ok_def same_setup_def deleteFile_frame)
  moreover have "w_denied w (resolve w p) \<or> file_at w' p = None"
    using same by (simp add: x file_at_def resolve_def deleteFile_frame deleteFile_files same_setup_def)
  ultimately show ?thesis
    using x assms(1-3) same
    by (auto simp: scan_outcome_def deleteFile_frame deleteFile_files scan_effect_def same_setup_def
        cache_kept_def)
qed

lemma wait_rts_outcome:
  assumes "world_ok w" "scan_effect w w1"
    and "\<And>n. pipes_released n w \<Longrightarrow> w_now w1 \<le> w_now w + max n (max 0 (timeout_budget (drv_Config d)))"
    and "wait_rts d p fileID (w_now w) result w1 = (x, w')"
  shows "scan_outcome d p w x w'"
proof -
  let ?left = "w_now w + timeout_budget (drv_Config d) - w_now w1"
  let ?rem = "if ?left < 0 then 0 else ?left"
  obtain rts w2 where rts: "drv_RTSWatch d p \<lparr>wo_Timeout = ?rem\<rparr> w1 = (rts, w2)" by fastforce
  have ok1: "world_ok w1" using assms(1,2) by (simp add: scan_effect_ok)
  have "scan_effect w1 w2 \<and> w_now w2 \<le> w_now w1 + ?rem"
    using rts_effect [OF ok1 _ rts] by simp
  then have eff: "scan_effect w w2"
    "\<And>n. pipes_released n w \<Longrightarrow> w_now w2 \<le> w_now w + max n (max 0 (timeout_budget (drv_Config d)))"
    using assms(2) assms(3)
    by (auto intro: scan_effect_trans simp: max_def split: if_splits) (smt (verit))+
  show ?thesis
  proof (cases "case rts of Inl _ \<Rightarrow> False | Inr q \<Rightarrow> sr_Status q = StatusInfected")
    case True
    with assms(4) rts
    have "finish_scan d p fileID (w_now w) StatusInfected (sr_Signature (projr rts)) result w2 = (x, w')"
      by (simp add: wait_rts_def Let_def)
    with assms(1) eff show ?thesis by (rule finish_scan_outcome)
  next
    case False
    with assms(4) rts have "w' = w2"
      "x = (if os_Stat p w2 = Some NotExist then Inl ScanFileGone else Inl ScanNoVerdict)"
      by (auto simp: wait_rts_def Let_def split: if_splits)
    with eff assms(1) show ?thesis
      by (auto simp: scan_outcome_def scan_effect_def same_setup_def world_ok_def)
  qed
qed

lemma scan_with_outcome:
  assumes "world_ok w" "scan_with d p fileID w = (x, w')"
  shows "scan_outcome d p w x w'"
proof -
  obtain m w1 where m: "drv_ManualScan d p w = (m, w1)" by fastforce
  note eff = manual_effect [OF m] manual_time [OF m]
  show ?thesis
    using assms m eff finish_scan_outcome [of w w1] wait_rts_outcome [of w w1]
    by (auto simp: scan_with_def Let_def split: sum.splits if_splits)
qed

text \<open>Where the verdict of a scan comes from.\<close>

lemma scan_with_verdict:
  assumes "scan_with d p fileID w = (Inr resp, w')"
  shows "(resp_Status resp = StatusClean \<longrightarrow>
      (\<exists>r w1. drv_ManualScan d p w = (Inr r, w1) \<and> sr_Status r = StatusClean)) \<and>
    (resp_Status resp = StatusClean \<or> resp_Status resp = StatusInfected)"
proof -
  obtain m w1 where "drv_ManualScan d p w = (m, w1)" by fastforce
  with assms show ?thesis
    by (auto simp: scan_with_def wait_rts_def finish_scan_def Let_def
        split: sum.splits if_splits prod.splits)
qed

end

text \<open>The report found in what was left of the budget when the manual scan had ended.\<close>

definition rts_verdict :: "Driver \<Rightarrow> string \<Rightarrow> gotime \<Rightarrow> World \<Rightarrow> ScanResponse \<Rightarrow> bool" where
  "rts_verdict d p startTime w resp \<longleftrightarrow>
     (let left = startTime + timeout_budget (drv_Config d) - w_now w
      in case drv_RTSWatch d p \<lparr>wo_Timeout = (if left < 0 then 0 else left)\<rparr> w of
           (Inr q, _) \<Rightarrow> sr_Status q = StatusInfected \<and> resp_Status resp = StatusInfected \<and>
             resp_Signature resp = sr_Signature q
         | (Inl _, _) \<Rightarrow> False)"

text \<open>Where a verdict comes from: the manual scan, or else the real-time scanner's report.\<close>

definition verdict_source ::
  "Driver \<Rightarrow> string \<Rightarrow> World \<Rightarrow> ScanResponse \<Rightarrow> bool" where
  "verdict_source d p w resp \<longleftrightarrow>
     (let (m, w1) = drv_ManualScan d p w
      in case m of
           Inr q \<Rightarrow>
             if sr_Status q = StatusClean \<or> sr_Status q = StatusInfected
             then resp_Status resp = sr_Status q \<and> resp_Signature resp = sr_Signature q
             else rts_verdict d p (w_now w) w1 resp
         | Inl _ \<Rightarrow> rts_verdict d p (w_now w) w1 resp)"

lemma scan_with_source:
  assumes "scan_with d p fileID w = (Inr resp, w')"
  shows "verdict_source d p w resp \<and> resp_FileID resp = fileID"
  using assms
  by (auto simp: verdict_source_def rts_verdict_def scan_with_def wait_rts_def finish_scan_def Let_def
      split: sum.splits if_splits prod.splits)

section \<open>The scanner of a validated configuration\<close>

lemma New_active:
  assumes "config_Validate stat_ok cfg = None"
  shows "\<exists>d. active_driver (fst (scanner_New cfg w0)) = Some d \<and> av_driver d \<and>
    drv_Engine d = cfg_ActiveEngine cfg"
proof -
  from assms have "cfg_ActiveEngine cfg \<in> {EngineClamAV, EngineTrendMicro, EngineMock}"
    by (auto simp: config_Validate_def split: if_splits)
  then show ?thesis
    using clamav.av_driver_axioms trendmicro.av_driver_axioms mock.av_driver_axioms
    by (auto simp: active_driver_def scanner_New_def active_drivers_def clamav_driver_defs
        tm_driver_defs mock_driver_defs)
qed

lemma Scan_New:
  assumes "config_Validate stat_ok cfg = None" "Scan (fst (scanner_New cfg w0)) p fid name n w = Some (x, w')"
  obtains d where "active_driver (fst (scanner_New cfg w0)) = Some d" "av_driver d"
    "scan_with d p fid w = (x, w')" "drv_Engine d = cfg_ActiveEngine cfg"
  using New_active [OF assms(1), of w0] assms(2) by (auto simp: Scan_def)

text \<open>
  C1: a scan is answered clean only when the manual scan of this very file returned a clean
  verdict; the answer is always clean or infected, never unset or error, and names the
  configured engine.
\<close>

theorem Scan_clean_sound:
  assumes "config_Validate stat_ok cfg = None"
    and "Scan (fst (scanner_New cfg w0)) p fid name n w = Some (Inr resp, w')"
  shows "(resp_Status resp = StatusClean \<longrightarrow>
      (\<exists>d r w1. active_driver (fst (scanner_New cfg w0)) = Some d \<and>
         drv_ManualScan d p w = (Inr r, w1) \<and> sr_Status r = StatusClean)) \<and>
    (resp_Status resp = StatusClean \<or> resp_Status resp = StatusInfected) \<and>
    resp_Engine resp = cfg_ActiveEngine cfg"
proof -
  obtain d where d: "active_driver (fst (scanner_New cfg w0)) = Some d" "av_driver d"
    "scan_with d p fid w = (Inr resp, w')" "drv_Engine d = cfg_ActiveEngine cfg"
    by (rule Scan_New [OF assms])
  have "resp_Engine resp = drv_Engine d"
    using d(3) by (auto simp: scan_with_def wait_rts_def finish_scan_def Let_def
        split: sum.splits if_splits prod.splits)
  with av_driver.scan_with_verdict [OF d(2,3)] d(1,4) show ?thesis by auto
qed

text \<open>
  C7: with a validated configuration for ClamAV or Trend Micro every scan returns, without a panic, and
  at the latest when the engine's time budget has passed since its start, the wait for the
  real-time scanner included, or when the processes the scanner started have closed their output
  pipes (at most \<open>n\<close> after the start), if that is later: the code sets no \<open>WaitDelay\<close>, so a descendant
  that keeps a pipe open holds the scan up. A timeout whose product with a million wraps around to a
  negative number is no budget at all. The time of file operations and of the program's own
  computation is not counted.
\<close>

theorem Scan_within_budget:
  assumes "config_Validate stat_ok cfg = None" and "world_ok w"
    and "cfg_ActiveEngine cfg \<noteq> EngineMock" and "pipes_released n w"
  shows "\<exists>x w'. Scan (fst (scanner_New cfg w0)) p fid name bytes w = Some (x, w') \<and>
    w_now w \<le> w_now w' \<and>
    w_now w' \<le> w_now w +
      max n (max 0 (wrap64 (dcfg_Timeout (driver_config cfg (cfg_ActiveEngine cfg)) * 1000000)))"
proof -
  obtain d where d: "active_driver (fst (scanner_New cfg w0)) = Some d" "av_driver d"
    using New_active [OF assms(1), of w0] by blast
  then have "drv_Config d = driver_config cfg (cfg_ActiveEngine cfg)"
    using assms(3)
    by (auto simp: active_driver_def scanner_New_def active_drivers_def clamav_driver_defs
        tm_driver_defs split: if_splits)
  moreover obtain x w' where x: "scan_with d p fid w = (x, w')" by fastforce
  ultimately show ?thesis
    using av_driver.scan_with_outcome [OF d(2) assms(2) x] assms(4) d(1)
    by (auto simp: Scan_def scan_outcome_def timeout_budget_def Millisecond_def)
qed

text \<open>
  C20: after a scan that gave a verdict the uploaded file is gone, unless the system refuses to
  remove it; no scan, whatever its outcome, brings a file into being; and without a verdict the
  error is "file not accessible" exactly when the system says that the file does not exist, and then it
  has disappeared.
\<close>

theorem Scan_cleans_up:
  assumes "config_Validate stat_ok cfg = None" and "world_ok w"
    and "Scan (fst (scanner_New cfg w0)) p fid name n w = Some (x, w')"
  shows "(\<forall>q. w_files w q = None \<longrightarrow> w_files w' q = None) \<and>
    (case x of Inr resp \<Rightarrow> w_denied w (resolve w p) \<or> file_at w' p = None
     | Inl e \<Rightarrow> (e = ScanFileGone \<longleftrightarrow> os_Stat p w' = Some NotExist) \<and>
         (e = ScanFileGone \<longrightarrow> file_at w' p = None))"
proof -
  obtain d where "av_driver d" "scan_with d p fid w = (x, w')"
    by (rule Scan_New [OF assms(1,3)])
  from av_driver.scan_with_outcome [OF this(1) assms(2) this(2)] show ?thesis
    by (auto simp: scan_outcome_def os_Stat_def split: sum.splits option.splits if_splits)
qed

text \<open>
  C22: a scan that gave a verdict is counted exactly once, under the configured engine and the verdict it
  returned; a failed scan is not counted here.
\<close>

theorem Scan_counted_once:
  assumes "config_Validate stat_ok cfg = None" and "world_ok w"
    and "Scan (fst (scanner_New cfg w0)) p fid name n w = Some (x, w')"
  shows "scans_counted e st (w_metrics w') = scans_counted e st (w_metrics w) +
    (case x of Inl _ \<Rightarrow> 0
     | Inr resp \<Rightarrow> if e = cfg_ActiveEngine cfg \<and> st = status_string (resp_Status resp) then 1 else 0)"
proof -
  obtain d where d: "av_driver d" "scan_with d p fid w = (x, w')" "drv_Engine d = cfg_ActiveEngine cfg"
    by (rule Scan_New [OF assms(1,3)])
  from av_driver.scan_with_outcome [OF d(1) assms(2) d(2)] d(3) show ?thesis
    by (auto simp: scan_outcome_def split: sum.splits)
qed


section \<open>A quarantined file is reported\<close>

text \<open>
  The line an engine's real-time scanner writes for a path, in the format its watcher expects.
\<close>

definition reported_by_clamav :: "World \<Rightarrow> string \<Rightarrow> string \<Rightarrow> bool" where
  "reported_by_clamav w p line \<longleftrightarrow>
     CHR 0x0A \<notin> set (Abs (w_cwd w) p) \<and>
     (\<exists>sig. sig \<noteq> [] \<and> (\<forall>c\<in>set sig. \<not> rx_space c \<and> c \<noteq> CHR '':'') \<and>
        line = Abs (w_cwd w) p @ '': '' @ sig @ '' FOUND'')"

definition reported_by_trendmicro :: "World \<Rightarrow> string \<Rightarrow> string \<Rightarrow> bool" where
  "reported_by_trendmicro w p line \<longleftrightarrow>
     CHR '')'' \<notin> set (Abs (w_cwd w) p) \<and> TrimSpace (Abs (w_cwd w) p) = Abs (w_cwd w) p \<and>
     (\<exists>pre trace rest. CHR ''('' \<notin> set pre \<and> trace \<noteq> [] \<and> CHR '','' \<notin> set trace \<and>
        line = tm_log_line pre trace (Abs (w_cwd w) p) rest)"

lemma wait_rts_detects:
  assumes "drv_RTSWatch d p \<lparr>wo_Timeout = (if l < 0 then 0 else l)\<rparr> w = (Inr r, w')"
    and "sr_Status r = StatusInfected" "l = start + timeout_budget (drv_Config d) - w_now w"
  shows "\<exists>resp w''. wait_rts d p fid start result w = (Inr resp, w'') \<and> resp_Status resp = StatusInfected"
  using assms by (auto simp: wait_rts_def finish_scan_def Let_def)

text \<open>
  C3: with ClamAV as engine, when the manual scan gives no verdict (it failed, timed out, or the
  file was quarantined under it) and the log watcher reads the report of the file at some moment
  after that and before the scan's time budget ends, the scan is answered infected, whatever
  else is logged, removed, cleaned up or taken in between.
\<close>

theorem Scan_reports_quarantine_clamav:
  assumes "cfg_ActiveEngine cfg = EngineClamAV"
    and "clamav_ManualScan (driver_config cfg EngineClamAV) p w = (m, w1)"
    and "\<not> (\<exists>r. m = Inr r \<and> sr_Status r \<in> {StatusClean, StatusInfected})"
    and "w_watcher w1 = Some (watch_line clamav_processLogLine)" and "cache_infected (w_cache w1)"
    and "IsAbs (w_cwd w1)" and "reported_by_clamav w1 p line"
    and "w_future w1 = pre @ (te, LogLine (LineText line)) # es" and "\<forall>(t, e)\<in>set pre. t \<le> te"
    and "w_now w1 \<le> te" and "te \<le> w_now w + timeout_budget (driver_config cfg EngineClamAV)"
  shows "\<exists>resp w'. Scan (fst (scanner_New cfg w0)) p fid name n w = Some (Inr resp, w') \<and>
    resp_Status resp = StatusInfected"
proof -
  let ?c = "driver_config cfg EngineClamAV"
  let ?d = "NewClamAVDriver ?c"
  let ?l = "w_now w + timeout_budget (drv_Config ?d) - w_now w1"
  have d: "active_driver (fst (scanner_New cfg w0)) = Some ?d"
    using assms(1) by (simp add: active_driver_def scanner_New_def active_drivers_def)
  have m: "drv_ManualScan ?d p w = (m, w1)" and cfg: "drv_Config ?d = ?c"
    using assms(2) by (simp_all add: clamav_driver_defs)
  obtain sig where sig: "sig \<noteq> []" "\<forall>c\<in>set sig. \<not> rx_space c \<and> c \<noteq> CHR '':''"
    "line = Abs (w_cwd w1) p @ '': '' @ sig @ '' FOUND''" "CHR 0x0A \<notin> set (Abs (w_cwd w1) p)"
    using assms(7) by (auto simp: reported_by_clamav_def)
  obtain r w2 where rts: "drv_RTSWatch ?d p \<lparr>wo_Timeout = (if ?l < 0 then 0 else ?l)\<rparr> w1 = (Inr r, w2)"
    "sr_Status r = StatusInfected"
    using clamav_rts_detects [OF assms(4-6) sig(4,1,2) assms(8) [unfolded sig(3)] assms(9,10),
        of "\<lparr>wo_Timeout = (if ?l < 0 then 0 else ?l)\<rparr>" ?c] assms(10,11) cfg by auto
  from wait_rts_detects [OF rts refl]
  show ?thesis
    using assms(3) d m by (auto simp: Scan_def scan_with_def Let_def split: sum.splits)
qed

text \<open>
  C4: the same for Trend Micro and its log format, "(trace, path) virus found:", for a file whose
  absolute path contains no closing parenthesis and does not end in white space (the watcher would
  trim it off, and file the detection under another path).
\<close>

theorem Scan_reports_quarantine_trendmicro:
  assumes "cfg_ActiveEngine cfg = EngineTrendMicro"
    and "tm_ManualScan (driver_config cfg EngineTrendMicro) p w = (m, w1)"
    and "\<not> (\<exists>r. m = Inr r \<and> sr_Status r \<in> {StatusClean, StatusInfected})"
    and "w_watcher w1 = Some (watch_line tm_processLogLine)" and "cache_infected (w_cache w1)"
    and "IsAbs (w_cwd w1)" and "reported_by_trendmicro w1 p line"
    and "w_future w1 = pre @ (te, LogLine (LineText line)) # es" and "\<forall>(t, e)\<in>set pre. t \<le> te"
    and "w_now w1 \<le> te" and "te \<le> w_now w + timeout_budget (driver_config cfg EngineTrendMicro)"
  shows "\<exists>resp w'. Scan (fst (scanner_New cfg w0)) p fid name n w = Some (Inr resp, w') \<and>
    resp_Status resp = StatusInfected"
proof -
  let ?c = "driver_config cfg EngineTrendMicro"
  let ?d = "NewTrendMicroDriver ?c"
  let ?l = "w_now w + timeout_budget (drv_Config ?d) - w_now w1"
  have d: "active_driver (fst (scanner_New cfg w0)) = Some ?d"
    using assms(1) by (simp add: active_driver_def scanner_New_def active_drivers_def)
  have m: "drv_ManualScan ?d p w = (m, w1)" and cfg: "drv_Config ?d = ?c"
    using assms(2) by (simp_all add: tm_driver_defs)
  obtain before trace rest where line: "CHR '')'' \<notin> set (Abs (w_cwd w1) p)"
    "TrimSpace (Abs (w_cwd w1) p) = Abs (w_cwd w1) p" "CHR ''('' \<notin> set before" "trace \<noteq> []"
    "CHR '','' \<notin> set trace" "line = tm_log_line before trace (Abs (w_cwd w1) p) rest"
    using assms(7) by (auto simp: reported_by_trendmicro_def)
  obtain r w2 where rts: "drv_RTSWatch ?d p \<lparr>wo_Timeout = (if ?l < 0 then 0 else ?l)\<rparr> w1 = (Inr r, w2)"
    "sr_Status r = StatusInfected"
    using trendmicro_rts_detects [OF assms(4-6) line(1-5) assms(8) [unfolded line(6)] assms(9,10),
        of "\<lparr>wo_Timeout = (if ?l < 0 then 0 else ?l)\<rparr>" ?c] assms(10,11) cfg by auto
  from wait_rts_detects [OF rts refl]
  show ?thesis
    using assms(3) d m by (auto simp: Scan_def scan_with_def Let_def split: sum.splits)
qed

section \<open>Where uploads are stored\<close>

text \<open>What the code relies on of \<open>uuid.New().String()\<close>: no slash and no dot, and not empty.\<close>

definition file_id :: "string \<Rightarrow> bool" where
  "file_id fid \<longleftrightarrow> fid \<noteq> [] \<and> CHR ''/'' \<notin> set fid \<and> CHR ''.'' \<notin> set fid"

lemma file_id_name: "file_id fid \<Longrightarrow> plain_name (fid @ Ext name)"
  using Ext_no_slash [of name] by (auto simp: file_id_def plain_name_def append_eq_Cons_conv)

lemma file_id_unique:
  assumes "file_id a" "file_id b" "a @ Ext x = b @ Ext y"
  shows "a = b"
proof -
  have "takeWhile (\<lambda>c. c \<noteq> CHR ''.'') (a @ Ext x) = a" if "file_id a" for a x
  proof -
    have "takeWhile (\<lambda>c. c \<noteq> CHR ''.'') (a @ t) = a @ takeWhile (\<lambda>c. c \<noteq> CHR ''.'') t" for t
      using that by (intro takeWhile_append2) (auto simp: file_id_def)
    moreover have "takeWhile (\<lambda>c. c \<noteq> CHR ''.'') (Ext x) = []" using Ext_shape [of x] by auto
    ultimately show ?thesis by simp
  qed
  with assms show ?thesis by metis
qed

text \<open>
  C21: the path an upload is stored under is the upload directory with one more component, the file id
  followed by the client's extension: whatever name the client sends, the file lands directly in
  the upload directory, and two uploads with different ids never share a path.
\<close>

theorem GetUploadPath_inside:
  assumes "file_id fid" and "cfg_UploadDir (scn_config s) \<noteq> []"
  shows "components (GetUploadPath s fid name) = components (cfg_UploadDir (scn_config s)) @ [fid @ Ext name] \<and>
    IsAbs (GetUploadPath s fid name) = IsAbs (cfg_UploadDir (scn_config s)) \<and>
    Base (GetUploadPath s fid name) = fid @ Ext name \<and>
    (file_id fid' \<and> GetUploadPath s fid name = GetUploadPath s fid' name' \<longrightarrow> fid = fid')"
proof -
  let ?d = "cfg_UploadDir (scn_config s)"
  note plain = file_id_name [OF assms(1), of name]
  have eq: "GetUploadPath s fid name = Clean (?d @ CHR ''/'' # (fid @ Ext name))"
    using assms plain by (simp add: GetUploadPath_def path_Join_def plain_name_def Let_def)
  have abs: "IsAbs (?d @ CHR ''/'' # (fid @ Ext name)) = IsAbs ?d"
    using assms(2) by (cases ?d) (auto simp: IsAbs_def)
  have base: "Base (GetUploadPath s fid name) = fid @ Ext name" if "file_id fid" for fid name
    using Base_path_Join [OF file_id_name [OF that] assms(2)] by (simp add: GetUploadPath_def)
  have uniq: "fid = fid'" if "file_id fid'" "GetUploadPath s fid name = GetUploadPath s fid' name'"
    using base [OF assms(1), of name] base [OF that(1), of name'] that(2)
      file_id_unique [OF assms(1) that(1)] by metis
  have "components (GetUploadPath s fid name) = components ?d @ [fid @ Ext name]"
    by (simp only: eq Clean_parts components_append_name [OF plain assms(2)])
  moreover have "IsAbs (GetUploadPath s fid name) = IsAbs ?d" by (simp only: eq Clean_parts abs)
  ultimately show ?thesis using base [OF assms(1), of name] uniq by blast
qed

section \<open>Concrete runs\<close>

definition sample_config :: "EngineType \<Rightarrow> Config" where
  "sample_config e =
     \<lparr>cfg_Port = 3000, cfg_UploadDir = ''/u'', cfg_MaxFileSize = 1000, cfg_ActiveEngine = e,
      cfg_LogLevel = ''info'',
      cfg_Drivers =
        [EngineClamAV \<mapsto> \<lparr>dcfg_Engine = EngineClamAV, dcfg_RTSLogPath = ''/l'',
                           dcfg_ScanBinaryPath = ''/b'', dcfg_Timeout = 1\<rparr>,
         EngineTrendMicro \<mapsto> \<lparr>dcfg_Engine = EngineTrendMicro, dcfg_RTSLogPath = ''/l'',
                               dcfg_ScanBinaryPath = ''/b'', dcfg_Timeout = 1\<rparr>],
      cfg_Auth = \<lparr>auth_Enabled = False, auth_K8sAPIEndpoint = [], auth_Timeout = 0,
                  auth_AllowlistFile = [], auth_TokenPath = []\<rparr>\<rparr>"

abbreviation sample_scanner :: "EngineType \<Rightarrow> Scanner" where
  "sample_scanner e \<equiv> fst (scanner_New (sample_config e) (sample_world None [] (StartFails [])))"

lemma sample_engine: "cfg_ActiveEngine (sample_config e) = e"
  by (simp add: sample_config_def)

lemma sample_config_valid: "config_Validate (\<lambda>_. False) (sample_config EngineMock) = None"
  by (simp add: config_Validate_def sample_config_def)

lemma sample_Abs: "Abs ''/srv'' ''/u/a'' = ''/u/a''"
  by code_simp

lemma sample_world_ok: "world_ok (sample_world None f x)"
  by (simp add: world_ok_def sample_world_def)

lemma sample_mock_run:
  "\<exists>resp w'. Scan (sample_scanner EngineMock) ''/u/a'' fid name n (sample_world None [] (StartFails []))
     = Some (Inr resp, w') \<and> resp_Status resp = StatusClean"
proof -
  let ?w = "sample_world None [] (StartFails [])"
  have "os_ReadFile ''/u/a'' ?w = Inr ''x''"
    by (simp add: os_ReadFile_def file_at_def resolve_def sample_world_def sample_Abs)
  moreover have "\<not> Contains ''x'' EICARPattern"
    by (simp add: EICARPattern_def eicar_broken_def)
  ultimately have "\<exists>r. mock_ManualScan ''/u/a'' ?w = (Inr r, ?w) \<and> sr_Status r = StatusClean"
    by (auto simp: mock_ManualScan_def mock_scan_def Let_def)
  moreover have "active_driver (sample_scanner EngineMock)
      = Some (NewMockDriver (zero_driver_config\<lparr>dcfg_Engine := EngineMock\<rparr>))"
    by (simp add: active_driver_def scanner_New_def active_drivers_def sample_config_def)
  ultimately show ?thesis
    by (auto simp: Scan_def scan_with_def finish_scan_def mock_driver_defs Let_def)
qed

lemma Scan_clean_sound_witness:
  "\<exists>resp w' (d :: Driver) r w1. Scan (sample_scanner EngineMock) ''/u/a'' [] [] 1 (sample_world None [] (StartFails []))
       = Some (Inr resp, w') \<and>
     drv_ManualScan d ''/u/a'' (sample_world None [] (StartFails [])) = (Inr r, w1) \<and>
     sr_Status r = StatusClean"
proof -
  obtain resp w' where run: "Scan (sample_scanner EngineMock) ''/u/a'' [] [] 1
      (sample_world None [] (StartFails [])) = Some (Inr resp, w')" "resp_Status resp = StatusClean"
    using sample_mock_run by blast
  from Scan_clean_sound [OF sample_config_valid run(1)] run show ?thesis by blast
qed

lemma Scan_cleans_up_witness:
  "\<exists>resp w'. Scan (sample_scanner EngineMock) ''/u/a'' [] [] 1 (sample_world None [] (StartFails []))
     = Some (Inr resp, w') \<and> file_at w' ''/u/a'' = None"
proof -
  obtain resp w' where run: "Scan (sample_scanner EngineMock) ''/u/a'' [] [] 1
      (sample_world None [] (StartFails [])) = Some (Inr resp, w')"
    using sample_mock_run by blast
  from Scan_cleans_up [OF sample_config_valid sample_world_ok run] run show ?thesis
    by (auto simp: sample_world_def)
qed

lemma Scan_counted_once_witness:
  "\<exists>resp w'. Scan (sample_scanner EngineMock) ''/u/a'' [] [] 1 (sample_world None [] (StartFails []))
     = Some (Inr resp, w') \<and> scans_counted ''mock'' ''clean'' (w_metrics w') = 1"
proof -
  obtain resp w' where run: "Scan (sample_scanner EngineMock) ''/u/a'' [] [] 1
      (sample_world None [] (StartFails [])) = Some (Inr resp, w')" "resp_Status resp = StatusClean"
    using sample_mock_run by blast
  from Scan_counted_once [OF sample_config_valid sample_world_ok run(1), of "''mock''" "''clean''"] run
  show ?thesis by (auto simp: sample_world_def sample_config_def EngineMock_def)
qed

lemma sample_budget: "timeout_budget (driver_config (sample_config e) EngineClamAV) = 1000000"
  "timeout_budget (driver_config (sample_config e) EngineTrendMicro) = 1000000"
  by (simp_all add: timeout_budget_def driver_config_def sample_config_def Millisecond_def wrap64_def)

text \<open>A ClamAV run that fails after 2 ns, with a child that holds the pipes for 3 ms.\<close>

lemma Scan_within_budget_witness:
  "\<exists>x w'. Scan (sample_scanner EngineClamAV) ''/u/a'' [] [] 1
       (sample_world None [] (Exits 2 2 [] [] 3000000)) = Some (x, w') \<and>
     0 \<le> w_now w' \<and> w_now w' \<le> 3000000"
proof -
  have valid: "config_Validate (\<lambda>_. False) (sample_config EngineClamAV) = None"
    by (simp add: config_Validate_def sample_config_def)
  have ok: "world_ok (sample_world None [] (Exits 2 2 [] [] 3000000))"
    by (simp add: world_ok_def sample_world_def)
  have released: "pipes_released 3000000 (sample_world None [] (Exits 2 2 [] [] 3000000))"
    by (simp add: pipes_released_def sample_world_def)
  have engine: "cfg_ActiveEngine (sample_config EngineClamAV) \<noteq> EngineMock"
    by (simp add: sample_engine EngineClamAV_def EngineMock_def)
  have "wrap64 (dcfg_Timeout (driver_config (sample_config EngineClamAV) EngineClamAV) * 1000000) = 1000000"
    by (simp add: driver_config_def sample_config_def wrap64_def)
  with Scan_within_budget [OF valid ok engine released] show ?thesis
    by (simp add: sample_engine sample_world_def)
qed


text \<open>A scanner binary that fails with code 2 after 2 ns, and a report of the file at 5 ns.\<close>

lemma sample_manual_clamav:
  "\<exists>r w1. clamav_ManualScan (driver_config (sample_config e) EngineClamAV) ''/u/a''
       (sample_world f [(5, ev)] (Exits 2 2 [] [] 0)) = (Inr r, w1) \<and> sr_Status r = StatusError \<and>
     w1 = (sample_world f [(5, ev)] (Exits 2 2 [] [] 0))\<lparr>w_now := 2\<rparr>"
proof -
  have "clamav_verdict 2 (TrimSpace []) = (StatusError, [])" by code_simp
  then show ?thesis
    by (simp add: clamav_ManualScan_def run_command_def sample_budget Let_def sample_world_def
        sleep_until_def clock_to_def)
qed

lemma Scan_reports_quarantine_clamav_witness:
  "\<exists>resp w'. Scan (sample_scanner EngineClamAV) ''/u/a'' [] [] 1
     (sample_world (Some (watch_line clamav_processLogLine))
       [(5, LogLine (LineText ''/u/a: Eicar FOUND''))] (Exits 2 2 [] [] 0)) = Some (Inr resp, w') \<and>
   resp_Status resp = StatusInfected"
proof -
  let ?w = "sample_world (Some (watch_line clamav_processLogLine))
       [(5, LogLine (LineText ''/u/a: Eicar FOUND''))] (Exits 2 2 [] [] 0)"
  obtain r where r: "clamav_ManualScan (driver_config (sample_config EngineClamAV) EngineClamAV) ''/u/a'' ?w
      = (Inr r, ?w\<lparr>w_now := 2\<rparr>)" "sr_Status r = StatusError"
    using sample_manual_clamav by blast
  have line: "reported_by_clamav (?w\<lparr>w_now := 2\<rparr>) ''/u/a'' ''/u/a: Eicar FOUND''"
    by (auto simp: reported_by_clamav_def sample_world_def sample_Abs rx_space_def
        intro!: exI [of _ "''Eicar''"])
  show ?thesis
    by (rule Scan_reports_quarantine_clamav [OF _ r(1) _ _ _ _ line, where pre = "[]" and te = 5 and es = "[]"])
      (use r(2) in \<open>auto simp: sample_engine sample_world_def cache_infected_New
         sample_budget IsAbs_def\<close>)
qed

lemma sample_manual_trendmicro:
  "\<exists>r w1. tm_ManualScan (driver_config (sample_config e) EngineTrendMicro) ''/u/a''
       (sample_world f [(5, ev)] (Exits 2 2 [] [] 0)) = (Inr r, w1) \<and> sr_Status r = StatusError \<and>
     w1 = (sample_world f [(5, ev)] (Exits 2 2 [] [] 0))\<lparr>w_now := 2\<rparr>"
proof -
  have "parseManualScanOutput [] 2 = (StatusError, [])" by code_simp
  then show ?thesis
    by (simp add: tm_ManualScan_def run_command_def sample_budget Let_def sample_world_def
        sleep_until_def clock_to_def)
qed

lemma Scan_reports_quarantine_trendmicro_witness:
  "\<exists>resp w'. Scan (sample_scanner EngineTrendMicro) ''/u/a'' [] [] 1
     (sample_world (Some (watch_line tm_processLogLine))
       [(5, LogLine (LineText ''[SCTRL] (0-0, /u/a) virus found: 2''))] (Exits 2 2 [] [] 0))
     = Some (Inr resp, w') \<and>
   resp_Status resp = StatusInfected"
proof -
  let ?w = "sample_world (Some (watch_line tm_processLogLine))
       [(5, LogLine (LineText ''[SCTRL] (0-0, /u/a) virus found: 2''))] (Exits 2 2 [] [] 0)"
  obtain r where r: "tm_ManualScan (driver_config (sample_config EngineTrendMicro) EngineTrendMicro) ''/u/a'' ?w
      = (Inr r, ?w\<lparr>w_now := 2\<rparr>)" "sr_Status r = StatusError"
    using sample_manual_trendmicro by blast
  have trim: "TrimSpace ''/u/a'' = ''/u/a''" by code_simp
  have line: "reported_by_trendmicro (?w\<lparr>w_now := 2\<rparr>) ''/u/a'' ''[SCTRL] (0-0, /u/a) virus found: 2''"
    unfolding reported_by_trendmicro_def
    by (intro conjI, simp_all add: sample_world_def sample_Abs trim tm_log_line_def,
        rule exI [of _ "''[SCTRL] ''"], simp, rule exI [of _ "''0-0''"], simp)
  show ?thesis
    by (rule Scan_reports_quarantine_trendmicro [OF _ r(1) _ _ _ _ line, where pre = "[]" and te = 5 and es = "[]"])
      (use r(2) in \<open>auto simp: sample_engine sample_world_def cache_infected_New
         sample_budget IsAbs_def\<close>)
qed

lemma GetUploadPath_inside_witness:
  "components (GetUploadPath (sample_scanner EngineMock) ''7f-1'' ''../../x.pdf'') = [''u'', ''7f-1.pdf'']"
proof -
  have dir: "cfg_UploadDir (scn_config (sample_scanner EngineMock)) = ''/u''"
    by (simp add: scanner_New_def sample_config_def)
  have "components ''/u'' = [''u'']" "Ext ''../../x.pdf'' = ''.pdf''" by code_simp+
  with dir GetUploadPath_inside [of "''7f-1''" "sample_scanner EngineMock" "''../../x.pdf''" "''7f-1''"
      "''../../x.pdf''"]
  show ?thesis by (simp add: file_id_def)
qed

end
