(* ===== verification/Go_Float.thy ===== *)
theory Go_Float
  imports Complex_Main "HOL-Library.Log_Nat"
begin

text \<open>
  The \<open>float64\<close> arithmetic of Go that the program uses, on rationals: the result of an operation is
  the exact one rounded to 53 significant bits, ties to even. The exponent is not bounded, so this
  is binary64 for results that are 0 or of a magnitude between \<open>2\<^sup>-\<^sup>1\<^sup>0\<^sup>2\<^sup>2\<close> and \<open>2\<^sup>1\<^sup>0\<^sup>2\<^sup>3\<close>, as all
  of the program's are (seconds of a duration, requests per second).
\<close>

definition round_half_even :: "rat \<Rightarrow> int" where
  "round_half_even y =
     (let f = \<lfloor>y\<rfloor>; r = y - of_int f
      in if r < 1 / 2 \<or> r = 1 / 2 \<and> even f then f else f + 1)"

text \<open>The exponent of the leading bit of a positive number.\<close>

definition exponent_of :: "rat \<Rightarrow> int" where
  "exponent_of x =
     (let (n, d) = quotient_of x; k = bitlen n - bitlen d
      in if 2 powi k \<le> x then k else k - 1)"

definition rnd_pos :: "rat \<Rightarrow> rat" where
  "rnd_pos x = (let u = 2 powi (exponent_of x - 52) in of_int (round_half_even (x / u)) * u)"

definition rnd64 :: "rat \<Rightarrow> rat" where
  "rnd64 x = (if x = 0 then 0 else if x < 0 then - rnd_pos (- x) else rnd_pos x)"

section \<open>The rounding error\<close>

lemma round_half_even_error: "\<bar>of_int (round_half_even y) - y\<bar> \<le> 1 / 2"
proof -
  define r where "r = y - of_int \<lfloor>y\<rfloor>"
  have "0 \<le> r" "r < 1" unfolding r_def by linarith+
  moreover have "of_int (round_half_even y) - y = (if r < 1 / 2 \<or> r = 1 / 2 \<and> even \<lfloor>y\<rfloor> then - r else 1 - r)"
    by (simp add: round_half_even_def Let_def r_def)
  ultimately show ?thesis by (auto simp: abs_if)
qed

lemma round_half_even_of_int [simp]: "round_half_even (of_int k) = k"
  by (simp add: round_half_even_def)

lemma exponent_of_bounds:
  assumes "0 < x"
  shows "2 powi (exponent_of x) \<le> x" "x < 2 powi (exponent_of x + 1)"
proof -
  obtain n d where q: "quotient_of x = (n, d)" by fastforce
  have d: "0 < d" using quotient_of_denom_pos [OF q] .
  have x: "x = of_int n / of_int d" using quotient_of_div [OF q] .
  with assms d have n: "0 < n" by (simp add: zero_less_divide_iff)
  have pos: "1 \<le> bitlen n" "1 \<le> bitlen d"
    using n d bitlen_nonneg [of n] bitlen_nonneg [of d] bitlen_eq_zero_iff [of n] bitlen_eq_zero_iff [of d]
    by linarith+
  have powi: "(2 :: rat) powi k = of_int (2 ^ nat k)" if "0 \<le> k" for k
    using that by (simp add: power_int_def)
  have bn: "2 powi (bitlen n - 1) \<le> (of_int n :: rat)" "(of_int n :: rat) < 2 powi (bitlen n)"
    and bd: "2 powi (bitlen d - 1) \<le> (of_int d :: rat)" "(of_int d :: rat) < 2 powi (bitlen d)"
    using bitlen_bounds [OF n] bitlen_bounds [OF d] pos powi by (simp_all only: of_int_le_iff of_int_less_iff)
  let ?k = "bitlen n - bitlen d"
  have low: "2 powi (?k - 1) \<le> x"
  proof -
    have "2 powi (?k - 1) * (of_int d :: rat) \<le> 2 powi (?k - 1) * 2 powi (bitlen d)"
      using bd(2) by simp
    also have "\<dots> = 2 powi (bitlen n - 1)" by (simp flip: power_int_add)
    also have "\<dots> \<le> of_int n" by (rule bn)
    finally show ?thesis using d by (simp add: x pos_le_divide_eq)
  qed
  have high: "x < 2 powi (?k + 1)"
  proof -
    have "(of_int n :: rat) < 2 powi (?k + 1) * 2 powi (bitlen d - 1)"
      using bn(2) by (simp flip: power_int_add)
    also have "\<dots> \<le> 2 powi (?k + 1) * of_int d" using bd(1) by simp
    finally show ?thesis using d by (simp add: x pos_divide_less_eq)
  qed
  show "2 powi (exponent_of x) \<le> x" "x < 2 powi (exponent_of x + 1)"
    using low high by (auto simp: exponent_of_def q Let_def)
qed

lemma exponent_of_less:
  assumes "0 < x" "x < 2 powi k"
  shows "exponent_of x < k"
proof (rule ccontr)
  assume "\<not> exponent_of x < k"
  then have "(2 :: rat) powi k \<le> 2 powi (exponent_of x)" by (intro power_int_increasing) auto
  with exponent_of_bounds(1) [OF assms(1)] assms(2) show False by simp
qed

lemma rnd64_error:
  assumes "0 \<le> x" "x < 2 powi k"
  shows "\<bar>rnd64 x - x\<bar> \<le> 2 powi (k - 54)"
proof (cases "x = 0")
  case True
  then show ?thesis by (simp add: rnd64_def)
next
  case False
  with assms(1) have x: "0 < x" by simp
  let ?u = "2 powi (exponent_of x - 52) :: rat"
  have "rnd64 x - x = (of_int (round_half_even (x / ?u)) - x / ?u) * ?u"
    using x by (simp add: rnd64_def rnd_pos_def Let_def left_diff_distrib)
  then have "\<bar>rnd64 x - x\<bar> = \<bar>of_int (round_half_even (x / ?u)) - x / ?u\<bar> * ?u"
    by (simp add: abs_mult)
  also have "\<dots> \<le> 1 / 2 * ?u"
    by (rule mult_right_mono [OF round_half_even_error]) simp
  also have "\<dots> = 2 powi (exponent_of x - 53)"
    using power_int_add [of "2 :: rat" "exponent_of x - 53" 1] by simp
  also have "\<dots> \<le> 2 powi (k - 54)"
    using exponent_of_less [OF x assms(2)] by (intro power_int_increasing) auto
  finally show ?thesis .
qed

lemma rnd64_of_int:
  assumes "0 \<le> n" "n < 2 ^ 53"
  shows "rnd64 (of_int n) = of_int n"
proof (cases "n = 0")
  case False
  with assms(1) have n: "0 < (of_int n :: rat)" by simp
  let ?e = "exponent_of (of_int n)"
  have "(of_int n :: rat) < 2 powi 53" using assms(2) by (simp add: power_int_def flip: of_int_less_iff)
  then have e: "?e \<le> 52" using exponent_of_less [OF n, of 53] by simp
  have inv: "1 / 2 powi (?e - 52) = (of_int (2 ^ nat (52 - ?e)) :: rat)"
    using e by (simp add: power_int_def field_simps nat_eq_iff split: if_splits)
  then have "of_int n / 2 powi (?e - 52) = (of_int (n * 2 ^ nat (52 - ?e)) :: rat)"
    by (metis (no_types) divide_inverse inverse_eq_divide mult.commute of_int_mult)
  then have "of_int (round_half_even (of_int n / 2 powi (?e - 52))) = (of_int n / 2 powi (?e - 52) :: rat)"
    by (metis round_half_even_of_int)
  with n show ?thesis by (simp add: rnd64_def rnd_pos_def Let_def)
qed (simp add: rnd64_def)

lemma rnd64_pos:
  assumes "0 < x"
  shows "0 < rnd64 x"
proof -
  have "2 powi (exponent_of x - 52) \<le> (2 powi (exponent_of x) :: rat)" by (intro power_int_increasing) auto
  then have "2 powi (exponent_of x - 52) \<le> x" using exponent_of_bounds(1) [OF assms] by (rule order_trans)
  then have "1 \<le> x / 2 powi (exponent_of x - 52)" by simp
  then have "0 < (of_int (round_half_even (x / 2 powi (exponent_of x - 52))) :: rat)"
    using round_half_even_error [of "x / 2 powi (exponent_of x - 52)"] by linarith
  then have "0 < round_half_even (x / 2 powi (exponent_of x - 52))" by simp
  with assms show ?thesis by (simp add: rnd64_def rnd_pos_def Let_def)
qed

end
