(* ===== verification/Ratelimit_Config.thy ===== *)
theory Ratelimit_Config
  imports Prelude
begin

text \<open>
  The rate-limit configuration (\<open>internal/ratelimit/config.go\<close>): defaults, per-account
  overrides merged field by field, and validation. The map of overrides is its list of
  entries in the order a loop over it meets them; its keys are distinct, as in any map.
\<close>

section \<open>Data\<close>

record Limits =
  lim_MaxConcurrent :: int
  lim_RequestsPerMinute :: int
  lim_Burst :: int

text \<open>A nil field of an override inherits the default.\<close>

record Override =
  ov_MaxConcurrent :: "int option"
  ov_RequestsPerMinute :: "int option"
  ov_Burst :: "int option"

record RateConfig =
  rc_Default :: Limits
  rc_Overrides :: "(string \<times> Override) list"

datatype LimitsError = NegativeValues | BurstNotPositive

datatype RateConfigError = DefaultInvalid LimitsError | OverrideInvalid string LimitsError

definition zero_limits :: Limits where
  "zero_limits = \<lparr>lim_MaxConcurrent = 0, lim_RequestsPerMinute = 0, lim_Burst = 0\<rparr>"

section \<open>Operations\<close>

definition override_or :: "int option \<Rightarrow> int \<Rightarrow> int" where
  "override_or x d = (case x of None \<Rightarrow> d | Some v \<Rightarrow> v)"

definition For :: "RateConfig \<Rightarrow> string \<Rightarrow> Limits" where
  "For c account =
     (let l = rc_Default c
      in case map_of (rc_Overrides c) account of
           None \<Rightarrow> l
         | Some ov \<Rightarrow>
             \<lparr>lim_MaxConcurrent = override_or (ov_MaxConcurrent ov) (lim_MaxConcurrent l),
              lim_RequestsPerMinute = override_or (ov_RequestsPerMinute ov) (lim_RequestsPerMinute l),
              lim_Burst = override_or (ov_Burst ov) (lim_Burst l)\<rparr>)"

definition limits_validate :: "Limits \<Rightarrow> LimitsError option" where
  "limits_validate l =
     (if lim_MaxConcurrent l < 0 \<or> lim_RequestsPerMinute l < 0 \<or> lim_Burst l < 0
      then Some NegativeValues
      else if lim_RequestsPerMinute l > 0 \<and> lim_Burst l = 0 then Some BurstNotPositive
      else None)"

fun validate_overrides :: "RateConfig \<Rightarrow> string list \<Rightarrow> RateConfigError option" where
  "validate_overrides c [] = None"
| "validate_overrides c (account # accounts) =
     (case limits_validate (For c account) of
        Some e \<Rightarrow> Some (OverrideInvalid account e)
      | None \<Rightarrow> validate_overrides c accounts)"

definition rate_Validate :: "RateConfig \<Rightarrow> RateConfigError option" where
  "rate_Validate c =
     (case limits_validate (rc_Default c) of
        Some e \<Rightarrow> Some (DefaultInvalid e)
      | None \<Rightarrow> validate_overrides c (map fst (rc_Overrides c)))"

section \<open>Validation covers every account\<close>

definition limits_ok :: "Limits \<Rightarrow> bool" where
  "limits_ok l \<longleftrightarrow> 0 \<le> lim_MaxConcurrent l \<and> 0 \<le> lim_RequestsPerMinute l \<and> 0 \<le> lim_Burst l \<and>
     (lim_RequestsPerMinute l = 0 \<or> 1 \<le> lim_Burst l)"

lemma limits_validate_iff: "limits_validate l = None \<longleftrightarrow> limits_ok l"
  by (auto simp: limits_validate_def limits_ok_def)

lemma validate_overrides_iff:
  "validate_overrides c accounts = None \<longleftrightarrow> (\<forall>a\<in>set accounts. limits_ok (For c a))"
  by (induction accounts) (auto simp: limits_validate_iff [symmetric] split: option.splits)

lemma For_default: "account \<notin> set (map fst (rc_Overrides c)) \<Longrightarrow> For c account = rc_Default c"
  by (simp add: For_def map_of_eq_None_iff [THEN iffD2])

lemma rate_Validate_None:
  "rate_Validate c = None \<longleftrightarrow>
     limits_ok (rc_Default c) \<and> (\<forall>account \<in> set (map fst (rc_Overrides c)). limits_ok (For c account))"
  by (simp add: rate_Validate_def validate_overrides_iff limits_validate_iff [symmetric]
      split: option.split)

lemma For_valid:
  assumes "rate_Validate c = None"
  shows "limits_ok (For c account)"
  using assms unfolding rate_Validate_None
  by (cases "account \<in> set (map fst (rc_Overrides c))") (auto simp: For_default)

text \<open>
  C34: \<open>Config.Validate\<close> accepts a configuration exactly when the effective limits of every
  account, listed in the overrides or not, are usable: nothing negative, and a positive burst
  wherever a rate is set. The overrides are the only other source of limits than the default,
  which is itself checked.
\<close>

theorem rate_Validate_iff:
  "rate_Validate c = None \<longleftrightarrow> limits_ok (rc_Default c) \<and> (\<forall>account. limits_ok (For c account))"
  using For_valid [of c] unfolding rate_Validate_None by blast

end
