(* ===== verification/Limiter.thy ===== *)
theory Limiter
  imports Go_Float Metrics Ratelimit_Config
begin

text \<open>
  The per-account limiter (\<open>internal/ratelimit/limiter.go\<close>). Account states are shared by
  pointer: a release closure keeps the pointer it was made with, so the model has a heap of
  account states and the map \<open>accounts\<close> holds addresses. The token bucket is the third-party
  \<open>golang.org/x/time/rate\<close>: its methods are the fields of a record \<open>RateLib\<close>, an argument of
  the operations. Every operation is one critical section of the mutex; the last sections put
  any number of callers together as a transition system.
\<close>

section \<open>State\<close>

definition ReasonConcurrency :: string where
  "ReasonConcurrency = ''concurrency''"

definition ReasonRate :: string where
  "ReasonRate = ''rate''"

lemma reasons_distinct [simp]:
  "ReasonConcurrency \<noteq> ReasonRate" "ReasonRate \<noteq> ReasonConcurrency"
  by (simp_all add: ReasonConcurrency_def ReasonRate_def)

record Rejection =
  rej_Reason :: string
  rej_Limit :: int
  rej_RetryAfter :: duration

text \<open>The methods of \<open>*rate.Limiter\<close> (\<open>'b\<close>) and \<open>*rate.Reservation\<close> (\<open>'r\<close>) the code calls.\<close>

record ('b, 'r) RateLib =
  rl_NewLimiter :: "rat \<Rightarrow> int \<Rightarrow> 'b"
  rl_SetLimitAt :: "gotime \<Rightarrow> rat \<Rightarrow> 'b \<Rightarrow> 'b"
  rl_SetBurstAt :: "gotime \<Rightarrow> int \<Rightarrow> 'b \<Rightarrow> 'b"
  rl_ReserveN :: "gotime \<Rightarrow> int \<Rightarrow> 'b \<Rightarrow> 'r \<times> 'b"
  rl_OK :: "'r \<Rightarrow> bool"
  rl_DelayFrom :: "gotime \<Rightarrow> 'r \<Rightarrow> duration"
  rl_CancelAt :: "gotime \<Rightarrow> 'r \<Rightarrow> 'b \<Rightarrow> 'b"

record 'b accountState =
  st_inflight :: int
  st_rate :: "'b option"  \<comment> \<open>nil when requestsPerMinute is 0\<close>

record 'b Limiter =
  lm_cfg :: "RateConfig option"
  lm_allowed :: "(string \<Rightarrow> bool) option"
  lm_accounts :: "(string \<times> nat) list"
  lm_heap :: "nat \<Rightarrow> 'b accountState"
  lm_next :: nat

text \<open>What a release closure captures.\<close>

record Release =
  rel_account :: string
  rel_st :: nat

section \<open>Operations\<close>

definition New :: "'b Limiter" where
  "New = \<lparr>lm_cfg = None, lm_allowed = None, lm_accounts = [],
     lm_heap = (\<lambda>_. \<lparr>st_inflight = 0, st_rate = None\<rparr>), lm_next = 0\<rparr>"

definition effective_limits :: "RateConfig option \<Rightarrow> string \<Rightarrow> Limits" where
  "effective_limits cfg account = (case cfg of None \<Rightarrow> zero_limits | Some c \<Rightarrow> For c account)"

definition is_allowed :: "(string \<Rightarrow> bool) option \<Rightarrow> string \<Rightarrow> bool" where
  "is_allowed allowed account = (case allowed of None \<Rightarrow> False | Some f \<Rightarrow> f account)"

definition set_state :: "nat \<Rightarrow> 'b accountState \<Rightarrow> 'b Limiter \<Rightarrow> 'b Limiter" where
  "set_state p st l = l\<lparr>lm_heap := (lm_heap l)(p := st)\<rparr>"

definition delete_account :: "string \<Rightarrow> 'b Limiter \<Rightarrow> 'b Limiter" where
  "delete_account account l =
     l\<lparr>lm_accounts := filter (\<lambda>e. fst e \<noteq> account) (lm_accounts l)\<rparr>"

text \<open>The rate in tokens per second, \<open>float64(requestsPerMinute) / 60\<close>.\<close>

definition tokens_per_second :: "Limits \<Rightarrow> rat" where
  "tokens_per_second limits = rnd64 (rnd64 (of_int (lim_RequestsPerMinute limits)) / 60)"

definition applyRate ::
  "('b, 'r) RateLib \<Rightarrow> string \<Rightarrow> nat \<Rightarrow> gotime \<Rightarrow> 'b Limiter \<Rightarrow> 'b Limiter" where
  "applyRate rl account p now l =
     (let limits = effective_limits (lm_cfg l) account; st = lm_heap l p
      in if lim_RequestsPerMinute limits = 0 then set_state p (st\<lparr>st_rate := None\<rparr>) l
         else let r = tokens_per_second limits
              in (case st_rate st of
                    None \<Rightarrow>
                      set_state p (st\<lparr>st_rate := Some (rl_NewLimiter rl r (lim_Burst limits))\<rparr>) l
                  | Some b \<Rightarrow>
                      set_state p (st\<lparr>st_rate := Some (rl_SetBurstAt rl now (lim_Burst limits)
                        (rl_SetLimitAt rl now r b))\<rparr>) l))"

fun update_loop ::
  "('b, 'r) RateLib \<Rightarrow> gotime \<Rightarrow> (string \<times> nat) list \<Rightarrow> 'b Limiter \<Rightarrow> 'b Limiter" where
  "update_loop rl now [] l = l"
| "update_loop rl now ((account, p) # es) l =
     (if \<not> is_allowed (lm_allowed l) account \<and> st_inflight (lm_heap l p) = 0
      then update_loop rl now es (delete_account account l)
      else update_loop rl now es (applyRate rl account p now l))"

definition Update ::
  "('b, 'r) RateLib \<Rightarrow> RateConfig option \<Rightarrow> (string \<Rightarrow> bool) option \<Rightarrow> gotime \<Rightarrow>
   'b Limiter \<Rightarrow> 'b Limiter" where
  "Update rl cfg allowed now l =
     (let l1 = l\<lparr>lm_cfg := cfg, lm_allowed := allowed\<rparr>
      in update_loop rl now (lm_accounts l1) l1)"

text \<open>The account's state, made and registered when there is none: its address.\<close>

definition find_or_create ::
  "('b, 'r) RateLib \<Rightarrow> string \<Rightarrow> gotime \<Rightarrow> 'b Limiter \<Rightarrow> nat \<times> 'b Limiter" where
  "find_or_create rl account now l =
     (case map_of (lm_accounts l) account of
        Some p \<Rightarrow> (p, l)
      | None \<Rightarrow>
          let p = lm_next l;
              l0 = (set_state p \<lparr>st_inflight = 0, st_rate = None\<rparr> l)\<lparr>lm_next := Suc p\<rparr>;
              l1 = applyRate rl account p now l0
          in (p, l1\<lparr>lm_accounts := (account, p) # lm_accounts l1\<rparr>))"

text \<open>Reserve one token; a reservation that would have to wait is cancelled.\<close>

definition take_token ::
  "('b, 'r) RateLib \<Rightarrow> gotime \<Rightarrow> 'b option \<Rightarrow> duration option \<times> 'b option" where
  "take_token rl now rate =
     (case rate of
        None \<Rightarrow> (None, None)
      | Some b \<Rightarrow>
          let (r, b1) = rl_ReserveN rl now 1 b; delay = rl_DelayFrom rl now r
          in if \<not> rl_OK rl r \<or> delay > 0 then (Some delay, Some (rl_CancelAt rl now r b1))
             else (None, Some b1))"

definition Acquire ::
  "('b, 'r) RateLib \<Rightarrow> string \<Rightarrow> gotime \<Rightarrow> 'b Limiter \<times> Metrics \<Rightarrow>
   (Rejection + Release) \<times> 'b Limiter \<times> Metrics" where
  "Acquire rl account now lm =
     (let (l, m) = lm;
          (p, l1) = find_or_create rl account now l;
          limits = effective_limits (lm_cfg l1) account;
          st = lm_heap l1 p
      in if lim_MaxConcurrent limits > 0 \<and> st_inflight st \<ge> lim_MaxConcurrent limits
         then (Inl \<lparr>rej_Reason = ReasonConcurrency, rej_Limit = lim_MaxConcurrent limits,
                    rej_RetryAfter = Second\<rparr>,
               l1, RecordRateLimitRejected account ReasonConcurrency m)
         else (case take_token rl now (st_rate st) of
                 (Some delay, rate) \<Rightarrow>
                   (Inl \<lparr>rej_Reason = ReasonRate, rej_Limit = lim_RequestsPerMinute limits,
                         rej_RetryAfter = delay\<rparr>,
                    set_state p (st\<lparr>st_rate := rate\<rparr>) l1,
                    RecordRateLimitRejected account ReasonRate m)
               | (None, rate) \<Rightarrow>
                   (Inr \<lparr>rel_account = account, rel_st = p\<rparr>,
                    set_state p (st\<lparr>st_rate := rate, st_inflight := st_inflight st + 1\<rparr>) l1,
                    SetRateLimitInflight account (st_inflight st + 1) m)))"

definition release :: "Release \<Rightarrow> 'b Limiter \<times> Metrics \<Rightarrow> 'b Limiter \<times> Metrics" where
  "release h lm =
     (let (l, m) = lm; account = rel_account h; p = rel_st h;
          st = (lm_heap l p)\<lparr>st_inflight := st_inflight (lm_heap l p) - 1\<rparr>;
          l1 = set_state p st l
      in (if st_inflight st = 0 \<and> lm_allowed l1 \<noteq> None \<and> \<not> is_allowed (lm_allowed l1) account
             \<and> map_of (lm_accounts l1) account = Some p
          then delete_account account l1 else l1,
          SetRateLimitInflight account (st_inflight st) m))"

section \<open>The registered accounts, abstractly\<close>

text \<open>
  Abstractly the limiter is a map from accounts to the address of the state and the number in
  flight. \<open>limiter_wf\<close> says the entries are a map, and that no two accounts share a state.
\<close>

definition view :: "'b Limiter \<Rightarrow> string \<Rightarrow> (nat \<times> int) option" where
  "view l account = map_option (\<lambda>p. (p, st_inflight (lm_heap l p))) (map_of (lm_accounts l) account)"

definition limiter_wf :: "'b Limiter \<Rightarrow> bool" where
  "limiter_wf l \<longleftrightarrow> distinct (map fst (lm_accounts l)) \<and> distinct (map snd (lm_accounts l)) \<and>
     (\<forall>p\<in>snd ` set (lm_accounts l). p < lm_next l)"

lemma limiter_wf_New [simp]: "limiter_wf New"
  by (simp add: limiter_wf_def New_def)

lemma view_New [simp]: "view New a = None"
  by (simp add: view_def New_def)

lemma map_of_address_inj:
  assumes "distinct (map snd xs)" "map_of xs a = Some p" "map_of xs b = Some p"
  shows "a = b"
proof -
  have "(a, p) \<in> set xs" "(b, p) \<in> set xs" using assms(2,3) by (auto dest: map_of_SomeD)
  moreover have "inj_on snd (set xs)" using assms(1) by (simp add: distinct_map)
  ultimately have "(a, p) = (b, p)" by (metis inj_onD snd_conv)
  then show ?thesis by simp
qed

lemma view_Some_iff:
  "view l a = Some (p, n) \<longleftrightarrow> map_of (lm_accounts l) a = Some p \<and> n = st_inflight (lm_heap l p)"
  by (auto simp: view_def)

lemma view_set_state:
  assumes "limiter_wf l" "map_of (lm_accounts l) account = Some p"
  shows "view (set_state p st l) = (view l)(account \<mapsto> (p, st_inflight st))"
proof
  fix a
  show "view (set_state p st l) a = ((view l)(account \<mapsto> (p, st_inflight st))) a"
  proof (cases "map_of (lm_accounts l) a")
    case None
    with assms(2) show ?thesis by (auto simp: view_def set_state_def)
  next
    case (Some q)
    have "distinct (map snd (lm_accounts l))" using assms(1) by (simp add: limiter_wf_def)
    then have "q = p \<Longrightarrow> a = account"
      using assms(2) Some by (metis map_of_address_inj)
    moreover have "a = account \<Longrightarrow> q = p" using assms(2) Some by simp
    ultimately have "q = p \<longleftrightarrow> a = account" by blast
    with Some show ?thesis by (auto simp: view_def set_state_def)
  qed
qed

lemma set_state_frame [frame_simps]:
  "lm_accounts (set_state p st l) = lm_accounts l" "lm_next (set_state p st l) = lm_next l"
  "lm_cfg (set_state p st l) = lm_cfg l" "lm_allowed (set_state p st l) = lm_allowed l"
  "limiter_wf (set_state p st l) = limiter_wf l"
  by (simp_all add: set_state_def limiter_wf_def)

lemma delete_frame [frame_simps]:
  "lm_heap (delete_account a l) = lm_heap l" "lm_next (delete_account a l) = lm_next l"
  "lm_cfg (delete_account a l) = lm_cfg l" "lm_allowed (delete_account a l) = lm_allowed l"
  by (simp_all add: delete_account_def)

lemma map_of_delete: "map_of (filter (\<lambda>e. fst e \<noteq> a) xs) = (map_of xs)(a := None)"
  by (induction xs) auto

lemma view_delete: "view (delete_account a l) = (view l)(a := None)"
  by (auto simp: view_def delete_account_def map_of_delete)

lemma limiter_wf_delete: "limiter_wf l \<Longrightarrow> limiter_wf (delete_account a l)"
  by (auto simp: limiter_wf_def delete_account_def intro: distinct_map_filter)

lemma applyRate_frame [frame_simps]:
  "lm_accounts (applyRate rl a p now l) = lm_accounts l"
  "lm_next (applyRate rl a p now l) = lm_next l"
  "lm_cfg (applyRate rl a p now l) = lm_cfg l"
  "lm_allowed (applyRate rl a p now l) = lm_allowed l"
  "limiter_wf (applyRate rl a p now l) = limiter_wf l"
  "st_inflight (lm_heap (applyRate rl a p now l) q) = st_inflight (lm_heap l q)"
  by (simp_all add: applyRate_def Let_def frame_simps set_state_def split: option.splits)
    (simp_all add: limiter_wf_def)

lemma view_applyRate [simp]: "view (applyRate rl a p now l) = view l"
  by (auto simp: view_def frame_simps)

subsection \<open>Finding an account\<close>

text \<open>The state an account has, or would get.\<close>

definition entry_of :: "'b Limiter \<Rightarrow> string \<Rightarrow> nat \<times> int" where
  "entry_of l account = (case view l account of Some e \<Rightarrow> e | None \<Rightarrow> (lm_next l, 0))"

lemma find_or_create_frame:
  assumes "find_or_create rl account now l = (p, l1)"
  shows "lm_cfg l1 = lm_cfg l" "lm_allowed l1 = lm_allowed l"
  using assms by (auto simp: find_or_create_def Let_def frame_simps split: option.splits)

lemma find_or_create_view:
  assumes wf: "limiter_wf l" and eq: "find_or_create rl account now l = (p, l1)"
  shows "limiter_wf l1" "map_of (lm_accounts l1) account = Some p"
    "view l1 = (view l)(account \<mapsto> entry_of l account)"
    "entry_of l account = (p, st_inflight (lm_heap l1 p))"
proof -
  have "limiter_wf l1 \<and> map_of (lm_accounts l1) account = Some p \<and>
      view l1 = (view l)(account \<mapsto> entry_of l account) \<and>
      entry_of l account = (p, st_inflight (lm_heap l1 p))"
  proof (cases "map_of (lm_accounts l) account")
    case (Some q)
    with eq have "p = q" "l1 = l" by (auto simp: find_or_create_def)
    moreover from Some have "view l account = Some (q, st_inflight (lm_heap l q))"
      by (simp add: view_def)
    ultimately show ?thesis using wf Some by (auto simp: entry_of_def)
  next
    case None
    let ?l0 = "(set_state (lm_next l) \<lparr>st_inflight = 0, st_rate = None\<rparr> l)\<lparr>lm_next := Suc (lm_next l)\<rparr>"
    let ?la = "applyRate rl account (lm_next l) now ?l0"
    from eq None have p: "p = lm_next l"
      and l1: "l1 = ?la\<lparr>lm_accounts := (account, lm_next l) # lm_accounts ?la\<rparr>"
      by (auto simp: find_or_create_def Let_def)
    have bound: "q < lm_next l" if "map_of (lm_accounts l) b = Some q" for b q
      using wf that by (force simp: limiter_wf_def dest: map_of_SomeD)
    have heap: "st_inflight (lm_heap l1 q) =
        (if q = lm_next l then 0 else st_inflight (lm_heap l q))" for q
      unfolding l1 by (simp add: frame_simps) (simp add: set_state_def)
    have accts: "lm_accounts l1 = (account, lm_next l) # lm_accounts l"
      unfolding l1 by (simp add: frame_simps)
    have nxt: "lm_next l1 = Suc (lm_next l)" unfolding l1 by (simp add: frame_simps)
    have fresh: "account \<notin> fst ` set (lm_accounts l)" using None by (simp add: map_of_eq_None_iff)
    have wf1: "limiter_wf l1"
      using wf fresh unfolding limiter_wf_def accts nxt by (fastforce simp: image_iff)
    have entry: "entry_of l account = (lm_next l, 0)"
      using None by (simp add: entry_of_def view_def)
    have "view l1 a = ((view l)(account \<mapsto> (lm_next l, 0))) a" for a
    proof (cases "a = account")
      case True
      then show ?thesis by (simp add: view_def accts heap)
    next
      case False
      then show ?thesis using bound [of a]
        by (cases "map_of (lm_accounts l) a") (auto simp: view_def accts heap)
    qed
    then have "view l1 = (view l)(account \<mapsto> (lm_next l, 0))" by blast
    with wf1 entry show ?thesis by (simp add: accts p heap)
  qed
  then show "limiter_wf l1" "map_of (lm_accounts l1) account = Some p"
    "view l1 = (view l)(account \<mapsto> entry_of l account)"
    "entry_of l account = (p, st_inflight (lm_heap l1 p))" by blast+
qed

subsection \<open>Acquire and release on the abstract map\<close>

text \<open>
  The refinement: what \<open>Acquire\<close>, \<open>release\<close> and \<open>Update\<close> do to the abstract map.
\<close>

lemma Acquire_rejected:
  assumes wf: "limiter_wf l" and acq: "Acquire rl account now (l, m) = (Inl rej, l', m')"
  shows "limiter_wf l'" "view l' = (view l)(account \<mapsto> entry_of l account)"
    "lm_cfg l' = lm_cfg l" "lm_allowed l' = lm_allowed l"
    "m' = RecordRateLimitRejected account (rej_Reason rej) m"
    "rej_Reason rej \<in> {ReasonConcurrency, ReasonRate}"
    "rej_Reason rej = ReasonConcurrency \<longleftrightarrow>
       0 < lim_MaxConcurrent (effective_limits (lm_cfg l) account) \<and>
       lim_MaxConcurrent (effective_limits (lm_cfg l) account) \<le> snd (entry_of l account)"
proof -
  obtain p l1 where fc: "find_or_create rl account now l = (p, l1)" by fastforce
  note foc = find_or_create_view [OF wf fc] find_or_create_frame [OF fc]
  obtain tok rate where tok: "take_token rl now (st_rate (lm_heap l1 p)) = (tok, rate)"
    by fastforce
  have vs: "view (set_state p (lm_heap l1 p\<lparr>st_rate := rate\<rparr>) l1) = view l1"
    using view_set_state [OF foc(1,2)] foc(3,4) by (simp add: fun_upd_idem_iff)
  have inf: "st_inflight (lm_heap l1 p) = snd (entry_of l account)" using foc(4) by simp
  have "limiter_wf l' \<and> view l' = (view l)(account \<mapsto> entry_of l account) \<and>
    lm_cfg l' = lm_cfg l \<and> lm_allowed l' = lm_allowed l \<and>
    m' = RecordRateLimitRejected account (rej_Reason rej) m \<and>
    rej_Reason rej \<in> {ReasonConcurrency, ReasonRate} \<and>
    (rej_Reason rej = ReasonConcurrency \<longleftrightarrow>
       0 < lim_MaxConcurrent (effective_limits (lm_cfg l) account) \<and>
       lim_MaxConcurrent (effective_limits (lm_cfg l) account) \<le> snd (entry_of l account))"
    using acq foc vs
    unfolding Acquire_def fc Let_def prod.case tok inf
    by (auto simp: frame_simps split: if_splits option.splits)
  then show "limiter_wf l'" "view l' = (view l)(account \<mapsto> entry_of l account)"
    "lm_cfg l' = lm_cfg l" "lm_allowed l' = lm_allowed l"
    "m' = RecordRateLimitRejected account (rej_Reason rej) m"
    "rej_Reason rej \<in> {ReasonConcurrency, ReasonRate}"
    "rej_Reason rej = ReasonConcurrency \<longleftrightarrow>
       0 < lim_MaxConcurrent (effective_limits (lm_cfg l) account) \<and>
       lim_MaxConcurrent (effective_limits (lm_cfg l) account) \<le> snd (entry_of l account)"
    by blast+
qed

lemma Acquire_rejection:
  assumes "Acquire rl account now (l, m) = (Inl rej, l', m')"
  shows "rej_Reason rej = ReasonConcurrency \<and> rej_RetryAfter rej = Second \<and>
      rej_Limit rej = lim_MaxConcurrent (effective_limits (lm_cfg l) account) \<or>
    rej_Reason rej = ReasonRate \<and>
      rej_Limit rej = lim_RequestsPerMinute (effective_limits (lm_cfg l) account)"
proof -
  obtain p l1 where fc: "find_or_create rl account now l = (p, l1)" by fastforce
  from assms find_or_create_frame(1) [OF fc] show ?thesis
    by (auto simp: Acquire_def fc Let_def split: if_splits option.splits prod.splits)
qed

lemma Acquire_granted:
  assumes wf: "limiter_wf l" and acq: "Acquire rl account now (l, m) = (Inr h, l', m')"
  shows "limiter_wf l'"
    "view l' = (view l)(account \<mapsto> (rel_st h, snd (entry_of l account) + 1))"
    "rel_account h = account" "rel_st h = fst (entry_of l account)"
    "lm_cfg l' = lm_cfg l" "lm_allowed l' = lm_allowed l"
    "m' = SetRateLimitInflight account (snd (entry_of l account) + 1) m"
    "lim_MaxConcurrent (effective_limits (lm_cfg l) account) \<le> 0 \<or>
     snd (entry_of l account) < lim_MaxConcurrent (effective_limits (lm_cfg l) account)"
proof -
  obtain p l1 where fc: "find_or_create rl account now l = (p, l1)" by fastforce
  note foc = find_or_create_view [OF wf fc] find_or_create_frame [OF fc]
  obtain tok rate where tok: "take_token rl now (st_rate (lm_heap l1 p)) = (tok, rate)"
    by fastforce
  have inf: "st_inflight (lm_heap l1 p) = snd (entry_of l account)"
    and fst_e: "fst (entry_of l account) = p" using foc(4) by simp_all
  let ?st = "lm_heap l1 p\<lparr>st_rate := rate, st_inflight := snd (entry_of l account) + 1\<rparr>"
  have vs: "view (set_state p ?st l1) = (view l)(account \<mapsto> (p, snd (entry_of l account) + 1))"
    using view_set_state [OF foc(1,2), of ?st] foc(3) by simp
  have "h = \<lparr>rel_account = account, rel_st = p\<rparr> \<and> l' = set_state p ?st l1 \<and>
    m' = SetRateLimitInflight account (snd (entry_of l account) + 1) m \<and>
    (lim_MaxConcurrent (effective_limits (lm_cfg l) account) \<le> 0 \<or>
     snd (entry_of l account) < lim_MaxConcurrent (effective_limits (lm_cfg l) account))"
    using acq foc(5)
    unfolding Acquire_def fc Let_def prod.case tok inf
    by (auto split: if_splits option.splits)
  then show "limiter_wf l'"
    "view l' = (view l)(account \<mapsto> (rel_st h, snd (entry_of l account) + 1))"
    "rel_account h = account" "rel_st h = fst (entry_of l account)"
    "lm_cfg l' = lm_cfg l" "lm_allowed l' = lm_allowed l"
    "m' = SetRateLimitInflight account (snd (entry_of l account) + 1) m"
    "lim_MaxConcurrent (effective_limits (lm_cfg l) account) \<le> 0 \<or>
     snd (entry_of l account) < lim_MaxConcurrent (effective_limits (lm_cfg l) account)"
    using vs foc(1,5,6) fst_e by (auto simp: frame_simps)
qed

lemma release_view:
  assumes wf: "limiter_wf l" and reg: "view l (rel_account h) = Some (rel_st h, n)"
    and rel: "release h (l, m) = (l', m')"
  shows "limiter_wf l'"
    "view l' = (view l)(rel_account h :=
       (if n = 1 \<and> lm_allowed l \<noteq> None \<and> \<not> is_allowed (lm_allowed l) (rel_account h)
        then None else Some (rel_st h, n - 1)))"
    "lm_cfg l' = lm_cfg l" "lm_allowed l' = lm_allowed l"
    "m' = SetRateLimitInflight (rel_account h) (n - 1) m"
proof -
  let ?p = "rel_st h"
  let ?st = "(lm_heap l ?p)\<lparr>st_inflight := st_inflight (lm_heap l ?p) - 1\<rparr>"
  from reg have mp: "map_of (lm_accounts l) (rel_account h) = Some ?p"
    and n: "n = st_inflight (lm_heap l ?p)" by (simp_all add: view_Some_iff)
  have vs: "view (set_state ?p ?st l) = (view l)(rel_account h \<mapsto> (?p, n - 1))"
    using view_set_state [OF wf mp, of ?st] n by simp
  show "limiter_wf l'" "lm_cfg l' = lm_cfg l" "lm_allowed l' = lm_allowed l"
    "m' = SetRateLimitInflight (rel_account h) (n - 1) m"
    "view l' = (view l)(rel_account h :=
       (if n = 1 \<and> lm_allowed l \<noteq> None \<and> \<not> is_allowed (lm_allowed l) (rel_account h)
        then None else Some (rel_st h, n - 1)))"
    using rel wf mp n vs
    by (auto simp: release_def Let_def frame_simps view_delete limiter_wf_delete
        split: if_splits)
qed

lemma Acquire_metrics: "Acquire rl account now (l, m) = (res, l', m') \<Longrightarrow> http_calls m' = http_calls m"
  by (auto simp: Acquire_def Let_def split: prod.splits if_splits option.splits)

text \<open>\<open>Update\<close> drops the idle accounts that are no longer allowed and nothing else.\<close>

definition survives :: "(string \<Rightarrow> bool) option \<Rightarrow> string \<Rightarrow> (nat \<times> int) option \<Rightarrow> (nat \<times> int) option" where
  "survives allowed account e =
     (case e of
        None \<Rightarrow> None
      | Some (p, n) \<Rightarrow> if \<not> is_allowed allowed account \<and> n = 0 then None else Some (p, n))"

lemma update_loop_view:
  assumes "limiter_wf l" "distinct (map fst es)" "set es \<subseteq> set (lm_accounts l)"
  shows "limiter_wf (update_loop rl now es l) \<and>
    lm_cfg (update_loop rl now es l) = lm_cfg l \<and>
    lm_allowed (update_loop rl now es l) = lm_allowed l \<and>
    view (update_loop rl now es l) =
      (\<lambda>a. if a \<in> fst ` set es then survives (lm_allowed l) a (view l a) else view l a)"
  using assms
proof (induction rl now es l rule: update_loop.induct)
  case (1 rl now l)
  then show ?case by simp
next
  case (2 rl now account p es l)
  have acc: "map_of (lm_accounts l) account = Some p"
    using "2.prems" by (auto simp: limiter_wf_def)
  then have v: "view l account = Some (p, st_inflight (lm_heap l p))" by (simp add: view_def)
  have notin: "account \<notin> fst ` set es" using "2.prems"(2) by simp
  show ?case
  proof (cases "\<not> is_allowed (lm_allowed l) account \<and> st_inflight (lm_heap l p) = 0")
    case True
    have "set es \<subseteq> set (lm_accounts (delete_account account l))"
      using "2.prems"(3) notin by (force simp: delete_account_def)
    with 2 True have IH: "limiter_wf (update_loop rl now es (delete_account account l)) \<and>
      lm_cfg (update_loop rl now es (delete_account account l)) = lm_cfg l \<and>
      lm_allowed (update_loop rl now es (delete_account account l)) = lm_allowed l \<and>
      view (update_loop rl now es (delete_account account l)) =
        (\<lambda>a. if a \<in> fst ` set es
          then survives (lm_allowed l) a (view (delete_account account l) a)
          else view (delete_account account l) a)"
      by (simp add: limiter_wf_delete frame_simps cong: if_cong)
    have "survives (lm_allowed l) account (view l account) = None"
      using True v by (simp add: survives_def)
    with IH True notin show ?thesis by (auto simp: view_delete)
  next
    case False
    with 2 have IH: "limiter_wf (update_loop rl now es (applyRate rl account p now l)) \<and>
      lm_cfg (update_loop rl now es (applyRate rl account p now l)) = lm_cfg l \<and>
      lm_allowed (update_loop rl now es (applyRate rl account p now l)) = lm_allowed l \<and>
      view (update_loop rl now es (applyRate rl account p now l)) =
        (\<lambda>a. if a \<in> fst ` set es then survives (lm_allowed l) a (view l a) else view l a)"
      by (simp add: frame_simps cong: if_cong)
    have "survives (lm_allowed l) account (view l account) = view l account"
      using False v by (auto simp: survives_def)
    with IH False notin show ?thesis by auto
  qed
qed

lemma Update_view:
  assumes "limiter_wf l"
  shows "limiter_wf (Update rl cfg allowed now l)"
    "view (Update rl cfg allowed now l) a = survives allowed a (view l a)"
    "lm_cfg (Update rl cfg allowed now l) = cfg"
    "lm_allowed (Update rl cfg allowed now l) = allowed"
proof -
  let ?l = "l\<lparr>lm_cfg := cfg, lm_allowed := allowed\<rparr>"
  have wf: "limiter_wf ?l" using assms by (simp add: limiter_wf_def)
  then have "distinct (map fst (lm_accounts ?l))" by (simp add: limiter_wf_def)
  note u = update_loop_view [OF wf this order_refl, of rl now]
  have v: "view ?l a = view l a" by (simp add: view_def)
  have none: "view l a = None" if "a \<notin> fst ` set (lm_accounts l)"
    using that by (simp add: view_def map_of_eq_None_iff)
  show "limiter_wf (Update rl cfg allowed now l)"
    "lm_cfg (Update rl cfg allowed now l) = cfg"
    "lm_allowed (Update rl cfg allowed now l) = allowed"
    using u by (simp_all add: Update_def)
  show "view (Update rl cfg allowed now l) a = survives allowed a (view l a)"
    using u none v by (auto simp: Update_def survives_def)
qed

lemma update_loop_config:
  "lm_cfg (update_loop rl now es l) = lm_cfg l \<and> lm_allowed (update_loop rl now es l) = lm_allowed l"
  by (induction rl now es l rule: update_loop.induct) (simp_all add: frame_simps)

lemma Update_config:
  "lm_cfg (Update rl cfg allowed now l) = cfg" "lm_allowed (Update rl cfg allowed now l) = allowed"
  by (simp_all add: Update_def update_loop_config)

end
