(* ===== verification/Admission.thy ===== *)
theory Admission
  imports Prelude
begin

text \<open>
  The interface between the rate-limit middleware and the limiter: a pool of slots per account.
  \<open>acquire\<close> either refuses, leaving every count alone, or hands out a handle and counts one more
  slot for the account; \<open>release\<close> gives the slot of a handle back. \<open>owns s h a\<close> says that in
  state \<open>s\<close> the handle \<open>h\<close> stands for a slot of account \<open>a\<close> that has not been given back.
\<close>

locale slot_pool =
  fixes acquire :: "string \<Rightarrow> 's \<Rightarrow> ('j + 'h) \<times> 's"
    and release :: "'h \<Rightarrow> 's \<Rightarrow> 's"
    and slots :: "'s \<Rightarrow> string \<Rightarrow> int"
    and valid :: "'s \<Rightarrow> bool"
    and owns :: "'s \<Rightarrow> 'h \<Rightarrow> string \<Rightarrow> bool"
  assumes acquire_refused: "valid s \<Longrightarrow> acquire a s = (Inl j, s') \<Longrightarrow>
      valid s' \<and> slots s' = slots s"
    and acquire_granted: "valid s \<Longrightarrow> acquire a s = (Inr h, s') \<Longrightarrow>
      valid s' \<and> slots s' = (slots s)(a := slots s a + 1) \<and> owns s' h a"
    and release_owned: "valid s \<Longrightarrow> owns s h a \<Longrightarrow>
      valid (release h s) \<and> slots (release h s) = (slots s)(a := slots s a - 1)"
begin

text \<open>A slot given back at once changes no count.\<close>

lemma acquire_release:
  assumes "valid s" "acquire a s = (Inr h, s')"
  shows "slots (release h s') = slots s"
  using acquire_granted [OF assms] release_owned [of s' h a] by auto

text \<open>
  Whatever happens between an acquire and the release of its handle, as long as the handle
  stays owned, the pair of them contributes nothing to the counts.
\<close>

lemma bracket:
  assumes "valid s" "acquire a s = (Inr h, s1)"
    and "valid s2" "owns s2 h a" "\<And>b. slots s2 b = slots s1 b + \<delta> b"
  shows "valid (release h s2) \<and> (\<forall>b. slots (release h s2) b = slots s b + \<delta> b)"
  using acquire_granted [OF assms(1,2)] release_owned [OF assms(3,4)] assms(5) by auto

end

end
