(* ===== verification/Limiter_System.thy ===== *)
theory Limiter_System
  imports Limiter Admission
begin

text \<open>
  All callers of one limiter together: any number of goroutines acquire, call their release
  closures (each any number of times), and the allowlist watcher updates the configuration.
  The relation \<open>lim_step\<close> has one rule per critical section; \<open>adm\<close> says which configurations
  \<open>Update\<close> is called with.
\<close>

section \<open>The transition system\<close>

record 'b LimSys =
  ls_limiter :: "'b Limiter"
  ls_metrics :: Metrics
  ls_handles :: "(Release \<times> bool) list"  \<comment> \<open>closures handed out; whether their \<open>once\<close> fired\<close>
  ls_now :: gotime

text \<open>Calling the \<open>i\<close>-th release closure: \<open>sync.Once\<close> runs the body on the first call only.\<close>

definition call_release :: "nat \<Rightarrow> 'b LimSys \<Rightarrow> 'b LimSys" where
  "call_release i s =
     (if i < length (ls_handles s) then
        let (h, fired) = ls_handles s ! i
        in if fired then s
           else let (l', m') = release h (ls_limiter s, ls_metrics s)
                in s\<lparr>ls_limiter := l', ls_metrics := m',
                     ls_handles := (ls_handles s)[i := (h, True)]\<rparr>
      else s)"

inductive lim_step ::
  "('b, 'r) RateLib \<Rightarrow> (RateConfig option \<Rightarrow> bool) \<Rightarrow> 'b LimSys \<Rightarrow> 'b LimSys \<Rightarrow> bool"
  for rl :: "('b, 'r) RateLib" and adm :: "RateConfig option \<Rightarrow> bool"
where
  acquire_ok: "Acquire rl account (ls_now s) (ls_limiter s, ls_metrics s) = (Inr h, l', m') \<Longrightarrow>
     lim_step rl adm s
       (s\<lparr>ls_limiter := l', ls_metrics := m', ls_handles := ls_handles s @ [(h, False)]\<rparr>)"
| acquire_rejected: "Acquire rl account (ls_now s) (ls_limiter s, ls_metrics s) = (Inl rej, l', m') \<Longrightarrow>
     lim_step rl adm s (s\<lparr>ls_limiter := l', ls_metrics := m'\<rparr>)"
| released: "lim_step rl adm s (call_release i s)"
| updated: "adm cfg \<Longrightarrow>
     lim_step rl adm s (s\<lparr>ls_limiter := Update rl cfg allowed (ls_now s) (ls_limiter s)\<rparr>)"
| clock: "0 \<le> dt \<Longrightarrow> lim_step rl adm s (s\<lparr>ls_now := ls_now s + dt\<rparr>)"

definition lim_init :: "'b LimSys \<Rightarrow> bool" where
  "lim_init s \<longleftrightarrow> ls_limiter s = New \<and> ls_metrics s = [] \<and> ls_handles s = []"

text \<open>The scans of an account that are running: closures not yet called.\<close>

definition open_scans :: "string \<Rightarrow> (Release \<times> bool) list \<Rightarrow> nat" where
  "open_scans account hs = length (filter (\<lambda>(h, fired). \<not> fired \<and> rel_account h = account) hs)"

lemma open_scans_simps [simp]:
  "open_scans a [] = 0"
  "open_scans a (hs @ [(h, False)]) = open_scans a hs + (if rel_account h = a then 1 else 0)"
  by (simp_all add: open_scans_def)

lemma open_scans_fire:
  "i < length hs \<Longrightarrow> hs ! i = (h, False) \<Longrightarrow>
   open_scans a hs = open_scans a (hs[i := (h, True)]) + (if rel_account h = a then 1 else 0)"
proof (induction hs arbitrary: i)
  case Nil
  then show ?case by simp
next
  case (Cons x hs)
  then show ?case by (cases i) (auto simp: open_scans_def)
qed

section \<open>In-flight counts are the running scans\<close>

text \<open>
  The invariant: the accounts are well formed; each closure not yet called points to the state
  registered for its account; the count of a registered account is the number of its running
  scans, and an unregistered account has none; the gauge shows the same number.
\<close>

definition lim_inv :: "'b LimSys \<Rightarrow> bool" where
  "lim_inv s \<longleftrightarrow> limiter_wf (ls_limiter s) \<and>
     (\<forall>h. (h, False) \<in> set (ls_handles s) \<longrightarrow>
        (\<exists>n. view (ls_limiter s) (rel_account h) = Some (rel_st h, n))) \<and>
     (\<forall>a. snd (entry_of (ls_limiter s) a) = int (open_scans a (ls_handles s))) \<and>
     (\<forall>a. inflight_gauge a (ls_metrics s) = int (open_scans a (ls_handles s)))"

lemma entry_of_upd:
  "view l' = (view l)(a \<mapsto> e) \<Longrightarrow> snd (entry_of l' b) = (if b = a then snd e else snd (entry_of l b))"
  by (simp add: entry_of_def split: option.splits)

lemma view_entry_count:
  "view l a = Some (p, n) \<Longrightarrow> snd (entry_of l a) = n"
  by (simp add: entry_of_def)

lemma lim_inv_acquire_ok:
  assumes inv: "lim_inv s"
    and acq: "Acquire rl account now (ls_limiter s, ls_metrics s) = (Inr h, l', m')"
  shows "lim_inv (s\<lparr>ls_limiter := l', ls_metrics := m', ls_handles := ls_handles s @ [(h, False)]\<rparr>)"
proof -
  let ?l = "ls_limiter s"
  from inv have wf: "limiter_wf ?l" by (simp add: lim_inv_def)
  note g = Acquire_granted [OF wf acq]
  have "\<exists>n. view l' (rel_account k) = Some (rel_st k, n)"
    if "(k, False) \<in> set (ls_handles s @ [(h, False)])" for k
  proof (cases "rel_account k = account")
    case False
    with that g inv show ?thesis by (auto simp: lim_inv_def)
  next
    case True
    then have "rel_st k = rel_st h"
      using that g(3,4) inv by (force simp: lim_inv_def entry_of_def)
    with True g(2) show ?thesis by simp
  qed
  moreover have "snd (entry_of l' a) = int (open_scans a (ls_handles s @ [(h, False)]))" for a
    using entry_of_upd [OF g(2)] inv g(3) by (simp add: lim_inv_def)
  moreover have "inflight_gauge a m' = int (open_scans a (ls_handles s @ [(h, False)]))" for a
    using inv g(3,7) by (simp add: lim_inv_def)
  ultimately show ?thesis using g(1) by (simp add: lim_inv_def)
qed

lemma lim_inv_acquire_rejected:
  assumes inv: "lim_inv s"
    and acq: "Acquire rl account now (ls_limiter s, ls_metrics s) = (Inl rej, l', m')"
  shows "lim_inv (s\<lparr>ls_limiter := l', ls_metrics := m'\<rparr>)"
proof -
  let ?l = "ls_limiter s"
  from inv have wf: "limiter_wf ?l" by (simp add: lim_inv_def)
  note r = Acquire_rejected [OF wf acq]
  have "\<exists>n. view l' (rel_account k) = Some (rel_st k, n)"
    if k: "(k, False) \<in> set (ls_handles s)" for k
  proof -
    obtain n where "view ?l (rel_account k) = Some (rel_st k, n)"
      using inv k by (auto simp: lim_inv_def)
    then show ?thesis using r(2) by (auto simp: entry_of_def)
  qed
  moreover have "snd (entry_of l' a) = int (open_scans a (ls_handles s))" for a
    using entry_of_upd [OF r(2), of a] inv by (simp add: lim_inv_def)
  moreover have "inflight_gauge a m' = int (open_scans a (ls_handles s))" for a
    using inv r(5) by (simp add: lim_inv_def)
  ultimately show ?thesis using r(1) by (simp add: lim_inv_def)
qed

lemma call_release_fired: "i < length (ls_handles s) \<Longrightarrow> snd (ls_handles s ! i) \<Longrightarrow> call_release i s = s"
  by (cases "ls_handles s ! i") (simp add: call_release_def)

lemma call_release_fire:
  assumes "i < length (ls_handles s)" "ls_handles s ! i = (h, False)"
    and "release h (ls_limiter s, ls_metrics s) = (l', m')"
  shows "call_release i s =
    s\<lparr>ls_limiter := l', ls_metrics := m', ls_handles := (ls_handles s)[i := (h, True)]\<rparr>"
  using assms by (simp add: call_release_def)

lemma list_update_fired:
  "(k, False) \<in> set (hs[i := (h, True)]) \<Longrightarrow> (k, False) \<in> set hs"
  using set_update_subset_insert [of hs i "(h, True)"] by auto

lemma lim_inv_release:
  assumes inv: "lim_inv s"
  shows "lim_inv (call_release i s)"
proof (cases "i < length (ls_handles s) \<and> \<not> snd (ls_handles s ! i)")
  case False
  then have "call_release i s = s"
    by (auto simp: call_release_def split: prod.splits)
  with inv show ?thesis by simp
next
  case True
  then obtain h where i: "i < length (ls_handles s)" and h: "ls_handles s ! i = (h, False)"
    by (metis prod.collapse)
  let ?l = "ls_limiter s" and ?hs = "(ls_handles s)[i := (h, True)]" and ?a = "rel_account h"
  obtain l' m' where rel: "release h (?l, ls_metrics s) = (l', m')" by fastforce
  have wf: "limiter_wf ?l" using inv by (simp add: lim_inv_def)
  obtain n where reg: "view ?l ?a = Some (rel_st h, n)"
    using inv i h by (metis lim_inv_def nth_mem)
  note r = release_view [OF wf reg rel]
  have cnt: "open_scans a (ls_handles s) = open_scans a ?hs + (if ?a = a then 1 else 0)" for a
    using open_scans_fire [OF i h] .
  have n: "n = int (open_scans ?a (ls_handles s))"
    using inv view_entry_count [OF reg] by (simp add: lim_inv_def)
  have "\<exists>j. view l' (rel_account k) = Some (rel_st k, j)" if k: "(k, False) \<in> set ?hs" for k
  proof -
    obtain j where j: "view ?l (rel_account k) = Some (rel_st k, j)"
      using inv list_update_fired [OF k] by (auto simp: lim_inv_def)
    show ?thesis
    proof (cases "rel_account k = ?a")
      case False
      with j r(2) show ?thesis by simp
    next
      case True
      from k have "open_scans (rel_account k) ?hs \<noteq> 0"
        by (auto simp: open_scans_def filter_empty_conv)
      with n cnt [of ?a] True have "n \<noteq> 1" by simp
      with True j reg r(2) show ?thesis by simp
    qed
  qed
  moreover have "snd (entry_of l' a) = int (open_scans a ?hs)" for a
  proof (cases "a = ?a")
    case True
    with r(2) n cnt [of a] show ?thesis by (auto simp: entry_of_def)
  next
    case False
    with r(2) have "snd (entry_of l' a) = snd (entry_of ?l a)"
      by (simp add: entry_of_def split: option.splits)
    with False inv cnt [of a] show ?thesis by (simp add: lim_inv_def)
  qed
  moreover have "inflight_gauge a m' = int (open_scans a ?hs)" for a
    using inv r(5) n cnt [of a] by (simp add: lim_inv_def)
  ultimately show ?thesis
    using r(1) by (simp add: call_release_fire [OF i h rel] lim_inv_def)
qed

lemma lim_inv_update:
  assumes inv: "lim_inv s"
  shows "lim_inv (s\<lparr>ls_limiter := Update rl cfg allowed now (ls_limiter s)\<rparr>)"
proof -
  let ?l = "ls_limiter s"
  let ?l' = "Update rl cfg allowed now ?l"
  have wf: "limiter_wf ?l" using inv by (simp add: lim_inv_def)
  note u = Update_view [OF wf, of rl cfg allowed now]
  have cnt: "snd (entry_of ?l a) = int (open_scans a (ls_handles s))" for a
    using inv by (simp add: lim_inv_def)
  have "\<exists>j. view ?l' (rel_account k) = Some (rel_st k, j)"
    if k: "(k, False) \<in> set (ls_handles s)" for k
  proof -
    obtain j where j: "view ?l (rel_account k) = Some (rel_st k, j)"
      using inv k by (auto simp: lim_inv_def)
    have "open_scans (rel_account k) (ls_handles s) \<noteq> 0"
      using k by (auto simp: open_scans_def filter_empty_conv)
    with cnt [of "rel_account k"] view_entry_count [OF j] have "j \<noteq> 0" by simp
    with j u(2) show ?thesis by (simp add: survives_def)
  qed
  moreover have "snd (entry_of ?l' a) = int (open_scans a (ls_handles s))" for a
    using cnt [of a] u(2) [of a]
    by (auto simp: entry_of_def survives_def split: option.splits if_splits)
  ultimately show ?thesis using u(1) inv by (simp add: lim_inv_def)
qed

lemma lim_step_inv: "lim_step rl adm s t \<Longrightarrow> lim_inv s \<Longrightarrow> lim_inv t"
proof (induction rule: lim_step.induct)
  case (acquire_ok account s h l' m')
  then show ?case by (intro lim_inv_acquire_ok)
next
  case (acquire_rejected account s rej l' m')
  then show ?case by (intro lim_inv_acquire_rejected)
next
  case (released s i)
  then show ?case by (rule lim_inv_release)
next
  case (updated cfg s allowed)
  then show ?case by (intro lim_inv_update)
next
  case (clock dt s)
  then show ?case by (simp add: lim_inv_def)
qed

interpretation lim_sys: inductive_invariant lim_init "lim_step rl adm" lim_inv
proof unfold_locales
  fix s :: "'a LimSys"
  assume "lim_init s"
  then show "lim_inv s" by (simp add: lim_init_def lim_inv_def entry_of_def)
next
  fix s t :: "'a LimSys"
  assume "lim_inv s" "lim_step rl adm s t"
  then show "lim_inv t" by (auto intro: lim_step_inv)
qed

text \<open>
  C11: in every interleaving of \<open>Acquire\<close>, release calls (repeated ones included), reloads and
  passing time, the in-flight count the limiter keeps for an account is the number of its scans
  that are running, never negative, and so is the gauge; and every running scan holds the
  state that is registered for its account, so its release will reach the right counter.
\<close>

theorem inflight_counts_running_scans:
  assumes "reachable_from lim_init (lim_step rl adm) s"
  shows "snd (entry_of (ls_limiter s) account) = int (open_scans account (ls_handles s)) \<and>
    inflight_gauge account (ls_metrics s) = int (open_scans account (ls_handles s)) \<and>
    (\<forall>h. (h, False) \<in> set (ls_handles s) \<longrightarrow>
      map_of (lm_accounts (ls_limiter s)) (rel_account h) = Some (rel_st h))"
proof -
  from assms have "lim_inv s" by (rule lim_sys.reachable_inv)
  then show ?thesis by (fastforce simp: lim_inv_def view_Some_iff)
qed

text \<open>
  C12: the concurrency limit holds exactly. In every reachable state, \<open>Acquire\<close> refuses for
  concurrency precisely when the account already has as many running scans as its limit (and
  the limit is not 0), naming that limit and a retry after one second; any other refusal is for
  the rate and names the requests per minute; and when it grants, the scans then running, this one
  included, are within the limit.
\<close>

theorem Acquire_respects_limit:
  assumes "reachable_from lim_init (lim_step rl adm) s"
    and "lim_MaxConcurrent (effective_limits (lm_cfg (ls_limiter s)) account) = k"
  shows "case Acquire rl account now (ls_limiter s, ls_metrics s) of
      (Inl rej, _) \<Rightarrow>
        (rej_Reason rej = ReasonConcurrency) = (0 < k \<and> k \<le> int (open_scans account (ls_handles s))) \<and>
        (if rej_Reason rej = ReasonConcurrency then rej_Limit rej = k \<and> rej_RetryAfter rej = 1000000000
         else rej_Reason rej = ReasonRate \<and>
           rej_Limit rej = lim_RequestsPerMinute (effective_limits (lm_cfg (ls_limiter s)) account))
    | (Inr h, _) \<Rightarrow> k \<le> 0 \<or> int (open_scans account (ls_handles s @ [(h, False)])) \<le> k"
proof -
  have inv: "lim_inv s" using assms(1) by (rule lim_sys.reachable_inv)
  then have wf: "limiter_wf (ls_limiter s)"
    and cnt: "snd (entry_of (ls_limiter s) account) = int (open_scans account (ls_handles s))"
    by (simp_all add: lim_inv_def)
  obtain res l' m' where acq: "Acquire rl account now (ls_limiter s, ls_metrics s) = (res, l', m')"
    by (metis prod_cases3)
  show ?thesis
  proof (cases res)
    case (Inl rej)
    with acq Acquire_rejected [OF wf, of rl account now "ls_metrics s" rej l' m'] cnt assms(2)
      Acquire_rejection [of rl account now "ls_limiter s" "ls_metrics s" rej l' m']
    show ?thesis by (auto simp: Second_def)
  next
    case (Inr h)
    with acq Acquire_granted [OF wf, of rl account now "ls_metrics s" h l' m'] cnt assms(2)
    show ?thesis by auto
  qed
qed

text \<open>
  C25: calling a release closure again changes nothing, whatever happened in between: a slot is
  given back once.
\<close>

theorem release_idempotent:
  assumes "i < length (ls_handles s)"
    and "(lim_step rl adm)\<^sup>*\<^sup>* (call_release i s) t"
  shows "call_release i t = t"
proof -
  have "i < length (ls_handles t) \<and> snd (ls_handles t ! i)"
    using assms(2)
  proof (induction rule: rtranclp_induct)
    case base
    show ?case using assms(1) by (auto simp: call_release_def split: prod.splits)
  next
    case (step u v)
    from step.hyps(2) step.IH show ?case
    proof (cases rule: lim_step.cases)
      case (released j)
      with step.IH show ?thesis
        by (cases "i = j") (auto simp: call_release_def split: prod.splits)
    qed (auto simp: nth_append)
  qed
  then show ?thesis by (intro call_release_fired) auto
qed

section \<open>The middleware's interface\<close>

text \<open>The limiter, at one moment, is a pool of slots.\<close>

definition pool_acquire ::
  "('b, 'r) RateLib \<Rightarrow> gotime \<Rightarrow> string \<Rightarrow> 'b Limiter \<times> Metrics \<Rightarrow>
   (Rejection + Release) \<times> 'b Limiter \<times> Metrics" where
  "pool_acquire rl now account lm = Acquire rl account now lm"

definition pool_slots :: "'b Limiter \<times> Metrics \<Rightarrow> string \<Rightarrow> int" where
  "pool_slots lm account = snd (entry_of (fst lm) account)"

definition pool_valid :: "'b Limiter \<times> Metrics \<Rightarrow> bool" where
  "pool_valid lm = limiter_wf (fst lm)"

definition pool_owns :: "'b Limiter \<times> Metrics \<Rightarrow> Release \<Rightarrow> string \<Rightarrow> bool" where
  "pool_owns lm h account \<longleftrightarrow>
     rel_account h = account \<and> (\<exists>n. view (fst lm) account = Some (rel_st h, n))"

lemma entry_of_same:
  "view l' = (view l)(a \<mapsto> entry_of l a) \<Longrightarrow> snd (entry_of l' b) = snd (entry_of l b)"
  by (simp add: entry_of_upd)

interpretation pool: slot_pool "pool_acquire rl now" release pool_slots pool_valid pool_owns
proof unfold_locales
  fix a j and s s' :: "'a Limiter \<times> Metrics"
  assume v: "pool_valid s" and acq: "pool_acquire rl now a s = (Inl j, s')"
  obtain l m l' m' where s: "s = (l, m)" "s' = (l', m')" by fastforce
  with v acq have wf: "limiter_wf l" and "Acquire rl a now (l, m) = (Inl j, l', m')"
    by (simp_all add: pool_valid_def pool_acquire_def)
  note r = Acquire_rejected [OF this]
  show "pool_valid s' \<and> pool_slots s' = pool_slots s"
    using r(1) entry_of_same [OF r(2)] by (auto simp: s pool_valid_def pool_slots_def)
next
  fix a h and s s' :: "'a Limiter \<times> Metrics"
  assume v: "pool_valid s" and acq: "pool_acquire rl now a s = (Inr h, s')"
  obtain l m l' m' where s: "s = (l, m)" "s' = (l', m')" by fastforce
  with v acq have wf: "limiter_wf l" and "Acquire rl a now (l, m) = (Inr h, l', m')"
    by (simp_all add: pool_valid_def pool_acquire_def)
  note g = Acquire_granted [OF this]
  show "pool_valid s' \<and> pool_slots s' = (pool_slots s)(a := pool_slots s a + 1) \<and> pool_owns s' h a"
    using g(1,3) g(2) entry_of_upd [OF g(2)]
    by (auto simp: s pool_valid_def pool_slots_def pool_owns_def)
next
  fix a h and s :: "'a Limiter \<times> Metrics"
  assume v: "pool_valid s" and own: "pool_owns s h a"
  obtain l m where s: "s = (l, m)" by fastforce
  obtain l' m' where rel: "release h (l, m) = (l', m')" by fastforce
  from own obtain n where a: "rel_account h = a" and n: "view l a = Some (rel_st h, n)"
    by (auto simp: s pool_owns_def)
  have wf: "limiter_wf l" using v by (simp add: s pool_valid_def)
  note r = release_view [OF wf n [folded a] rel]
  have "snd (entry_of l' b) = (if b = a then n - 1 else snd (entry_of l b))" for b
    using r(2) a by (auto simp: entry_of_def split: option.splits)
  moreover have "snd (entry_of l a) = n" using n by (simp add: entry_of_def)
  ultimately show "pool_valid (release h s) \<and>
      pool_slots (release h s) = (pool_slots s)(a := pool_slots s a - 1)"
    using r(1) rel by (auto simp: s pool_valid_def pool_slots_def)
qed

section \<open>No state outlives its account\<close>

text \<open>Documented of \<open>rate.Limiter\<close>: the bucket starts full.\<close>

definition fresh_admits :: "('b, 'r) RateLib \<Rightarrow> bool" where
  "fresh_admits rl \<longleftrightarrow>
     (\<forall>r b now. 0 < r \<and> 1 \<le> b \<longrightarrow>
        rl_OK rl (fst (rl_ReserveN rl now 1 (rl_NewLimiter rl r b))) \<and>
        rl_DelayFrom rl now (fst (rl_ReserveN rl now 1 (rl_NewLimiter rl r b))) \<le> 0)"

text \<open>\<open>Allowlist.load\<close>, the only caller of \<open>Update\<close>, passes validated configurations.\<close>

definition validated :: "RateConfig option \<Rightarrow> bool" where
  "validated cfg = (case cfg of None \<Rightarrow> True | Some c \<Rightarrow> rate_Validate c = None)"

lemma validated_limits: "validated cfg \<Longrightarrow> limits_ok (effective_limits cfg account)"
  by (auto simp: validated_def effective_limits_def zero_limits_def limits_ok_def
      dest: For_valid [of _ account, unfolded limits_ok_def] split: option.splits)

lemma take_token_outcome:
  "fst (take_token rl t (Some b)) =
     (let r = fst (rl_ReserveN rl t 1 b)
      in if \<not> rl_OK rl r \<or> rl_DelayFrom rl t r > 0 then Some (rl_DelayFrom rl t r) else None)"
  by (simp add: take_token_def Let_def split: prod.splits)

lemma new_account_rate:
  assumes "view l account = None" "find_or_create rl account now l = (p, l1)"
  shows "lm_heap l1 p = \<lparr>st_inflight = 0, st_rate =
    (let limits = effective_limits (lm_cfg l) account
     in if lim_RequestsPerMinute limits = 0 then None
        else Some (rl_NewLimiter rl (tokens_per_second limits) (lim_Burst limits)))\<rparr>"
  using assms
  by (auto simp: find_or_create_def view_def applyRate_def set_state_def Let_def)

lemma new_account_granted:
  assumes fresh: "fresh_admits rl" and valid: "validated (lm_cfg l)" and wf: "limiter_wf l"
    and none: "view l account = None"
  shows "\<exists>h l' m'. Acquire rl account now (l, m) = (Inr h, l', m')"
proof -
  obtain p l1 where fc: "find_or_create rl account now l = (p, l1)" by fastforce
  let ?lim = "effective_limits (lm_cfg l) account"
  have ok: "limits_ok ?lim" using valid by (rule validated_limits)
  note heap = new_account_rate [OF none fc] and cfg = find_or_create_frame(1) [OF fc]
  have "fst (take_token rl now (st_rate (lm_heap l1 p))) = None"
  proof (cases "lim_RequestsPerMinute ?lim = 0")
    case True
    then show ?thesis by (simp add: heap take_token_def)
  next
    case False
    with ok have "0 < tokens_per_second ?lim" "1 \<le> lim_Burst ?lim"
      by (auto simp: limits_ok_def tokens_per_second_def intro!: rnd64_pos divide_pos_pos)
    with fresh have "rl_OK rl (fst (rl_ReserveN rl now 1
          (rl_NewLimiter rl (tokens_per_second ?lim) (lim_Burst ?lim))))"
      "rl_DelayFrom rl now (fst (rl_ReserveN rl now 1
          (rl_NewLimiter rl (tokens_per_second ?lim) (lim_Burst ?lim)))) \<le> 0"
      unfolding fresh_admits_def by blast+
    with False show ?thesis by (simp add: heap take_token_outcome Let_def)
  qed
  then obtain rate where tok: "take_token rl now (st_rate (lm_heap l1 p)) = (None, rate)"
    by (metis prod.collapse)
  have "st_inflight (lm_heap l1 p) = 0" by (simp add: heap)
  with tok show ?thesis by (simp add: Acquire_def fc cfg Let_def)
qed

definition bounded_inv :: "'b LimSys \<Rightarrow> bool" where
  "bounded_inv s \<longleftrightarrow> lim_inv s \<and> validated (lm_cfg (ls_limiter s)) \<and>
     (\<forall>a p n. view (ls_limiter s) a = Some (p, n) \<longrightarrow>
        n \<noteq> 0 \<or> lm_allowed (ls_limiter s) = None \<or> is_allowed (lm_allowed (ls_limiter s)) a)"

lemma bounded_step:
  assumes fresh: "fresh_admits rl" and inv: "bounded_inv s"
    and step: "lim_step rl validated s t"
  shows "bounded_inv t"
proof -
  let ?l = "ls_limiter s"
  have li: "lim_inv t" using step inv by (auto simp: bounded_inv_def intro: lim_step_inv)
  have wf: "limiter_wf ?l" and val: "validated (lm_cfg ?l)"
    and bnd: "\<And>a p n. view ?l a = Some (p, n) \<Longrightarrow>
      n \<noteq> 0 \<or> lm_allowed ?l = None \<or> is_allowed (lm_allowed ?l) a"
    using inv by (auto simp: bounded_inv_def lim_inv_def)
  from step show ?thesis
  proof (cases rule: lim_step.cases)
    case (acquire_ok account h l' m')
    note g = Acquire_granted [OF wf acquire_ok(2)]
    have "snd (entry_of ?l account) + 1 \<noteq> 0"
      using inv by (simp add: bounded_inv_def lim_inv_def)
    with acquire_ok(1) li val bnd g(2,5,6) show ?thesis by (auto simp: bounded_inv_def)
  next
    case (acquire_rejected account rej l' m')
    note r = Acquire_rejected [OF wf acquire_rejected(2)]
    have "view ?l account \<noteq> None"
    proof
      assume "view ?l account = None"
      from new_account_granted [OF fresh val wf this, of "ls_now s" "ls_metrics s"]
      show False using acquire_rejected(2) by simp
    qed
    then have "view l' = view ?l" using r(2) by (auto simp: entry_of_def)
    with acquire_rejected(1) li val bnd r(3,4) show ?thesis by (auto simp: bounded_inv_def)
  next
    case (released i)
    show ?thesis
    proof (cases "i < length (ls_handles s) \<and> \<not> snd (ls_handles s ! i)")
      case False
      then have "t = s" using released by (auto simp: call_release_def split: prod.splits)
      with inv show ?thesis by simp
    next
      case True
      then obtain h where i: "i < length (ls_handles s)" and h: "ls_handles s ! i = (h, False)"
        by (metis prod.collapse)
      obtain l' m' where rel: "release h (?l, ls_metrics s) = (l', m')" by fastforce
      obtain n where reg: "view ?l (rel_account h) = Some (rel_st h, n)"
        using inv i h by (metis bounded_inv_def lim_inv_def nth_mem)
      note r = release_view [OF wf reg rel]
      from released call_release_fire [OF i h rel] have "ls_limiter t = l'" by simp
      with li val bnd r(2-4) show ?thesis by (auto simp: bounded_inv_def split: if_splits)
    qed
  next
    case (updated cfg allowed)
    note u = Update_view [OF wf, of rl cfg allowed "ls_now s"]
    with updated li show ?thesis
      by (auto simp: bounded_inv_def survives_def split: option.splits if_splits)
  next
    case (clock dt)
    with li val bnd show ?thesis by (auto simp: bounded_inv_def)
  qed
qed

text \<open>
  C23: the account map does not grow without bound. With validated configurations, and buckets
  that start full, every account the limiter holds state for is either on the allowlist of the
  last load or has a scan running; state of removed accounts is gone once they are idle.
\<close>

theorem accounts_bounded_by_allowlist:
  assumes "fresh_admits rl"
    and "reachable_from lim_init (lim_step rl validated) s"
    and "lm_allowed (ls_limiter s) = Some allowed"
    and "account \<in> fst ` set (lm_accounts (ls_limiter s))"
  shows "allowed account \<or> 0 < open_scans account (ls_handles s)"
proof -
  from assms(2) have "bounded_inv s"
  proof (induction rule: reachable_from.induct)
    case (start s)
    then show ?case
      using lim_sys.inv_init
      by (auto simp: bounded_inv_def lim_init_def validated_def New_def view_def)
  next
    case (move s t)
    then show ?case using assms(1) by (blast intro: bounded_step)
  qed
  obtain p where "map_of (lm_accounts (ls_limiter s)) account = Some p"
    using assms(4) by (cases "map_of (lm_accounts (ls_limiter s)) account")
      (auto simp: map_of_eq_None_iff)
  then obtain n where n: "view (ls_limiter s) account = Some (p, n)" by (simp add: view_def)
  have "n = int (open_scans account (ls_handles s))"
    using \<open>bounded_inv s\<close> view_entry_count [OF n] by (simp add: bounded_inv_def lim_inv_def)
  then show ?thesis
    using \<open>bounded_inv s\<close> n assms(3) by (auto simp: bounded_inv_def is_allowed_def)
qed

section \<open>A refused request uses nothing up\<close>

text \<open>The token bucket of an account, or the one it would be given; none without a rate limit.\<close>

definition bucket_of :: "('b, 'r) RateLib \<Rightarrow> 'b Limiter \<Rightarrow> string \<Rightarrow> 'b option" where
  "bucket_of rl l account =
     (case map_of (lm_accounts l) account of
        Some p \<Rightarrow> st_rate (lm_heap l p)
      | None \<Rightarrow>
          let limits = effective_limits (lm_cfg l) account
          in if lim_RequestsPerMinute limits = 0 then None
             else Some (rl_NewLimiter rl (tokens_per_second limits) (lim_Burst limits)))"

lemma bucket_of_set_state:
  assumes "limiter_wf l" "map_of (lm_accounts l) account = Some p"
  shows "bucket_of rl (set_state p st l) = (bucket_of rl l)(account := st_rate st)"
proof
  fix a
  have "map_of (lm_accounts l) a = Some p \<Longrightarrow> a = account"
    using assms map_of_address_inj [of "lm_accounts l" a p account] by (simp add: limiter_wf_def)
  with assms(2) show "bucket_of rl (set_state p st l) a = ((bucket_of rl l)(account := st_rate st)) a"
    by (cases "map_of (lm_accounts l) a") (auto simp: bucket_of_def set_state_def)
qed

lemma find_or_create_bucket:
  assumes wf: "limiter_wf l" and fc: "find_or_create rl account now l = (p, l1)"
  shows "bucket_of rl l1 = bucket_of rl l" "bucket_of rl l account = st_rate (lm_heap l1 p)"
proof -
  have "bucket_of rl l1 = bucket_of rl l \<and> bucket_of rl l account = st_rate (lm_heap l1 p)"
  proof (cases "map_of (lm_accounts l) account")
    case (Some q)
    with fc show ?thesis by (auto simp: find_or_create_def bucket_of_def)
  next
    case None
    then have none: "view l account = None" by (simp add: view_def)
    note heap = new_account_rate [OF none fc]
    have p: "p = lm_next l" "lm_accounts l1 = (account, p) # lm_accounts l" "lm_cfg l1 = lm_cfg l"
      using fc None by (auto simp: find_or_create_def Let_def frame_simps)
    have other: "lm_heap l1 q = lm_heap l q" if "q \<noteq> p" for q
      using fc None that
      by (auto simp: find_or_create_def applyRate_def set_state_def Let_def split: option.splits if_splits)
    have "q \<noteq> p" if "map_of (lm_accounts l) b = Some q" for b q
      using wf that p(1) by (force simp: limiter_wf_def dest: map_of_SomeD)
    then have "bucket_of rl l1 a = bucket_of rl l a" for a
      using None other p(2,3) heap
      by (cases "a = account") (auto simp: bucket_of_def Let_def split: option.split)
    then have "bucket_of rl l1 = bucket_of rl l" by (rule ext)
    with None heap show ?thesis by (simp add: bucket_of_def Let_def)
  qed
  then show "bucket_of rl l1 = bucket_of rl l" "bucket_of rl l account = st_rate (lm_heap l1 p)"
    by blast+
qed

lemma take_token_refused:
  assumes "take_token rl now rate = (Some delay, rate')"
  shows "\<exists>b r b1. rate = Some b \<and> rl_ReserveN rl now 1 b = (r, b1) \<and>
    (\<not> rl_OK rl r \<or> 0 < rl_DelayFrom rl now r) \<and> delay = rl_DelayFrom rl now r \<and>
    rate' = Some (rl_CancelAt rl now r b1)"
proof (cases rate)
  case None
  with assms show ?thesis by (simp add: take_token_def)
next
  case (Some b)
  obtain r b1 where "rl_ReserveN rl now 1 b = (r, b1)" by fastforce
  with assms Some show ?thesis by (auto simp: take_token_def Let_def split: if_splits)
qed

text \<open>
  C24: a refused request takes no slot and keeps no reservation. Every in-flight count stays as it
  was, and the refusal is recorded. A refusal for concurrency leaves the whole limiter as it was,
  so nothing is reserved. A refusal for rate reserved one token in the account's bucket (a new one for an
  account not seen before), could not have it at once, and cancelled that same reservation at the
  same moment: this is all that happens to the buckets, and the refusal carries the reservation's
  delay. What cancelling gives back is up to the library.
\<close>

theorem rejection_uses_nothing:
  assumes "Acquire rl account now (l, m) = (Inl rej, l', m')" and "limiter_wf l"
  shows "m' = RecordRateLimitRejected account (rej_Reason rej) m \<and>
    (\<forall>a. snd (entry_of l' a) = snd (entry_of l a)) \<and>
    (rej_Reason rej = ReasonConcurrency \<and> l' = l \<or>
     rej_Reason rej = ReasonRate \<and>
       (\<exists>b r b1. bucket_of rl l account = Some b \<and> rl_ReserveN rl now 1 b = (r, b1) \<and>
          (\<not> rl_OK rl r \<or> 0 < rl_DelayFrom rl now r) \<and> rej_RetryAfter rej = rl_DelayFrom rl now r \<and>
          bucket_of rl l' = (bucket_of rl l)(account \<mapsto> rl_CancelAt rl now r b1)))"
proof -
  note r = Acquire_rejected [OF assms(2,1)]
  have counts: "\<forall>a. snd (entry_of l' a) = snd (entry_of l a)" using entry_of_same [OF r(2)] by blast
  obtain p l1 where fc: "find_or_create rl account now l = (p, l1)" by fastforce
  note foc = find_or_create_view [OF assms(2) fc] and bk = find_or_create_bucket [OF assms(2) fc]
  show ?thesis
  proof (cases "rej_Reason rej = ReasonConcurrency")
    case True
    with r(7) have "view l account \<noteq> None" by (auto simp: entry_of_def split: option.splits)
    then have "l1 = l" using fc by (auto simp: find_or_create_def view_def split: option.splits)
    moreover from True have "l' = l1"
      using assms(1) by (auto simp: Acquire_def fc Let_def split: if_splits option.splits prod.splits)
    ultimately show ?thesis using r(5) counts True by blast
  next
    case False
    obtain res rate where tok: "take_token rl now (st_rate (lm_heap l1 p)) = (res, rate)" by fastforce
    obtain delay where res: "res = Some delay" and rej: "rej_RetryAfter rej = delay"
      and l': "l' = set_state p (lm_heap l1 p\<lparr>st_rate := rate\<rparr>) l1"
      using assms(1) False by (auto simp: Acquire_def fc tok Let_def split: if_splits option.splits)
    from take_token_refused [OF tok [unfolded res]] obtain b rv b1
      where b: "st_rate (lm_heap l1 p) = Some b" "rl_ReserveN rl now 1 b = (rv, b1)"
        "\<not> rl_OK rl rv \<or> 0 < rl_DelayFrom rl now rv" "delay = rl_DelayFrom rl now rv"
        "rate = Some (rl_CancelAt rl now rv b1)"
      by blast
    have "bucket_of rl l' = (bucket_of rl l)(account \<mapsto> rl_CancelAt rl now rv b1)"
      by (simp add: bucket_of_set_state [OF foc(1,2)] l' bk(1) b(5))
    moreover have "bucket_of rl l account = Some b" using bk(2) b(1) by simp
    moreover have "rej_Reason rej = ReasonRate" using r(6) False by simp
    ultimately have "rej_Reason rej = ReasonRate \<and>
       (\<exists>b r b1. bucket_of rl l account = Some b \<and> rl_ReserveN rl now 1 b = (r, b1) \<and>
          (\<not> rl_OK rl r \<or> 0 < rl_DelayFrom rl now r) \<and> rej_RetryAfter rej = rl_DelayFrom rl now r \<and>
          bucket_of rl l' = (bucket_of rl l)(account \<mapsto> rl_CancelAt rl now r b1))"
      using b rej by blast
    with r(5) counts show ?thesis by blast
  qed
qed

end
