(* ===== verification/Allowlist.thy ===== *)
theory Allowlist
  imports World Limiter_System Go_Strings
begin

text \<open>
  The allowlist (\<open>internal/auth/allowlist.go\<close>): a set of "namespace/serviceaccount" names read
  from a YAML file, reloaded when the file changes, which also hands the file's rate limits to
  the limiter. The YAML parser is outside the repository: \<open>yaml\<close> gives the configuration a text
  stands for, or \<open>None\<close>. So is the file watcher: its notifications are the events below.
\<close>

section \<open>Data\<close>

record AllowlistConfig =
  ac_Allowlist :: "string list"
  ac_RateLimits :: "RateConfig option"

datatype WatcherState = NoWatcher | Watching | WatcherClosed

record Allowlist =
  al_entries :: "string \<Rightarrow> bool"
  al_filePath :: string
  al_watcher :: WatcherState
  al_stopped :: bool  \<comment> \<open>\<open>stopCh\<close> is closed\<close>

datatype LoadError =
    AllowlistUnreadable OSError
  | AllowlistUnparseable
  | AllowlistInvalid RateConfigError

text \<open>A file system notification carries a set of operations; the channels may be closed.\<close>

datatype FsOp = FsCreate | FsWrite | FsRemove | FsRename | FsChmod

datatype FsNotice =
    FsEvent "FsOp list"
  | FsError string
  | FsEventsClosed
  | FsErrorsClosed
  | StopSignal

section \<open>Operations\<close>

definition allowlist_load ::
  "('b, 'r) RateLib \<Rightarrow> (string \<Rightarrow> AllowlistConfig option) \<Rightarrow> World \<Rightarrow>
   Allowlist \<times> 'b Limiter option \<Rightarrow> LoadError option \<times> Allowlist \<times> 'b Limiter option" where
  "allowlist_load rl yaml w al =
     (let (a, lm) = al
      in case os_ReadFile (al_filePath a) w of
           Inl e \<Rightarrow> (Some (AllowlistUnreadable e), a, lm)
         | Inr text \<Rightarrow>
             (case yaml text of
                None \<Rightarrow> (Some AllowlistUnparseable, a, lm)
              | Some config \<Rightarrow>
                  (let entries = mkset (ac_Allowlist config);
                       invalid = (case ac_RateLimits config of None \<Rightarrow> None | Some c \<Rightarrow> rate_Validate c)
                   in case invalid of
                        Some e \<Rightarrow> (Some (AllowlistInvalid e), a, lm)
                      | None \<Rightarrow>
                          (None, a\<lparr>al_entries := entries\<rparr>,
                           map_option
                             (\<lambda>l. Update rl (ac_RateLimits config) (Some entries) (w_now w) l) lm))))"

definition NewAllowlistWithLimiter ::
  "('b, 'r) RateLib \<Rightarrow> (string \<Rightarrow> AllowlistConfig option) \<Rightarrow> string \<Rightarrow> 'b Limiter option \<Rightarrow> World \<Rightarrow>
   LoadError + Allowlist \<times> 'b Limiter option" where
  "NewAllowlistWithLimiter rl yaml filePath lm w =
     (let a = \<lparr>al_entries = (\<lambda>_. False), al_filePath = filePath, al_watcher = NoWatcher,
               al_stopped = False\<rparr>
      in case allowlist_load rl yaml w (a, lm) of
           (Some e, _) \<Rightarrow> Inl e
         | (None, al) \<Rightarrow> Inr al)"

definition NewAllowlist ::
  "('b, 'r) RateLib \<Rightarrow> (string \<Rightarrow> AllowlistConfig option) \<Rightarrow> string \<Rightarrow> World \<Rightarrow>
   LoadError + Allowlist \<times> 'b Limiter option" where
  "NewAllowlist rl yaml filePath w = NewAllowlistWithLimiter rl yaml filePath None w"

definition account_key :: "string \<Rightarrow> string \<Rightarrow> string" where
  "account_key namespace serviceAccount = namespace @ ''/'' @ serviceAccount"

definition IsAllowed :: "Allowlist \<Rightarrow> string \<Rightarrow> string \<Rightarrow> bool" where
  "IsAllowed a namespace serviceAccount = al_entries a (account_key namespace serviceAccount)"

text \<open>\<open>Watch\<close>: \<open>new_ok\<close> and \<open>add_ok\<close> are the watcher library's answers.\<close>

datatype WatchError = NewWatcherFailed | AddWatchFailed

definition allowlist_Watch :: "bool \<Rightarrow> bool \<Rightarrow> Allowlist \<Rightarrow> WatchError option \<times> Allowlist" where
  "allowlist_Watch new_ok add_ok a =
     (if \<not> new_ok then (Some NewWatcherFailed, a)
      else if \<not> add_ok then (Some AddWatchFailed, a\<lparr>al_watcher := WatcherClosed\<rparr>)
      else (None, a\<lparr>al_watcher := Watching\<rparr>))"

text \<open>One turn of the watch goroutine's loop: whether it goes on, and the new state.\<close>

definition watch_turn ::
  "('b, 'r) RateLib \<Rightarrow> (string \<Rightarrow> AllowlistConfig option) \<Rightarrow> FsNotice \<Rightarrow> World \<Rightarrow>
   Allowlist \<times> 'b Limiter option \<Rightarrow> bool \<times> Allowlist \<times> 'b Limiter option" where
  "watch_turn rl yaml notice w al =
     (case notice of
        FsEvent ops \<Rightarrow>
          if FsWrite \<in> set ops \<or> FsCreate \<in> set ops
          then (True, snd (allowlist_load rl yaml w al)) else (True, al)
      | FsError e \<Rightarrow> (True, al)
      | FsEventsClosed \<Rightarrow> (False, al)
      | FsErrorsClosed \<Rightarrow> (False, al)
      | StopSignal \<Rightarrow> (False, al))"

text \<open>The goroutine's run over the notices it receives, each with the world at that moment.\<close>

fun watch_run ::
  "('b, 'r) RateLib \<Rightarrow> (string \<Rightarrow> AllowlistConfig option) \<Rightarrow> (FsNotice \<times> World) list \<Rightarrow>
   Allowlist \<times> 'b Limiter option \<Rightarrow> Allowlist \<times> 'b Limiter option" where
  "watch_run rl yaml [] al = al"
| "watch_run rl yaml ((notice, w) # ns) al =
     (case watch_turn rl yaml notice w al of
        (True, al') \<Rightarrow> watch_run rl yaml ns al'
      | (False, al') \<Rightarrow> al')"

text \<open>Closing twice closes a closed channel: a panic, \<open>None\<close>.\<close>

definition allowlist_Close :: "Allowlist \<Rightarrow> Allowlist option" where
  "allowlist_Close a =
     (if al_stopped a then None
      else Some (a\<lparr>al_stopped := True,
                   al_watcher := (if al_watcher a = NoWatcher then NoWatcher else WatcherClosed)\<rparr>))"

section \<open>What a load does\<close>

text \<open>The content of a file is acceptable when it parses and its limits are valid.\<close>

definition acceptable :: "(string \<Rightarrow> AllowlistConfig option) \<Rightarrow> string \<Rightarrow> World \<Rightarrow> AllowlistConfig option" where
  "acceptable yaml path w =
     (case os_ReadFile path w of
        Inl _ \<Rightarrow> None
      | Inr text \<Rightarrow>
          (case yaml text of
             None \<Rightarrow> None
           | Some c \<Rightarrow> if validated (ac_RateLimits c) then Some c else None))"

lemma load_cases:
  "snd (allowlist_load rl yaml w (a, lm)) =
     (case acceptable yaml (al_filePath a) w of
        None \<Rightarrow> (a, lm)
      | Some c \<Rightarrow> (a\<lparr>al_entries := mkset (ac_Allowlist c)\<rparr>,
          map_option (\<lambda>l. Update rl (ac_RateLimits c) (Some (mkset (ac_Allowlist c))) (w_now w) l) lm))"
  by (auto simp: allowlist_load_def acceptable_def validated_def Let_def
      split: sum.splits option.splits)

lemma load_fails_iff:
  "fst (allowlist_load rl yaml w (a, lm)) = None \<longleftrightarrow> acceptable yaml (al_filePath a) w \<noteq> None"
  by (auto simp: allowlist_load_def acceptable_def validated_def Let_def
      split: sum.splits option.splits)

text \<open>
  C18: a load is all or nothing. If the file cannot be read or parsed, or its limits are invalid,
  the load reports an error and leaves the entries and the limiter exactly as they were; otherwise it
  succeeds, a service account is allowed afterwards exactly when the file lists its
  "namespace/name", and the limiter has the limits and the entries of the same file.
\<close>

theorem load_atomic:
  "case allowlist_load rl yaml w (a, lm) of
     (Some e, a', lm') \<Rightarrow> a' = a \<and> lm' = lm \<and> acceptable yaml (al_filePath a) w = None
   | (None, a', lm') \<Rightarrow>
       (\<exists>c. acceptable yaml (al_filePath a) w = Some c \<and> validated (ac_RateLimits c) \<and>
          (\<forall>ns n. IsAllowed a' ns n = (account_key ns n \<in> set (ac_Allowlist c))) \<and>
          (case lm' of None \<Rightarrow> lm = None
           | Some l' \<Rightarrow> lm \<noteq> None \<and> lm_cfg l' = ac_RateLimits c \<and>
               lm_allowed l' = Some (mkset (ac_Allowlist c))))"
proof -
  obtain e a' lm' where load: "allowlist_load rl yaml w (a, lm) = (e, a', lm')" by (metis prod_cases3)
  note snd = load_cases [of rl yaml w a lm, unfolded load]
    and fst = load_fails_iff [of rl yaml w a lm, unfolded load]
  show ?thesis
  proof (cases "acceptable yaml (al_filePath a) w")
    case None
    with snd fst show ?thesis by (auto simp: load split: option.splits)
  next
    case (Some c)
    then have "validated (ac_RateLimits c)"
      by (auto simp: acceptable_def split: sum.splits option.splits if_splits)
    with Some snd fst show ?thesis
      by (auto simp: load IsAllowed_def Update_config split: option.splits)
  qed
qed

section \<open>Reloads\<close>

definition reloads :: "FsNotice \<Rightarrow> bool" where
  "reloads notice \<longleftrightarrow> (case notice of FsEvent ops \<Rightarrow> FsWrite \<in> set ops \<or> FsCreate \<in> set ops | _ \<Rightarrow> False)"

definition ends_watch :: "FsNotice \<Rightarrow> bool" where
  "ends_watch notice \<longleftrightarrow> notice \<in> {FsEventsClosed, FsErrorsClosed, StopSignal}"

text \<open>The configurations the watcher accepts, in order, until it ends.\<close>

definition accepted ::
  "(string \<Rightarrow> AllowlistConfig option) \<Rightarrow> string \<Rightarrow> (FsNotice \<times> World) list \<Rightarrow> AllowlistConfig list" where
  "accepted yaml path ns =
     List.map_filter (\<lambda>(n, w). if reloads n then acceptable yaml path w else None)
       (takeWhile (\<lambda>(n, w). \<not> ends_watch n) ns)"

lemma watch_turn_cases:
  "watch_turn rl yaml n w (a, lm) =
     (\<not> ends_watch n,
      if reloads n then snd (allowlist_load rl yaml w (a, lm)) else (a, lm))"
  by (cases n) (auto simp: watch_turn_def ends_watch_def reloads_def)

text \<open>
  C19: whatever notifications arrive, the entries in force are those of the last acceptable version of the
  file that was loaded: a reload of a broken or missing file changes nothing, and nothing
  changes after the watcher has ended.
\<close>

theorem watch_keeps_last_good:
  "al_entries (fst (watch_run rl yaml ns (a, lm))) =
     (if accepted yaml (al_filePath a) ns = [] then al_entries a
      else mkset (ac_Allowlist (last (accepted yaml (al_filePath a) ns)))) \<and>
   al_filePath (fst (watch_run rl yaml ns (a, lm))) = al_filePath a"
proof (induction ns arbitrary: a lm)
  case Nil
  then show ?case by (simp add: accepted_def List.map_filter_simps)
next
  case (Cons x ns)
  obtain n w where x: "x = (n, w)" by fastforce
  obtain a1 lm1 where load: "snd (allowlist_load rl yaml w (a, lm)) = (a1, lm1)" by fastforce
  have path: "al_filePath a1 = al_filePath a"
    and ents: "al_entries a1 = (case acceptable yaml (al_filePath a) w of None \<Rightarrow> al_entries a
      | Some c \<Rightarrow> mkset (ac_Allowlist c))"
    using load load_cases [of rl yaml w a lm] by (auto split: option.splits)
  show ?case
    using Cons.IH [of a lm] Cons.IH [of a1 lm1] path ents load
    by (auto simp: x watch_turn_cases accepted_def List.map_filter_simps ends_watch_def reloads_def
        split: option.splits)
qed

section \<open>Keys of accounts\<close>

text \<open>
  C37: the key of an account stands for one account only: with namespaces that contain no slash, as
  Kubernetes namespaces do not, two different callers never share an allowlist entry, a limit or
  a counter.
\<close>

theorem account_key_injective:
  assumes "CHR ''/'' \<notin> set ns" and "CHR ''/'' \<notin> set ns'" and "account_key ns n = account_key ns' n'"
  shows "ns = ns' \<and> n = n'"
proof -
  have "Split (ns @ CHR ''/'' # n) CHR ''/'' = ns # Split n CHR ''/''"
    "Split (ns' @ CHR ''/'' # n') CHR ''/'' = ns' # Split n' CHR ''/''"
    using assms(1,2) by (simp_all add: Split_append)
  with assms(3) have "ns = ns'" by (simp add: account_key_def)
  with assms(3) show ?thesis by (simp add: account_key_def)
qed

text \<open>Cutting the key at its first slash gives the account back.\<close>

lemma account_key_injective_witness:
  "''kube'' = takeWhile (\<lambda>c. c \<noteq> CHR ''/'') ''kube/scan/1'' \<and> ''scan/1'' = drop 5 ''kube/scan/1''"
  by (rule account_key_injective) (simp_all add: account_key_def)

end
