(* ===== verification/Auth_Client.thy ===== *)
theory Auth_Client
  imports World Go_Json
begin

text \<open>
  The Kubernetes TokenReview client (\<open>internal/auth/client.go\<close>). The HTTP client and the
  service behind it are outside the repository: a function from the request that is sent to an
  error or a status and a body. The body of the request is its JSON value; the body of the
  answer is text, decoded field by field.
\<close>

section \<open>Data\<close>

definition tokenReviewPath :: string where
  "tokenReviewPath = ''/apis/authentication.k8s.io/v1/tokenreviews''"

record CallerIdentity =
  ci_Namespace :: string
  ci_ServiceAccount :: string
  ci_UID :: string

record UserInfo =
  ui_Username :: string
  ui_UID :: string

record TokenReviewStatus =
  trs_Authenticated :: bool
  trs_User :: "UserInfo option"
  trs_Error :: string

record TokenReviewResponse =
  trr_APIVersion :: string
  trr_Kind :: string
  trr_Status :: TokenReviewStatus

record AuthRequest =
  areq_Method :: string
  areq_URL :: string
  areq_ContentType :: string
  areq_Authorization :: "string option"
  areq_Body :: json

datatype AuthReply =
    DoFails string
  | Reply int string  \<comment> \<open>status code, body\<close>

record Client =
  cl_baseURL :: string
  cl_tokenPath :: string
  cl_timeout :: duration

datatype AuthErr =
    CreateRequestFailed
  | ReadTokenFailed string
  | CallFailed string
  | ServiceError int
  | DecodeFailed
  | AuthenticationFailed string
  | MissingUser
  | InvalidUsername string

fun auth_err_text :: "AuthErr \<Rightarrow> string" where
  "auth_err_text CreateRequestFailed = ''failed to create request''"
| "auth_err_text (ReadTokenFailed p) = ''failed to read service account token from '' @ p"
| "auth_err_text (CallFailed e) = ''failed to call auth service: '' @ e"
| "auth_err_text (ServiceError n) = ''auth service error: status '' @ Itoa n"
| "auth_err_text DecodeFailed = ''failed to decode response''"
| "auth_err_text (AuthenticationFailed e) = ''authentication failed: '' @ e"
| "auth_err_text MissingUser = ''invalid response: missing user info''"
| "auth_err_text (InvalidUsername u) = ''invalid serviceaccount username format: '' @ u"

definition NewClient :: "string \<Rightarrow> duration \<Rightarrow> string \<Rightarrow> Client" where
  "NewClient baseURL timeout tokenPath =
     \<lparr>cl_baseURL = baseURL, cl_tokenPath = tokenPath, cl_timeout = timeout\<rparr>"

section \<open>The request\<close>

text \<open>What \<open>json.Marshal\<close> writes: bytes of the token that are not UTF-8 become U+FFFD.\<close>

definition token_review_request :: "string \<Rightarrow> json" where
  "token_review_request token =
     JObj [(''apiVersion'', JStr ''authentication.k8s.io/v1''), (''kind'', JStr ''TokenReview''),
           (''spec'', JObj [(''token'', JStr (to_valid_utf8 token))])]"

section \<open>Decoding the answer\<close>

fun strings_ok :: "json \<Rightarrow> bool" where
  "strings_ok JNull = True"
| "strings_ok (JArr vs) = list_all (\<lambda>v. case v of JNull \<Rightarrow> True | JStr _ \<Rightarrow> True | _ \<Rightarrow> False) vs"
| "strings_ok _ = False"

fun extra_ok :: "json \<Rightarrow> bool" where
  "extra_ok JNull = True"
| "extra_ok (JObj ms) = list_all (\<lambda>(k, v). strings_ok v) ms"
| "extra_ok _ = False"

text \<open>\<open>groups\<close> and \<open>extra\<close> are never read; a wrong type there still fails the decoding.\<close>

fun user_member :: "string \<times> json \<Rightarrow> UserInfo \<Rightarrow> UserInfo option" where
  "user_member (k, v) u =
     (if is_field ''username'' k
      then map_option (\<lambda>s. u\<lparr>ui_Username := s\<rparr>) (dec_string (ui_Username u) v)
      else if is_field ''uid'' k then map_option (\<lambda>s. u\<lparr>ui_UID := s\<rparr>) (dec_string (ui_UID u) v)
      else if is_field ''groups'' k then (if strings_ok v then Some u else None)
      else if is_field ''extra'' k then (if extra_ok v then Some u else None)
      else Some u)"

definition empty_user :: UserInfo where
  "empty_user = \<lparr>ui_Username = [], ui_UID = []\<rparr>"

text \<open>A pointer to a struct: null clears it, anything else is stored in the struct it points to.\<close>

definition dec_user_ptr :: "UserInfo option \<Rightarrow> json \<Rightarrow> UserInfo option option" where
  "dec_user_ptr old j =
     (if j = JNull then Some None
      else map_option Some
        (dec_struct user_member (case old of None \<Rightarrow> empty_user | Some u \<Rightarrow> u) j))"

fun status_member :: "string \<times> json \<Rightarrow> TokenReviewStatus \<Rightarrow> TokenReviewStatus option" where
  "status_member (k, v) s =
     (if is_field ''authenticated'' k
      then map_option (\<lambda>b. s\<lparr>trs_Authenticated := b\<rparr>) (dec_bool (trs_Authenticated s) v)
      else if is_field ''user'' k
      then map_option (\<lambda>u. s\<lparr>trs_User := u\<rparr>) (dec_user_ptr (trs_User s) v)
      else if is_field ''error'' k
      then map_option (\<lambda>e. s\<lparr>trs_Error := e\<rparr>) (dec_string (trs_Error s) v)
      else Some s)"

definition empty_status :: TokenReviewStatus where
  "empty_status = \<lparr>trs_Authenticated = False, trs_User = None, trs_Error = []\<rparr>"

fun review_member :: "string \<times> json \<Rightarrow> TokenReviewResponse \<Rightarrow> TokenReviewResponse option" where
  "review_member (k, v) r =
     (if is_field ''apiVersion'' k
      then map_option (\<lambda>s. r\<lparr>trr_APIVersion := s\<rparr>) (dec_string (trr_APIVersion r) v)
      else if is_field ''kind'' k
      then map_option (\<lambda>s. r\<lparr>trr_Kind := s\<rparr>) (dec_string (trr_Kind r) v)
      else if is_field ''status'' k
      then map_option (\<lambda>s. r\<lparr>trr_Status := s\<rparr>) (dec_struct status_member (trr_Status r) v)
      else Some r)"

definition empty_review :: TokenReviewResponse where
  "empty_review = \<lparr>trr_APIVersion = [], trr_Kind = [], trr_Status = empty_status\<rparr>"

definition decode_review :: "string \<Rightarrow> TokenReviewResponse option" where
  "decode_review body =
     (case Decode body of None \<Rightarrow> None | Some j \<Rightarrow> dec_struct review_member empty_review j)"

section \<open>Validation of a token\<close>

definition parseServiceAccountUsername :: "string \<Rightarrow> AuthErr + CallerIdentity" where
  "parseServiceAccountUsername username =
     (let parts = Split username CHR '':''
      in if length parts \<noteq> 4 \<or> parts ! 0 \<noteq> ''system'' \<or> parts ! 1 \<noteq> ''serviceaccount''
         then Inl (InvalidUsername username)
         else Inr \<lparr>ci_Namespace = parts ! 2, ci_ServiceAccount = parts ! 3, ci_UID = []\<rparr>)"

text \<open>\<open>url_ok\<close>: the address parses, so that the request can be made.\<close>

definition client_Validate ::
  "(string \<Rightarrow> bool) \<Rightarrow> (AuthRequest \<Rightarrow> AuthReply) \<Rightarrow> Client \<Rightarrow> string \<Rightarrow> World \<Rightarrow>
   AuthErr + CallerIdentity" where
  "client_Validate url_ok service c token w =
     (let url = cl_baseURL c @ tokenReviewPath;
          saToken = (if cl_tokenPath c \<noteq> []
                     then (case os_ReadFile (cl_tokenPath c) w of
                             Inl e \<Rightarrow> Inl (ReadTokenFailed (cl_tokenPath c))
                           | Inr t \<Rightarrow> Inr (Some (''Bearer '' @ TrimSpace t)))
                     else Inr None)
      in if \<not> url_ok url then Inl CreateRequestFailed
         else case saToken of
           Inl e \<Rightarrow> Inl e
         | Inr authorization \<Rightarrow>
             (case service \<lparr>areq_Method = ''POST'', areq_URL = url,
                            areq_ContentType = ''application/json'',
                            areq_Authorization = authorization,
                            areq_Body = token_review_request token\<rparr> of
                DoFails e \<Rightarrow> Inl (CallFailed e)
              | Reply status body \<Rightarrow>
                  if status \<noteq> 200 \<and> status \<noteq> 201 then Inl (ServiceError status)
                  else case decode_review body of
                         None \<Rightarrow> Inl DecodeFailed
                       | Some r \<Rightarrow>
                           if \<not> trs_Authenticated (trr_Status r)
                           then Inl (AuthenticationFailed (trs_Error (trr_Status r)))
                           else case trs_User (trr_Status r) of
                                  None \<Rightarrow> Inl MissingUser
                                | Some u \<Rightarrow>
                                    (case parseServiceAccountUsername (ui_Username u) of
                                       Inl e \<Rightarrow> Inl e
                                     | Inr identity \<Rightarrow> Inr (identity\<lparr>ci_UID := ui_UID u\<rparr>))))"

section \<open>User names\<close>

definition service_account_name :: "string \<Rightarrow> string \<Rightarrow> string" where
  "service_account_name ns name = ''system:serviceaccount:'' @ ns @ '':'' @ name"

lemma four_parts:
  "length ps = 4 \<Longrightarrow> ps = [ps ! 0, ps ! 1, ps ! 2, ps ! 3]"
  by (rule nth_equalityI) (auto simp: less_Suc_eq numeral_eq_Suc)

lemma parse_accepted:
  assumes "parseServiceAccountUsername u = Inr i"
  shows "ci_UID i = [] \<and> u = service_account_name (ci_Namespace i) (ci_ServiceAccount i) \<and>
    CHR '':'' \<notin> set (ci_Namespace i) \<and> CHR '':'' \<notin> set (ci_ServiceAccount i)"
proof -
  let ?ps = "Split u CHR '':''"
  have len: "length ?ps = 4" and parts: "?ps ! 0 = ''system''" "?ps ! 1 = ''serviceaccount''"
    "?ps ! 2 = ci_Namespace i" "?ps ! 3 = ci_ServiceAccount i" "ci_UID i = []"
    using assms by (auto simp: parseServiceAccountUsername_def Let_def split: if_splits)
  have ps: "?ps = [''system'', ''serviceaccount'', ci_Namespace i, ci_ServiceAccount i]"
    using four_parts [OF len] parts by simp
  then have "u = Join [''system'', ''serviceaccount'', ci_Namespace i, ci_ServiceAccount i] CHR '':''"
    using Join_Split [of u "CHR '':''"] by simp
  moreover have "CHR '':'' \<notin> set (ci_Namespace i)" "CHR '':'' \<notin> set (ci_ServiceAccount i)"
    using Split_no_sep [of "ci_Namespace i" u "CHR '':''"]
      Split_no_sep [of "ci_ServiceAccount i" u "CHR '':''"] ps by simp_all
  ultimately show ?thesis using parts by (simp add: service_account_name_def)
qed

lemma parse_service_account:
  assumes "CHR '':'' \<notin> set ns" "CHR '':'' \<notin> set n"
  shows "parseServiceAccountUsername (service_account_name ns n) =
    Inr \<lparr>ci_Namespace = ns, ci_ServiceAccount = n, ci_UID = []\<rparr>"
proof -
  have "service_account_name ns n = Join [''system'', ''serviceaccount'', ns, n] CHR '':''"
    by (simp add: service_account_name_def)
  moreover have "Split (Join [''system'', ''serviceaccount'', ns, n] CHR '':'') CHR '':'' =
      [''system'', ''serviceaccount'', ns, n]"
    using assms by (intro Split_Join) auto
  ultimately show ?thesis by (simp add: parseServiceAccountUsername_def)
qed

text \<open>
  C36: a user name is accepted exactly when it is "system:serviceaccount:namespace:name" with no
  further colon, and the identity is that namespace and that name; so the name of an accepted
  identity can be put together again from its parts.
\<close>

theorem parseServiceAccountUsername_iff:
  "parseServiceAccountUsername u = Inr \<lparr>ci_Namespace = ns, ci_ServiceAccount = n, ci_UID = uid\<rparr> \<longleftrightarrow>
   uid = [] \<and> u = service_account_name ns n \<and> CHR '':'' \<notin> set ns \<and> CHR '':'' \<notin> set n"
  using parse_accepted [of u] parse_service_account [of ns n] by auto

section \<open>Where an accepted identity comes from\<close>

definition user_says :: "string \<Rightarrow> json \<Rightarrow> bool" where
  "user_says name v \<longleftrightarrow>
     (\<exists>ms k. v = JObj ms \<and> (k, JStr name) \<in> set ms \<and> is_field ''username'' k)"

definition status_says :: "(json \<Rightarrow> bool) \<Rightarrow> string \<Rightarrow> json \<Rightarrow> bool" where
  "status_says P field v \<longleftrightarrow>
     (\<exists>ms k x. v = JObj ms \<and> (k, x) \<in> set ms \<and> is_field field k \<and> P x)"

text \<open>The document has a member \<open>status\<close> with a member \<open>field\<close> whose value satisfies \<open>P\<close>.\<close>

definition review_says :: "(json \<Rightarrow> bool) \<Rightarrow> string \<Rightarrow> json \<Rightarrow> bool" where
  "review_says P field j \<longleftrightarrow>
     (\<exists>ms k v. j = JObj ms \<and> (k, v) \<in> set ms \<and> is_field ''status'' k \<and> status_says P field v)"

lemma dec_struct_origin:
  assumes "\<And>x s s'. f x s = Some s' \<Longrightarrow> g s' = g s \<or> Q x (g s')"
    and "dec_struct f old j = Some s'"
  shows "g s' = g old \<or> (\<exists>ms. j = JObj ms \<and> (\<exists>x\<in>set ms. Q x (g s')))"
  using assms(2) fold_opt_origin [of f g Q, OF assms(1)]
  by (auto simp: dec_struct_def split: json.splits)

lemma dec_bool_Some: "dec_bool old v = Some b \<Longrightarrow> b = old \<or> v = JBool b"
  by (cases v) auto

lemma dec_string_Some: "dec_string old v = Some t \<Longrightarrow> t = old \<or> v = JStr t"
  by (cases v) auto

lemma user_origin:
  assumes "dec_struct user_member old j = Some u"
  shows "ui_Username u = ui_Username old \<or> user_says (ui_Username u) j"
proof -
  have "ui_Username u' = ui_Username u \<or> is_field ''username'' (fst x) \<and> snd x = JStr (ui_Username u')"
    if "user_member x u = Some u'" for x u u'
    using that by (cases x) (auto split: if_splits dest: dec_string_Some)
  from dec_struct_origin [where g = ui_Username
      and Q = "\<lambda>x n. is_field ''username'' (fst x) \<and> snd x = JStr n", OF this assms]
  show ?thesis by (fastforce simp: user_says_def)
qed

definition status_username :: "TokenReviewStatus \<Rightarrow> string" where
  "status_username s = (case trs_User s of None \<Rightarrow> [] | Some u \<Rightarrow> ui_Username u)"

lemma status_member_username:
  assumes "status_member x s = Some s'"
  shows "status_username s' = status_username s \<or>
    (status_username s' = [] \<or> is_field ''user'' (fst x) \<and> user_says (status_username s') (snd x))"
  using assms
  by (cases x)
    (auto simp: status_username_def dec_user_ptr_def empty_user_def split: if_splits option.splits
      dest!: user_origin)

lemma status_member_authenticated:
  assumes "status_member x s = Some s'"
  shows "trs_Authenticated s' = trs_Authenticated s \<or>
    (is_field ''authenticated'' (fst x) \<and> snd x = JBool (trs_Authenticated s'))"
  using assms by (cases x) (auto split: if_splits dest: dec_bool_Some)

lemma review_member_username:
  assumes "review_member x r = Some r'"
  shows "status_username (trr_Status r') = status_username (trr_Status r) \<or>
    (status_username (trr_Status r') = [] \<or>
     is_field ''status'' (fst x) \<and>
     status_says (user_says (status_username (trr_Status r'))) ''user'' (snd x))"
proof (cases x)
  case (Pair k v)
  show ?thesis
  proof (cases "trr_Status r' = trr_Status r")
    case False
    with assms Pair have "is_field ''status'' k" "dec_struct status_member (trr_Status r) v = Some (trr_Status r')"
      by (auto split: if_splits)
    with dec_struct_origin [where g = status_username
        and Q = "\<lambda>x n. n = [] \<or> is_field ''user'' (fst x) \<and> user_says n (snd x)",
        OF status_member_username this(2)] Pair
    show ?thesis by (fastforce simp: status_says_def)
  qed simp
qed

lemma review_member_authenticated:
  assumes "review_member x r = Some r'"
  shows "trs_Authenticated (trr_Status r') = trs_Authenticated (trr_Status r) \<or>
    (is_field ''status'' (fst x) \<and>
     status_says (\<lambda>y. y = JBool (trs_Authenticated (trr_Status r'))) ''authenticated'' (snd x))"
proof (cases x)
  case (Pair k v)
  show ?thesis
  proof (cases "trr_Status r' = trr_Status r")
    case False
    with assms Pair have "is_field ''status'' k" "dec_struct status_member (trr_Status r) v = Some (trr_Status r')"
      by (auto split: if_splits)
    with dec_struct_origin [where g = trs_Authenticated
        and Q = "\<lambda>x b. is_field ''authenticated'' (fst x) \<and> snd x = JBool b",
        OF status_member_authenticated this(2)] Pair
    show ?thesis by (fastforce simp: status_says_def)
  qed simp
qed

lemma decode_review_origin:
  assumes "decode_review body = Some r"
  shows "trs_Authenticated (trr_Status r) \<Longrightarrow>
      \<exists>j. Decode body = Some j \<and> review_says (\<lambda>y. y = JBool True) ''authenticated'' j"
    and "status_username (trr_Status r) \<noteq> [] \<Longrightarrow>
      \<exists>j. Decode body = Some j \<and> review_says (user_says (status_username (trr_Status r))) ''user'' j"
proof -
  obtain j where j: "Decode body = Some j" "dec_struct review_member empty_review j = Some r"
    using assms by (auto simp: decode_review_def split: option.splits)
  note a = dec_struct_origin [where g = "\<lambda>r. trs_Authenticated (trr_Status r)"
      and Q = "\<lambda>x b. is_field ''status'' (fst x) \<and>
        status_says (\<lambda>y. y = JBool b) ''authenticated'' (snd x)",
      OF review_member_authenticated j(2)]
  note u = dec_struct_origin [where g = "\<lambda>r. status_username (trr_Status r)"
      and Q = "\<lambda>x n. n = [] \<or> is_field ''status'' (fst x) \<and>
        status_says (user_says n) ''user'' (snd x)",
      OF review_member_username j(2)]
  show "\<exists>j. Decode body = Some j \<and> review_says (\<lambda>y. y = JBool True) ''authenticated'' j"
    if "trs_Authenticated (trr_Status r)"
    using a that j(1) by (fastforce simp: empty_review_def empty_status_def review_says_def)
  show "\<exists>j. Decode body = Some j \<and> review_says (user_says (status_username (trr_Status r))) ''user'' j"
    if "status_username (trr_Status r) \<noteq> []"
    using u that j(1)
    by (fastforce simp: empty_review_def empty_status_def status_username_def review_says_def)
qed

text \<open>
  C10: a token is accepted only when the TokenReview service, asked about exactly this token (as the
  JSON encoder writes it: bytes that are not UTF-8 replaced by U+FFFD), answered 200 or 201 with a JSON object whose status really says authenticated: true and names
  the user "system:serviceaccount:namespace:name" of the identity that is returned. Any other status,
  an undecodable answer, a missing user or another kind of user is an error.
\<close>

theorem client_Validate_sound:
  assumes "client_Validate url_ok service c token w = Inr identity"
  shows "\<exists>auth status body j.
    service \<lparr>areq_Method = ''POST'', areq_URL = cl_baseURL c @ tokenReviewPath,
      areq_ContentType = ''application/json'', areq_Authorization = auth,
      areq_Body = token_review_request token\<rparr> = Reply status body \<and>
    (status = 200 \<or> status = 201) \<and> Decode body = Some j \<and>
    review_says (\<lambda>y. y = JBool True) ''authenticated'' j \<and>
    review_says (user_says (service_account_name (ci_Namespace identity) (ci_ServiceAccount identity)))
      ''user'' j"
proof -
  obtain auth status body r u i where run:
    "service \<lparr>areq_Method = ''POST'', areq_URL = cl_baseURL c @ tokenReviewPath,
      areq_ContentType = ''application/json'', areq_Authorization = auth,
      areq_Body = token_review_request token\<rparr> = Reply status body"
    "status = 200 \<or> status = 201" "decode_review body = Some r" "trs_Authenticated (trr_Status r)"
    "trs_User (trr_Status r) = Some u" "parseServiceAccountUsername (ui_Username u) = Inr i"
    "identity = i\<lparr>ci_UID := ui_UID u\<rparr>"
    using assms
    by (auto simp: client_Validate_def Let_def split: if_splits sum.splits AuthReply.splits option.splits)
  obtain j where j: "Decode body = Some j" using run(3) by (auto simp: decode_review_def split: option.splits)
  have name: "ui_Username u = service_account_name (ci_Namespace i) (ci_ServiceAccount i)"
    using parse_accepted [OF run(6)] by blast
  then have "status_username (trr_Status r) = service_account_name (ci_Namespace i) (ci_ServiceAccount i)"
    using run(5) by (simp add: status_username_def)
  with decode_review_origin [OF run(3)] run(4,7) j
  have "review_says (\<lambda>y. y = JBool True) ''authenticated'' j"
    "review_says (user_says (service_account_name (ci_Namespace identity) (ci_ServiceAccount identity))) ''user'' j"
    by (simp_all add: service_account_name_def)
  with run(1,2) j show ?thesis by blast
qed

section \<open>A concrete review\<close>

definition sample_review :: string where
  "sample_review =
     ''{\"status\":{\"authenticated\":true,\"user\":{\"username\":\"system:serviceaccount:a:b\"}}}''"

lemma sample_review_parsed:
  "Decode sample_review =
     Some (JObj [(''status'', JObj [(''authenticated'', JBool True),
       (''user'', JObj [(''username'', JStr ''system:serviceaccount:a:b'')])])])"
  by code_simp

lemma folded_review_names:
  "fold_name ''apiVersion'' = ''APIVERSION''" "fold_name ''kind'' = ''KIND''"
  "fold_name ''status'' = ''STATUS''" "fold_name ''authenticated'' = ''AUTHENTICATED''"
  "fold_name ''user'' = ''USER''" "fold_name ''username'' = ''USERNAME''"
  "fold_name ''uid'' = ''UID''" "fold_name ''error'' = ''ERROR''"
  by code_simp+

lemma sample_review_decoded:
  "decode_review sample_review =
     Some (empty_review\<lparr>trr_Status :=
       \<lparr>trs_Authenticated = True, trs_User = Some \<lparr>ui_Username = ''system:serviceaccount:a:b'', ui_UID = []\<rparr>,
        trs_Error = []\<rparr>\<rparr>)"
  by (simp add: decode_review_def sample_review_parsed dec_struct_def dec_user_ptr_def is_field_def
      folded_review_names empty_review_def empty_status_def empty_user_def del: fold_name.simps)

lemma sample_review_accepted:
  "client_Validate (\<lambda>_. True) (\<lambda>_. Reply 201 sample_review) (NewClient ''https://k8s'' 5 []) ''tok'' w =
     Inr \<lparr>ci_Namespace = ''a'', ci_ServiceAccount = ''b'', ci_UID = []\<rparr>"
  using parse_service_account [of "''a''" "''b''"]
  by (simp add: client_Validate_def NewClient_def sample_review_decoded service_account_name_def)

lemma client_Validate_sound_witness:
  "\<exists>j. Decode sample_review = Some j \<and> review_says (\<lambda>y. y = JBool True) ''authenticated'' j \<and>
     review_says (user_says (service_account_name ''a'' ''b'')) ''user'' j"
  using client_Validate_sound [OF sample_review_accepted] by auto

end
