(* ===== verification/Http.thy ===== *)
theory Http
  imports Allowlist Auth_Client
begin

text \<open>
  Requests, responses and the state of the server process that its handlers share. A handler
  returns \<open>None\<close> for the response when it panics: \<open>net/http\<close> then drops the connection, and
  deferred calls have still run. The identity in a request is the value stored in its context. A JSON
  body is the value that is given to the encoder, which replaces invalid UTF-8 in its strings.
\<close>

text \<open>The multipart form: invalid, without a \<open>file\<close> field, or with one whose copy may fail.\<close>

datatype Form =
    FormInvalid
  | FormNoFile
  | FormFile string string bool  \<comment> \<open>file name, content, whether reading it all succeeds\<close>

record Request =
  rq_Method :: string
  rq_Path :: string
  rq_Authorization :: string
  rq_Form :: Form
  rq_identity :: "CallerIdentity option"

datatype Body = JsonBody json | TextBody string | MetricsBody Metrics

record Response =
  rs_status :: int
  rs_headers :: "(string \<times> string) list"
  rs_body :: Body

record AccessLine =
  al_Method :: string
  al_Path :: string
  al_Status :: int
  al_Duration :: int

text \<open>
  One process: the world, the limiter and the allowlist that requests share, the supply of
  random file ids (\<open>uuid.New\<close>) and how many have been drawn, and the access log.
\<close>

record 'b Server =
  sv_world :: World
  sv_limiter :: "'b Limiter"
  sv_allowlist :: Allowlist
  sv_fresh :: "nat \<Rightarrow> string"
  sv_drawn :: nat
  sv_log :: "AccessLine list"

type_synonym 'b handler = "Request \<Rightarrow> 'b Server \<Rightarrow> Response option \<times> 'b Server"

definition set_world :: "World \<Rightarrow> 'b Server \<Rightarrow> 'b Server" where
  "set_world w s = s\<lparr>sv_world := w\<rparr>"

definition json_header :: "(string \<times> string) list" where
  "json_header = [(''Content-Type'', ''application/json'')]"

definition error_body :: "string \<Rightarrow> Body" where
  "error_body message = JsonBody (JObj [(''error'', JStr message)])"

text \<open>The \<open>jsonError\<close> of the authentication middleware and of the API write the same answer.\<close>

definition jsonError :: "string \<Rightarrow> int \<Rightarrow> Response" where
  "jsonError message status =
     \<lparr>rs_status = status, rs_headers = json_header, rs_body = error_body message\<rparr>"

definition server_now :: "'b Server \<Rightarrow> gotime" where
  "server_now s = w_now (sv_world s)"

text \<open>The limiter and the metrics, as the limiter's operations see them.\<close>

definition srv_pool :: "'b Server \<Rightarrow> 'b Limiter \<times> Metrics" where
  "srv_pool s = (sv_limiter s, w_metrics (sv_world s))"

definition set_pool :: "'b Limiter \<times> Metrics \<Rightarrow> 'b Server \<Rightarrow> 'b Server" where
  "set_pool lm s = s\<lparr>sv_limiter := fst lm, sv_world := (sv_world s)\<lparr>w_metrics := snd lm\<rparr>\<rparr>"

lemma srv_pool_set [simp]: "srv_pool (set_pool lm s) = lm"
  by (simp add: srv_pool_def set_pool_def)

lemma set_pool_frame [frame_simps]:
  "sv_allowlist (set_pool lm s) = sv_allowlist s" "sv_fresh (set_pool lm s) = sv_fresh s"
  "sv_drawn (set_pool lm s) = sv_drawn s" "sv_log (set_pool lm s) = sv_log s"
  "server_now (set_pool lm s) = server_now s"
  "w_files (sv_world (set_pool lm s)) = w_files (sv_world s)"
  by (simp_all add: set_pool_def server_now_def)

end
