(* ===== verification/Ratelimit_Handler.thy ===== *)
theory Ratelimit_Handler
  imports Http
begin

text \<open>
  The rate-limit middleware (\<open>internal/ratelimit/middleware.go\<close>). It rests on the slot pool
  interface of the limiter: a slot is taken before the next handler runs and given back by a
  deferred call, which runs after a panic too.
\<close>

section \<open>Definitions\<close>

text \<open>
  \<open>Duration.Seconds\<close> adds the whole seconds and the fraction in \<open>float64\<close>, and the code rounds that up:
  \<open>int(math.Ceil(d.Seconds()))\<close>.
\<close>

definition duration_Seconds :: "duration \<Rightarrow> rat" where
  "duration_Seconds d =
     (let sec = go_div d Second; nsec = d - sec * Second
      in rnd64 (rnd64 (of_int sec) + rnd64 (rnd64 (of_int nsec) / 1000000000)))"

definition ceil_seconds :: "duration \<Rightarrow> int" where
  "ceil_seconds d = \<lceil>duration_Seconds d\<rceil>"

definition retry_after :: "duration \<Rightarrow> int" where
  "retry_after d = (if ceil_seconds d < 1 then 1 else ceil_seconds d)"

definition rejection_message :: "string \<Rightarrow> Rejection \<Rightarrow> string" where
  "rejection_message account rej =
     (if rej_Reason rej = ReasonConcurrency
      then ''rate limit exceeded for '' @ account @ '': concurrent scans ('' @ Itoa (rej_Limit rej) @
           ''/'' @ Itoa (rej_Limit rej) @ '')''
      else ''rate limit exceeded for '' @ account @ '': requests per minute ('' @
           Itoa (rej_Limit rej) @ '')'')"

definition writeRejection :: "string \<Rightarrow> Rejection \<Rightarrow> Response" where
  "writeRejection account rej =
     \<lparr>rs_status = 429,
      rs_headers = [(''Content-Type'', ''application/json''),
                    (''Retry-After'', Itoa (retry_after (rej_RetryAfter rej))),
                    (''Connection'', ''close'')],
      rs_body = JsonBody (JObj [(''error'', JStr (rejection_message account rej)),
                                (''reason'', JStr (rej_Reason rej))])\<rparr>"

definition limiter_Handler ::
  "('b, 'r) RateLib \<Rightarrow> (Request \<Rightarrow> string) \<Rightarrow> 'b handler \<Rightarrow> 'b handler" where
  "limiter_Handler rl identity next_h r s =
     (let account = identity r
      in if account = [] then next_h r s
         else case pool_acquire rl (server_now s) account (srv_pool s) of
                (Inl rej, lm) \<Rightarrow> (Some (writeRejection account rej), set_pool lm s)
              | (Inr h, lm) \<Rightarrow>
                  (case next_h r (set_pool lm s) of
                     (resp, s2) \<Rightarrow> (resp, set_pool (release h (srv_pool s2)) s2)))"

section \<open>Retry-After\<close>

text \<open>
  A duration of less than \<open>2 ^ k\<close> seconds is off by at most two roundings, one of the fraction and
  one of the sum, and a whole number of seconds is exact.
\<close>

lemma duration_Seconds_error:
  assumes "0 \<le> d" "d < 2 ^ k * Second" "k \<le> 53"
  shows "\<bar>duration_Seconds d - of_int d / 1000000000\<bar> \<le> 2 powi (int k - 54) + 2 powi (- 54)"
    "d mod Second = 0 \<Longrightarrow> duration_Seconds d = of_int (d div Second)"
proof -
  let ?sec = "d div Second" and ?nsec = "d mod Second"
  let ?q = "rnd64 (of_int ?nsec / 1000000000) :: rat"
  have nsec: "0 \<le> ?nsec" "?nsec \<le> 999999999"
    using pos_mod_bound [of Second d] by (simp_all add: Second_def)
  have "?sec * Second \<le> d" using nsec(1) div_mult_mod_eq [of d Second] by linarith
  with assms(2) have "?sec * Second < 2 ^ k * Second" by (rule le_less_trans [rotated])
  then have sec: "0 \<le> ?sec" "?sec + 1 \<le> 2 ^ k"
    using assms(1) by (simp_all add: Second_def pos_imp_zdiv_nonneg_iff)
  have "?sec < 2 ^ 53" using sec(2) power_increasing [OF assms(3), of "2 :: int"] by linarith
  then have exact: "rnd64 (of_int ?sec) = of_int ?sec" "rnd64 (of_int ?nsec) = of_int ?nsec"
    using sec(1) nsec by (auto intro!: rnd64_of_int)
  have "go_div d Second = ?sec" using assms(1) by (simp add: go_div_nonneg Second_def)
  moreover have "d - ?sec * Second = ?nsec" by (simp add: minus_div_mult_eq_mod)
  ultimately have v: "duration_Seconds d = rnd64 (of_int ?sec + ?q)"
    by (simp add: duration_Seconds_def Let_def exact del: of_int_diff)
  show "duration_Seconds d = of_int (d div Second)" if "d mod Second = 0"
    using that exact(1) by (simp add: v rnd64_def)
  have frac: "0 \<le> (of_int ?nsec / 1000000000 :: rat)" "(of_int ?nsec / 1000000000 :: rat) < 2 powi 0"
    using nsec by simp_all
  have q: "\<bar>?q - of_int ?nsec / 1000000000\<bar> \<le> 2 powi (- 54)" using rnd64_error [OF frac] by simp
  have "0 \<le> ?q" using frac(1) rnd64_pos [of "of_int ?nsec / 1000000000"]
    by (cases "?nsec = 0") (auto simp: rnd64_def less_le)
  moreover have "?q < 1"
  proof -
    have "(of_int ?nsec :: rat) \<le> 999999999" using nsec(2) by linarith
    moreover have "(2 :: rat) powi (- 54) < 1 / 1000000000" by (simp add: power_int_def power_divide)
    ultimately show ?thesis using q by linarith
  qed
  moreover have "(of_int ?sec :: rat) + 1 \<le> 2 powi (int k)"
  proof -
    have "(of_int (?sec + 1) :: rat) \<le> of_int (2 ^ k)" using sec(2) by (simp only: of_int_le_iff)
    then show ?thesis by (simp add: power_int_def)
  qed
  ultimately have sum: "0 \<le> of_int ?sec + ?q" "of_int ?sec + ?q < 2 powi (int k)"
    using sec(1) by (auto simp: add_nonneg_nonneg)
  have "of_int d = (of_int (?sec * Second + ?nsec) :: rat)" by (simp only: div_mult_mod_eq)
  then have "of_int d = (of_int ?sec * 1000000000 + of_int ?nsec :: rat)"
    by (simp only: Second_def of_int_add of_int_mult of_int_numeral)
  then have "of_int d / 1000000000 = (of_int ?sec + of_int ?nsec / 1000000000 :: rat)"
    by (simp add: add_divide_distrib)
  with rnd64_error [OF sum] q show
    "\<bar>duration_Seconds d - of_int d / 1000000000\<bar> \<le> 2 powi (int k - 54) + 2 powi (- 54)"
    unfolding v by linarith
qed

text \<open>Up to \<open>2 ^ 24\<close> seconds, half a year, rounding up gives the exact ceiling.\<close>

lemma ceil_seconds_iff:
  assumes "0 \<le> d" "d < 2 ^ 24 * Second"
  shows "ceil_seconds d \<le> n \<longleftrightarrow> d \<le> n * Second"
proof -
  let ?v = "duration_Seconds d"
  have err: "\<bar>?v - of_int d / 1000000000\<bar> < 1 / 1000000000"
    using duration_Seconds_error(1) [OF assms]
    by (rule le_less_trans) (simp_all add: power_int_def power_divide)
  show ?thesis
  proof (cases "d mod Second = 0")
    case True
    then have "?v = of_int (d div Second)" using duration_Seconds_error(2) [OF assms] by simp
    then have "ceil_seconds d = d div Second" by (simp add: ceil_seconds_def)
    moreover have "d = d div Second * Second" using True by (simp add: minus_mod_eq_div_mult [symmetric])
    ultimately show ?thesis by (simp add: Second_def) linarith
  next
    case False
    show ?thesis
    proof
      assume "ceil_seconds d \<le> n"
      then have "?v \<le> of_int n" by (simp add: ceil_seconds_def ceiling_le_iff)
      with err have "of_int d < (of_int n * 1000000000 + 1 :: rat)" by linarith
      then have "(of_int d :: rat) < of_int (n * 1000000000 + 1)" by simp
      then show "d \<le> n * Second" by (simp add: Second_def del: of_int_add of_int_mult)
    next
      assume "d \<le> n * Second"
      moreover have "d \<noteq> n * Second" using False by auto
      ultimately have "d + 1 \<le> n * Second" by linarith
      then have "of_int (d + 1) \<le> (of_int (n * 1000000000) :: rat)" by (simp only: of_int_le_iff Second_def)
      then have "of_int d + 1 \<le> (of_int n * 1000000000 :: rat)" by simp
      with err have "?v \<le> of_int n" by linarith
      then show "ceil_seconds d \<le> n" by (simp add: ceil_seconds_def ceiling_le_iff)
    qed
  qed
qed

text \<open>Beyond that the result may be short of the duration, by less than a microsecond.\<close>

lemma ceil_seconds_near:
  assumes "0 \<le> d" "d \<le> MaxInt64"
  shows "d < ceil_seconds d * Second + 1000" "(ceil_seconds d - 1) * Second < d + 1000"
proof -
  let ?v = "duration_Seconds d"
  have "d < 2 ^ 34 * Second" using assms(2) by (simp add: MaxInt64_def Second_def)
  from duration_Seconds_error(1) [OF assms(1) this]
  have err: "\<bar>?v - of_int d / 1000000000\<bar> < 1 / 1000000"
    by (rule le_less_trans) (simp_all add: power_int_def power_divide)
  have "of_int (ceil_seconds d) - 1 < ?v" "?v \<le> of_int (ceil_seconds d)"
    by (simp_all add: ceil_seconds_def) linarith
  with err have "of_int d < (of_int (ceil_seconds d) * 1000000000 + 1000 :: rat)"
    "of_int (ceil_seconds d) * 1000000000 < (of_int d + 1000001000 :: rat)" by linarith+
  then have "of_int d < (of_int (ceil_seconds d * 1000000000 + 1000) :: rat)"
    "of_int ((ceil_seconds d - 1) * 1000000000) < (of_int (d + 1000) :: rat)"
    by (simp_all add: left_diff_distrib)
  then show "d < ceil_seconds d * Second + 1000" "(ceil_seconds d - 1) * Second < d + 1000"
    by (simp_all only: of_int_less_iff Second_def)
qed

text \<open>
  C27: a rejection is answered 429 with a Retry-After of at least one second, whose decimal numeral reads
  back as that number. For a delay of less than 2^24 seconds, more than half a year, it is the least
  whole number of seconds, from one on, that covers the delay the limiter asked for. For any longer
  delay the rounding of the seconds to a float64 may cost or add up to a microsecond: the number covers
  the delay but for that, and is less than a second and that longer.
\<close>

theorem writeRejection_retry_after:
  assumes "0 \<le> rej_RetryAfter rej" and "rej_RetryAfter rej \<le> MaxInt64"
  shows "rs_status (writeRejection account rej) = 429 \<and>
    (\<exists>n. map_of (rs_headers (writeRejection account rej)) ''Retry-After'' = Some (Itoa n) \<and>
       Atoi (Itoa n) = Some n \<and> 1 \<le> n \<and>
       (rej_RetryAfter rej < 2 ^ 24 * Second \<longrightarrow> rej_RetryAfter rej \<le> n * Second \<and>
         (\<forall>k\<ge>1. rej_RetryAfter rej \<le> k * Second \<longrightarrow> n \<le> k)) \<and>
       rej_RetryAfter rej < n * Second + 1000 \<and>
       (n = 1 \<or> (n - 1) * Second < rej_RetryAfter rej + 1000))"
proof -
  let ?d = "rej_RetryAfter rej" and ?n = "retry_after (rej_RetryAfter rej)"
  note near = ceil_seconds_near [OF assms]
  have n: "1 \<le> ?n" by (simp add: retry_after_def)
  have exact: "?d \<le> ?n * Second \<and> (\<forall>k\<ge>1. ?d \<le> k * Second \<longrightarrow> ?n \<le> k)" if "?d < 2 ^ 24 * Second"
    using ceil_seconds_iff [OF assms(1) that, of "ceil_seconds ?d"] ceil_seconds_iff [OF assms(1) that]
    by (auto simp: retry_after_def Second_def)
  have close: "?d < ?n * Second + 1000" "?n = 1 \<or> (?n - 1) * Second < ?d + 1000"
    using near by (auto simp: retry_after_def Second_def split: if_splits)
  have "?n \<le> MaxInt64" using close(2) assms(2) by (auto simp: MaxInt64_def Second_def)
  then have "Atoi (Itoa ?n) = Some ?n"
    using n(1) by (intro Atoi_Itoa) (auto simp: MinInt64_def)
  with n exact close show ?thesis by (auto simp: writeRejection_def)
qed

lemma writeRejection_retry_after_witness:
  "\<exists>n. map_of (rs_headers (writeRejection ''a/b''
       \<lparr>rej_Reason = ReasonRate, rej_Limit = 60, rej_RetryAfter = 1500000000\<rparr>)) ''Retry-After'' = Some (Itoa n) \<and>
     n = 2"
proof -
  let ?r = "\<lparr>rej_Reason = ReasonRate, rej_Limit = 60, rej_RetryAfter = 1500000000\<rparr>"
  have "0 \<le> rej_RetryAfter ?r" "rej_RetryAfter ?r \<le> MaxInt64" by (simp_all add: MaxInt64_def)
  from writeRejection_retry_after [OF this] obtain n where
    n: "map_of (rs_headers (writeRejection ''a/b'' ?r)) ''Retry-After'' = Some (Itoa n)"
    "rej_RetryAfter ?r < 2 ^ 24 * Second \<longrightarrow> rej_RetryAfter ?r \<le> n * Second \<and>
       (\<forall>k\<ge>1. rej_RetryAfter ?r \<le> k * Second \<longrightarrow> n \<le> k)" by blast
  have "rej_RetryAfter ?r < 2 ^ 24 * Second" by (simp add: Second_def)
  with n(2) have "rej_RetryAfter ?r \<le> n * Second" "\<forall>k\<ge>1. rej_RetryAfter ?r \<le> k * Second \<longrightarrow> n \<le> k"
    by blast+
  from this(1) this(2) [rule_format, of 2] have "n = 2" by (simp add: Second_def)
  with n(1) show ?thesis by blast
qed

text \<open>The smallest delay whose header is short: 2^24 seconds and a nanosecond is rounded down.\<close>

lemma ceil_seconds_short: "ceil_seconds (2 ^ 24 * Second + 1) = 2 ^ 24"
  by code_simp

section \<open>The slot is given back\<close>

text \<open>What the middleware asks of the next handler: the slot it was given is still its account's.\<close>

definition keeps_slot :: "'b handler \<Rightarrow> Request \<Rightarrow> 'b Server \<Rightarrow> Release \<Rightarrow> (string \<Rightarrow> int) \<Rightarrow> bool" where
  "keeps_slot next_h r s h d \<longleftrightarrow>
     (let s2 = snd (next_h r s)
      in pool_valid (srv_pool s2) \<and> pool_owns (srv_pool s2) h (rel_account h) \<and>
         (\<forall>b. pool_slots (srv_pool s2) b = pool_slots (srv_pool s) b + d b))"

text \<open>
  C26: the middleware balances its slot on every path. For a request with an identity, if
  everything that happens while the next handler runs (other requests, reloads) changes the
  in-flight counts by some amounts, then so does the whole request: the slot it took is given
  back, after a normal answer and after a panic alike; and a request that is rejected is
  answered 429, does not run the next handler and changes no count.
\<close>

theorem limiter_Handler_balanced:
  assumes "identity r \<noteq> []" and "pool_valid (srv_pool s)"
    and "\<forall>h lm. pool_acquire rl (server_now s) (identity r) (srv_pool s) = (Inr h, lm) \<longrightarrow>
      keeps_slot next_h r (set_pool lm s) h d"
  shows "case pool_acquire rl (server_now s) (identity r) (srv_pool s) of
     (Inl rej, lm) \<Rightarrow>
       limiter_Handler rl identity next_h r s = (Some (writeRejection (identity r) rej), set_pool lm s) \<and>
       pool_slots lm = pool_slots (srv_pool s)
   | (Inr h, lm) \<Rightarrow>
       fst (limiter_Handler rl identity next_h r s) = fst (next_h r (set_pool lm s)) \<and>
       (\<forall>b. pool_slots (srv_pool (snd (limiter_Handler rl identity next_h r s))) b =
          pool_slots (srv_pool s) b + d b)"
proof -
  obtain res lm where acq: "pool_acquire rl (server_now s) (identity r) (srv_pool s) = (res, lm)"
    by (metis surj_pair)
  show ?thesis
  proof (cases res)
    case (Inl rej)
    with acq assms(1) pool.acquire_refused [OF assms(2) acq [unfolded Inl]] show ?thesis
      by (simp add: limiter_Handler_def)
  next
    case (Inr h)
    note g = pool.acquire_granted [OF assms(2) acq [unfolded Inr]]
    obtain resp s2 where run: "next_h r (set_pool lm s) = (resp, s2)" by fastforce
    have "keeps_slot next_h r (set_pool lm s) h d" using assms(3) acq Inr by blast
    then have keep: "pool_valid (srv_pool s2)" "pool_owns (srv_pool s2) h (rel_account h)"
      "\<And>b. pool_slots (srv_pool s2) b = pool_slots lm b + d b"
      using run by (simp_all add: keeps_slot_def Let_def)
    have "rel_account h = identity r" using g by (simp add: pool_owns_def)
    with keep(2) have "pool_owns (srv_pool s2) h (identity r)" by simp
    from pool.bracket [OF assms(2) acq [unfolded Inr] keep(1) this keep(3)]
    show ?thesis using acq Inr run assms(1) by (simp add: limiter_Handler_def)
  qed
qed

end
