(* ===== verification/Auth_Middleware.thy ===== *)
theory Auth_Middleware
  imports Http
begin

text \<open>
  The authentication and authorization middleware (\<open>internal/auth/middleware.go\<close>).
\<close>

record AuthMiddleware =
  am_client :: Client
  am_skipPaths :: "string \<Rightarrow> bool"

definition NewMiddleware :: "Client \<Rightarrow> string list \<Rightarrow> AuthMiddleware" where
  "NewMiddleware client skipPaths = \<lparr>am_client = client, am_skipPaths = mkset skipPaths\<rparr>"

text \<open>The services the middleware calls, all outside the repository.\<close>

record AuthEnv =
  ae_url_ok :: "string \<Rightarrow> bool"
  ae_service :: "AuthRequest \<Rightarrow> AuthReply"

definition bearer_prefix :: string where
  "bearer_prefix = ''Bearer ''"

definition missing_header_text :: string where
  "missing_header_text = ''missing Authorization header''"

definition bad_header_text :: string where
  "bad_header_text =
     ''invalid Authorization header format, expected '' @ CHR 0x27 # ''Bearer <token>'' @ [CHR 0x27]"

definition auth_failed_text :: "AuthErr \<Rightarrow> string" where
  "auth_failed_text e = ''authentication failed: '' @ auth_err_text e"

definition forbidden_text :: "CallerIdentity \<Rightarrow> string" where
  "forbidden_text i =
     ''forbidden: '' @ ci_Namespace i @ ''/'' @ ci_ServiceAccount i @ '' not in allowlist''"

definition auth_Handler :: "AuthEnv \<Rightarrow> AuthMiddleware \<Rightarrow> 'b handler \<Rightarrow> 'b handler" where
  "auth_Handler env m next_h r s =
     (if am_skipPaths m (rq_Path r) then next_h r s
      else let authHeader = rq_Authorization r
      in if authHeader = [] then (Some (jsonError missing_header_text 401), s)
         else let token = TrimPrefix authHeader bearer_prefix
         in if token = authHeader then (Some (jsonError bad_header_text 401), s)
            else (case client_Validate (ae_url_ok env) (ae_service env) (am_client m) token (sv_world s) of
                    Inl e \<Rightarrow> (Some (jsonError (auth_failed_text e) 401), s)
                  | Inr identity \<Rightarrow>
                      if \<not> IsAllowed (sv_allowlist s) (ci_Namespace identity) (ci_ServiceAccount identity)
                      then (Some (jsonError (forbidden_text identity) 403), s)
                      else next_h (r\<lparr>rq_identity := Some identity\<rparr>) s))"

definition GetCallerIdentity :: "Request \<Rightarrow> CallerIdentity option" where
  "GetCallerIdentity r = rq_identity r"

text \<open>The caller a request proves to be, by a bearer token the service accepts.\<close>

definition proven_identity ::
  "AuthEnv \<Rightarrow> AuthMiddleware \<Rightarrow> Request \<Rightarrow> World \<Rightarrow> CallerIdentity option" where
  "proven_identity env m r w =
     (if HasPrefix (rq_Authorization r) bearer_prefix then
        (case client_Validate (ae_url_ok env) (ae_service env) (am_client m)
                (TrimPrefix (rq_Authorization r) bearer_prefix) w of
           Inl _ \<Rightarrow> None | Inr i \<Rightarrow> Some i)
      else None)"

lemma bearer_token: "TrimPrefix h bearer_prefix = h \<longleftrightarrow> \<not> HasPrefix h bearer_prefix"
  by (rule TrimPrefix_eq_iff) (simp add: bearer_prefix_def)

lemma bearer_nonempty: "HasPrefix h bearer_prefix \<Longrightarrow> h \<noteq> []"
  by (auto simp: bearer_prefix_def)

lemma auth_Handler_alt:
  assumes "\<not> am_skipPaths m (rq_Path r)"
  shows "auth_Handler env m next_h r s =
    (if \<not> HasPrefix (rq_Authorization r) bearer_prefix
     then (Some (jsonError (if rq_Authorization r = [] then missing_header_text else bad_header_text) 401), s)
     else case client_Validate (ae_url_ok env) (ae_service env) (am_client m)
                 (TrimPrefix (rq_Authorization r) bearer_prefix) (sv_world s) of
            Inl e \<Rightarrow> (Some (jsonError (auth_failed_text e) 401), s)
          | Inr i \<Rightarrow>
              if \<not> IsAllowed (sv_allowlist s) (ci_Namespace i) (ci_ServiceAccount i)
              then (Some (jsonError (forbidden_text i) 403), s)
              else next_h (r\<lparr>rq_identity := Some i\<rparr>) s)"
  using assms bearer_nonempty by (auto simp: auth_Handler_def bearer_token Let_def split: sum.splits)

text \<open>
  C9: on every path that is not exempt the next handler runs only for a caller whose bearer token
  the service accepted and who is on the allowlist at that moment, and it sees exactly that
  caller's identity, whatever identity the request carried before. Everyone else gets 401
  (nobody proven) or 403 (not listed), and the server's state is left alone.
\<close>

theorem auth_Handler_guards:
  assumes "\<not> am_skipPaths m (rq_Path r)"
  shows "case proven_identity env m r (sv_world s) of
     None \<Rightarrow> (\<exists>resp. auth_Handler env m next_h r s = (Some resp, s) \<and> rs_status resp = 401)
   | Some i \<Rightarrow>
       if IsAllowed (sv_allowlist s) (ci_Namespace i) (ci_ServiceAccount i)
       then auth_Handler env m next_h r s = next_h (r\<lparr>rq_identity := Some i\<rparr>) s
       else (\<exists>resp. auth_Handler env m next_h r s = (Some resp, s) \<and> rs_status resp = 403)"
  using auth_Handler_alt [OF assms, of env next_h s]
  by (auto simp: proven_identity_def jsonError_def split: sum.splits)

section \<open>A concrete request\<close>

definition sample_server :: "'b Server" where
  "sample_server =
     \<lparr>sv_world = sample_world None [] (StartFails []), sv_limiter = New,
      sv_allowlist = \<lparr>al_entries = mkset [''a/b''], al_filePath = ''/f'', al_watcher = Watching,
                      al_stopped = False\<rparr>,
      sv_fresh = (\<lambda>_. ''7f-1''), sv_drawn = 0, sv_log = []\<rparr>"

definition sample_request :: "string \<Rightarrow> string \<Rightarrow> string \<Rightarrow> Request" where
  "sample_request method path auth =
     \<lparr>rq_Method = method, rq_Path = path, rq_Authorization = auth, rq_Form = FormFile ''a.txt'' ''hi'' True,
      rq_identity = None\<rparr>"

definition sample_env :: AuthEnv where
  "sample_env = \<lparr>ae_url_ok = (\<lambda>_. True), ae_service = (\<lambda>_. Reply 201 sample_review)\<rparr>"

lemma sample_proven:
  "proven_identity sample_env (NewMiddleware (NewClient ''https://k8s'' 5 []) skip)
     (sample_request me pa ''Bearer tok'') w =
   Some \<lparr>ci_Namespace = ''a'', ci_ServiceAccount = ''b'', ci_UID = []\<rparr>"
  by (simp add: proven_identity_def sample_request_def sample_env_def NewMiddleware_def
      bearer_prefix_def TrimPrefix_def sample_review_accepted)

lemma auth_Handler_guards_witness:
  "auth_Handler sample_env (NewMiddleware (NewClient ''https://k8s'' 5 []) [''/metrics''])
     (\<lambda>r s. (Some (jsonError [] 200), s)) (sample_request ''GET'' ''/x'' ''Bearer tok'') (sample_server :: nat Server) =
   (Some (jsonError [] 200), sample_server)"
proof -
  let ?m = "NewMiddleware (NewClient ''https://k8s'' 5 []) [''/metrics'']"
  let ?r = "sample_request ''GET'' ''/x'' ''Bearer tok''"
  have skip: "\<not> am_skipPaths ?m (rq_Path ?r)" by (simp add: NewMiddleware_def sample_request_def)
  have "IsAllowed (sv_allowlist (sample_server :: nat Server)) ''a'' ''b''"
    by (simp add: IsAllowed_def account_key_def sample_server_def)
  with auth_Handler_guards [OF skip, where env = sample_env and s = "sample_server :: nat Server"
        and next_h = "\<lambda>r s. (Some (jsonError [] 200), s)"]
  show ?thesis by (simp add: sample_proven)
qed

end
