(* ===== verification/Token_Bucket.thy ===== *)
theory Token_Bucket
  imports Limiter_System
begin

text \<open>
  A concrete token bucket with the behaviour documented for \<open>golang.org/x/time/rate\<close>, computed
  in exact rationals. It stands for the third-party package where a property has to be shown
  at a concrete input; no property is about it.
\<close>

section \<open>The bucket\<close>

record Bucket =
  bk_limit :: rat       \<comment> \<open>tokens per second\<close>
  bk_burst :: int
  bk_tokens :: rat
  bk_last :: gotime

record Reservation =
  rsv_ok :: bool
  rsv_act :: gotime

definition bk_advance :: "gotime \<Rightarrow> Bucket \<Rightarrow> rat" where
  "bk_advance t b =
     min (of_int (bk_burst b)) (bk_tokens b + of_int (max 0 (t - bk_last b)) * bk_limit b / 1000000000)"

definition bucket :: "(Bucket, Reservation) RateLib" where
  "bucket =
     \<lparr>rl_NewLimiter = (\<lambda>r n. \<lparr>bk_limit = r, bk_burst = n, bk_tokens = of_int n, bk_last = 0\<rparr>),
      rl_SetLimitAt = (\<lambda>t r b. b\<lparr>bk_tokens := bk_advance t b, bk_last := t, bk_limit := r\<rparr>),
      rl_SetBurstAt = (\<lambda>t n b. b\<lparr>bk_tokens := bk_advance t b, bk_last := t, bk_burst := n\<rparr>),
      rl_ReserveN = (\<lambda>t n b.
        let a = bk_advance t b - of_int n;
            wait = (if a < 0 then \<lceil>- a * 1000000000 / bk_limit b\<rceil> else 0)
        in if n \<le> bk_burst b
           then (\<lparr>rsv_ok = True, rsv_act = t + wait\<rparr>, b\<lparr>bk_tokens := a, bk_last := t\<rparr>)
           else (\<lparr>rsv_ok = False, rsv_act = t\<rparr>, b)),
      rl_OK = rsv_ok,
      rl_DelayFrom = (\<lambda>t r. if rsv_ok r then max 0 (rsv_act r - t) else MaxInt64),
      rl_CancelAt = (\<lambda>t r b. if rsv_ok r then b\<lparr>bk_tokens := bk_tokens b + 1\<rparr> else b)\<rparr>"

lemma bucket_fresh: "fresh_admits bucket"
proof -
  have "bk_advance t (rl_NewLimiter bucket r n) = of_int n" if "0 < r" for t n and r :: rat
    using that by (simp add: bucket_def bk_advance_def)
  then show ?thesis by (simp add: fresh_admits_def) (simp add: bucket_def Let_def)
qed

section \<open>Concrete runs of the limiter\<close>

text \<open>
  One account \<open>ns/sa\<close>, limits of one scan at a time, 60 requests per minute and a burst of 1;
  the configuration is loaded, then a scan starts.
\<close>

definition ex_config :: RateConfig where
  "ex_config = \<lparr>rc_Default = \<lparr>lim_MaxConcurrent = 1, lim_RequestsPerMinute = 60, lim_Burst = 1\<rparr>,
     rc_Overrides = []\<rparr>"

definition ex_allowed :: "(string \<Rightarrow> bool) option" where
  "ex_allowed = Some (mkset [''ns/sa''])"

definition ex_loaded :: "Bucket LimSys" where
  "ex_loaded =
     \<lparr>ls_limiter = Update bucket (Some ex_config) ex_allowed 0 New, ls_metrics = [],
      ls_handles = [], ls_now = 0\<rparr>"

definition ex_running :: "Bucket LimSys" where
  "ex_running =
     (case Acquire bucket ''ns/sa'' 0 (ls_limiter ex_loaded, []) of
        (Inr h, l, m) \<Rightarrow>
          ex_loaded\<lparr>ls_limiter := l, ls_metrics := m, ls_handles := [(h, False)]\<rparr>
      | (Inl rej, l, m) \<Rightarrow> ex_loaded)"

lemma ex_config_valid: "validated (Some ex_config)"
  by (simp add: validated_def ex_config_def rate_Validate_def limits_validate_def)

lemma ex_rate: "tokens_per_second \<lparr>lim_MaxConcurrent = 1, lim_RequestsPerMinute = 60, lim_Burst = 1\<rparr> = 1"
  using rnd64_of_int [of 60] rnd64_of_int [of 1] by (simp add: tokens_per_second_def)

lemma ex_loaded_limiter:
  "ls_limiter ex_loaded = New\<lparr>lm_cfg := Some ex_config, lm_allowed := ex_allowed\<rparr>"
  by (simp add: ex_loaded_def Update_def New_def)

lemma ex_acquire:
  "\<exists>l m. Acquire bucket ''ns/sa'' 0 (ls_limiter ex_loaded, []) =
     (Inr \<lparr>rel_account = ''ns/sa'', rel_st = 0\<rparr>, l, m) \<and>
     st_rate (lm_heap l 0) =
       Some \<lparr>bk_limit = 1, bk_burst = 1, bk_tokens = 0, bk_last = 0\<rparr>"
  unfolding ex_loaded_limiter
  by (simp add: Acquire_def find_or_create_def New_def applyRate_def effective_limits_def
      ex_config_def For_def take_token_def bucket_def bk_advance_def set_state_def ex_rate Let_def)

lemma ex_running_shape:
  "ls_handles ex_running = [(\<lparr>rel_account = ''ns/sa'', rel_st = 0\<rparr>, False)]"
  "st_rate (lm_heap (ls_limiter ex_running) 0) =
     Some \<lparr>bk_limit = 1, bk_burst = 1, bk_tokens = 0, bk_last = 0\<rparr>"
  "lm_cfg (ls_limiter ex_running) = Some ex_config"
  "lm_allowed (ls_limiter ex_running) = ex_allowed"
  "map_of (lm_accounts (ls_limiter ex_running)) ''ns/sa'' = Some 0"
  "limiter_wf (ls_limiter ex_running)"
  "st_inflight (lm_heap (ls_limiter ex_running) 0) = 1"
proof -
  obtain l m where acq: "Acquire bucket ''ns/sa'' 0 (ls_limiter ex_loaded, []) =
      (Inr \<lparr>rel_account = ''ns/sa'', rel_st = 0\<rparr>, l, m)"
    and rate: "st_rate (lm_heap l 0) = Some \<lparr>bk_limit = 1, bk_burst = 1, bk_tokens = 0, bk_last = 0\<rparr>"
    using ex_acquire by blast
  have "limiter_wf (ls_limiter ex_loaded)"
    unfolding ex_loaded_limiter by (simp add: limiter_wf_def New_def)
  note g = Acquire_granted [OF this acq]
  show "ls_handles ex_running = [(\<lparr>rel_account = ''ns/sa'', rel_st = 0\<rparr>, False)]"
    "st_rate (lm_heap (ls_limiter ex_running) 0) =
       Some \<lparr>bk_limit = 1, bk_burst = 1, bk_tokens = 0, bk_last = 0\<rparr>"
    "lm_cfg (ls_limiter ex_running) = Some ex_config"
    "lm_allowed (ls_limiter ex_running) = ex_allowed"
    "map_of (lm_accounts (ls_limiter ex_running)) ''ns/sa'' = Some 0"
    "limiter_wf (ls_limiter ex_running)"
    using acq rate g(1,2,5,6)
    by (auto simp: ex_running_def ex_loaded_limiter view_def fun_eq_iff split: if_splits)
  have "entry_of (ls_limiter ex_loaded) ''ns/sa'' = (0, 0)"
    unfolding ex_loaded_limiter by (simp add: entry_of_def view_def New_def)
  then have "view l ''ns/sa'' = Some (0, 1)" using g(2) by simp
  then show "st_inflight (lm_heap (ls_limiter ex_running) 0) = 1"
    using acq by (auto simp: ex_running_def view_def)
qed

lemma ex_second_refused:
  "Acquire bucket ''ns/sa'' 0 (ls_limiter ex_running, m) =
     (Inl \<lparr>rej_Reason = ReasonConcurrency, rej_Limit = 1, rej_RetryAfter = Second\<rparr>,
      ls_limiter ex_running, RecordRateLimitRejected ''ns/sa'' ReasonConcurrency m)"
  by (simp add: Acquire_def find_or_create_def ex_running_shape effective_limits_def
      For_def ex_config_def)

lemma ex_reachable: "reachable_from lim_init (lim_step bucket validated) ex_running"
proof -
  let ?s0 = "\<lparr>ls_limiter = New, ls_metrics = [], ls_handles = [], ls_now = 0\<rparr> :: Bucket LimSys"
  have "reachable_from lim_init (lim_step bucket validated) ?s0"
    by (rule reachable_from.start) (simp add: lim_init_def)
  moreover have "lim_step bucket validated ?s0 ex_loaded"
    using lim_step.updated [where rl = bucket and adm = validated and s = ?s0
        and allowed = ex_allowed, OF ex_config_valid]
    by (simp add: ex_loaded_def)
  ultimately have loaded: "reachable_from lim_init (lim_step bucket validated) ex_loaded"
    by (rule reachable_from.move)
  obtain l m where acq: "Acquire bucket ''ns/sa'' (ls_now ex_loaded)
      (ls_limiter ex_loaded, ls_metrics ex_loaded) =
      (Inr \<lparr>rel_account = ''ns/sa'', rel_st = 0\<rparr>, l, m)"
    using ex_acquire by (auto simp: ex_loaded_def)
  have "lim_step bucket validated ex_loaded ex_running"
    using lim_step.acquire_ok [OF acq, of validated] acq
    by (simp add: ex_running_def) (simp add: ex_loaded_def)
  with loaded show ?thesis by (rule reachable_from.move)
qed

theorem inflight_counts_running_scans_witness:
  "snd (entry_of (ls_limiter ex_running) ''ns/sa'') = 1 \<and>
   inflight_gauge ''ns/sa'' (ls_metrics ex_running) = 1"
  using inflight_counts_running_scans [OF ex_reachable, of "''ns/sa''"]
  by (simp add: ex_running_shape(1) open_scans_def)

theorem Acquire_respects_limit_witness:
  "\<exists>rej l m. Acquire bucket ''ns/sa'' 0 (ls_limiter ex_running, ls_metrics ex_running) = (Inl rej, l, m) \<and>
     rej_Reason rej = ReasonConcurrency"
proof -
  have lim: "lim_MaxConcurrent (effective_limits (lm_cfg (ls_limiter ex_running)) ''ns/sa'') = 1"
    by (simp add: ex_running_shape(3) effective_limits_def For_def ex_config_def)
  from Acquire_respects_limit [OF ex_reachable lim, of 0] show ?thesis
    unfolding ex_second_refused by (simp add: ex_running_shape(1) open_scans_def)
qed

theorem release_idempotent_witness:
  "call_release 0 (call_release 0 ex_running) = call_release 0 ex_running \<and>
   open_scans ''ns/sa'' (ls_handles (call_release 0 ex_running)) = 0"
proof
  show "call_release 0 (call_release 0 ex_running) = call_release 0 ex_running"
    by (rule release_idempotent [where rl = bucket and adm = validated and s = ex_running])
      (simp_all add: ex_running_shape(1))
  show "open_scans ''ns/sa'' (ls_handles (call_release 0 ex_running)) = 0"
    by (simp add: call_release_def ex_running_shape(1) open_scans_def split: prod.splits)
qed

theorem accounts_bounded_by_allowlist_witness:
  "mkset [''ns/sa''] ''ns/sa'' \<or> 0 < open_scans ''ns/sa'' (ls_handles ex_running)"
proof (rule accounts_bounded_by_allowlist [OF bucket_fresh ex_reachable,
      where allowed = "mkset [''ns/sa'']" and account = "''ns/sa''"])
  show "lm_allowed (ls_limiter ex_running) = Some (mkset [''ns/sa''])"
    by (simp add: ex_running_shape(4) ex_allowed_def)
  show "''ns/sa'' \<in> fst ` set (lm_accounts (ls_limiter ex_running))"
    using ex_running_shape(5) by (force dest: map_of_SomeD)
qed

text \<open>The scan has finished, the bucket is empty: the next request is refused for rate.\<close>

definition ex_idle :: "Bucket Limiter" where
  "ex_idle = set_state 0 \<lparr>st_inflight = 0, st_rate =
     Some \<lparr>bk_limit = 1, bk_burst = 1, bk_tokens = 0, bk_last = 0\<rparr>\<rparr> (ls_limiter ex_running)"

lemma ex_idle_released:
  "fst (release \<lparr>rel_account = ''ns/sa'', rel_st = 0\<rparr> (ls_limiter ex_running, m)) = ex_idle"
proof -
  have "is_allowed ex_allowed ''ns/sa''" by (simp add: is_allowed_def ex_allowed_def)
  moreover have "lm_heap (ls_limiter ex_running) 0 = \<lparr>st_inflight = 1, st_rate =
      Some \<lparr>bk_limit = 1, bk_burst = 1, bk_tokens = 0, bk_last = 0\<rparr>\<rparr>"
    using ex_running_shape(2,7) by (cases "lm_heap (ls_limiter ex_running) 0") simp
  ultimately show ?thesis
    by (simp add: release_def ex_idle_def frame_simps ex_running_shape(4))
qed

lemma ex_rate_refused:
  "\<exists>l m'. Acquire bucket ''ns/sa'' 0 (ex_idle, m) =
     (Inl \<lparr>rej_Reason = ReasonRate, rej_Limit = 60, rej_RetryAfter = Second\<rparr>, l, m')"
proof -
  have "lm_heap ex_idle 0 = \<lparr>st_inflight = 0, st_rate =
      Some \<lparr>bk_limit = 1, bk_burst = 1, bk_tokens = 0, bk_last = 0\<rparr>\<rparr>"
    by (simp add: ex_idle_def set_state_def)
  moreover have "lm_cfg ex_idle = Some ex_config" "map_of (lm_accounts ex_idle) ''ns/sa'' = Some 0"
    by (simp_all add: ex_idle_def frame_simps ex_running_shape)
  ultimately show ?thesis
    by (simp add: Acquire_def find_or_create_def effective_limits_def For_def ex_config_def
        take_token_def bucket_def bk_advance_def Second_def Let_def)
qed

theorem rejection_uses_nothing_witness:
  "\<exists>rej l m b. Acquire bucket ''ns/sa'' 0 (ex_idle, []) = (Inl rej, l, m) \<and>
     rej_Reason rej = ReasonRate \<and>
     bucket_of bucket l ''ns/sa'' = Some b \<and> bk_tokens b = 0 \<and>
     (\<forall>a. snd (entry_of l a) = snd (entry_of ex_idle a))"
proof -
  let ?b = "\<lparr>bk_limit = 1, bk_burst = 1, bk_tokens = 0, bk_last = 0\<rparr>"
  obtain l m where acq: "Acquire bucket ''ns/sa'' 0 (ex_idle, []) =
      (Inl \<lparr>rej_Reason = ReasonRate, rej_Limit = 60, rej_RetryAfter = Second\<rparr>, l, m)"
    using ex_rate_refused by blast
  have wf: "limiter_wf ex_idle" and reg: "map_of (lm_accounts ex_idle) ''ns/sa'' = Some 0"
    by (simp_all add: ex_idle_def frame_simps ex_running_shape)
  have b: "bucket_of bucket ex_idle ''ns/sa'' = Some ?b"
    using reg by (simp add: bucket_of_def) (simp add: ex_idle_def set_state_def)
  from rejection_uses_nothing [OF acq wf] obtain r b1
    where "rl_ReserveN bucket 0 1 ?b = (r, b1)"
      "bucket_of bucket l = (bucket_of bucket ex_idle)(''ns/sa'' \<mapsto> rl_CancelAt bucket 0 r b1)"
      "\<forall>a. snd (entry_of l a) = snd (entry_of ex_idle a)"
    by (auto simp: b)
  then have "bucket_of bucket l ''ns/sa'' = Some (rl_CancelAt bucket 0 r b1)"
    "bk_tokens (rl_CancelAt bucket 0 r b1) = 0" "\<forall>a. snd (entry_of l a) = snd (entry_of ex_idle a)"
    by (auto simp: bucket_def bk_advance_def Let_def)
  with acq show ?thesis by fastforce
qed

end
