(* ===== verification/Api.thy ===== *)
theory Api
  imports Scanner Ratelimit_Handler Auth_Middleware Token_Bucket
begin

text \<open>
  The HTTP API (\<open>internal/api/handlers.go\<close>) with the two recording middlewares (the second is in
  \<open>internal/metrics/metrics.go\<close>): construction, the routing table, one handler per route, and
  the chain metrics, logging, authentication, routes. Times in JSON bodies are shown as their
  number of nanoseconds; maps are listed in key order, as the encoder writes them.
\<close>

section \<open>State and construction\<close>

record API =
  api_scanner :: Scanner
  api_config :: Config
  api_authMiddleware :: "AuthMiddleware option"
  api_limited :: bool      \<comment> \<open>the field \<open>limiter\<close> is not nil\<close>
  api_hasAllowlist :: bool \<comment> \<open>the field \<open>allowlist\<close> is not nil\<close>

datatype ApiError = ApiLoadFailed LoadError | ApiWatchFailed WatchError

text \<open>
  What surrounds the API: the rate library, the YAML parser, whether the file watcher can be
  made and attached, and the authentication service.
\<close>

record ('b, 'r) Platform =
  pf_rate :: "('b, 'r) RateLib"
  pf_yaml :: "string \<Rightarrow> AllowlistConfig option"
  pf_watcher_ok :: bool
  pf_watch_ok :: bool
  pf_auth :: AuthEnv

definition skip_paths :: "string list" where
  "skip_paths = [''/api/v1/live'', ''/api/v1/ready'', ''/metrics'']"

definition api_New ::
  "('b, 'r) Platform \<Rightarrow> Scanner \<Rightarrow> Config \<Rightarrow> 'b Server \<Rightarrow> (ApiError + API) \<times> 'b Server" where
  "api_New pf sc cfg s =
     (let api = \<lparr>api_scanner = sc, api_config = cfg, api_authMiddleware = None, api_limited = False,
                 api_hasAllowlist = False\<rparr>;
          auth = cfg_Auth cfg
      in if \<not> auth_Enabled auth then (Inr api, s)
         else let client = NewClient (auth_K8sAPIEndpoint auth) (wrap64 (auth_Timeout auth * Millisecond))
                             (auth_TokenPath auth)
         in case NewAllowlistWithLimiter (pf_rate pf) (pf_yaml pf) (auth_AllowlistFile auth) (Some New)
                   (sv_world s) of
              Inl e \<Rightarrow> (Inl (ApiLoadFailed e), s)
            | Inr (a, lm) \<Rightarrow>
                (case allowlist_Watch (pf_watcher_ok pf) (pf_watch_ok pf) a of
                   (Some e, _) \<Rightarrow> (Inl (ApiWatchFailed e), s)
                 | (None, a1) \<Rightarrow>
                     (Inr (api\<lparr>api_authMiddleware := Some (NewMiddleware client skip_paths),
                               api_limited := True, api_hasAllowlist := True\<rparr>),
                      s\<lparr>sv_allowlist := a1, sv_limiter := (case lm of None \<Rightarrow> New | Some l \<Rightarrow> l)\<rparr>)))"

text \<open>\<open>Close\<close>: \<open>None\<close> for the panic of closing the stop channel twice.\<close>

definition api_Close :: "API \<Rightarrow> 'b Server \<Rightarrow> 'b Server option" where
  "api_Close a s =
     (if api_hasAllowlist a
      then map_option (\<lambda>al. s\<lparr>sv_allowlist := al\<rparr>) (allowlist_Close (sv_allowlist s))
      else Some s)"

section \<open>Handlers\<close>

definition jsonResponse :: "json \<Rightarrow> int \<Rightarrow> Response" where
  "jsonResponse data status = \<lparr>rs_status = status, rs_headers = json_header, rs_body = JsonBody data\<rparr>"

definition no_file_text :: string where
  "no_file_text = ''No file provided. Please upload a file using the '' @ CHR 0x27 # ''file'' @
     CHR 0x27 # '' field''"

definition scan_body :: "ScanResponse \<Rightarrow> string \<Rightarrow> json" where
  "scan_body result fileName =
     JObj ([(''duration'', JNum (Itoa (resp_TotalDuration result))),
            (''engine'', JStr (resp_Engine result)),
            (''fileId'', JStr (resp_FileID result)),
            (''fileName'', JStr fileName)] @
           (if resp_Signature result \<noteq> [] then [(''signature'', JStr (resp_Signature result))] else []) @
           [(''status'', JStr (status_string (resp_Status result)))])"

definition handleScan :: "API \<Rightarrow> 'b handler" where
  "handleScan a r s =
     (case rq_Form r of
        FormInvalid \<Rightarrow> (Some (jsonError ''File too large or invalid form'' 400), s)
      | FormNoFile \<Rightarrow> (Some (jsonError no_file_text 400), s)
      | FormFile fileName content copied \<Rightarrow>
          (let fileID = sv_fresh s (sv_drawn s);
               s1 = s\<lparr>sv_drawn := Suc (sv_drawn s)\<rparr>;
               filePath = GetUploadPath (api_scanner a) fileID fileName
           in case os_Create filePath (sv_world s1) of
                (Some e, w1) \<Rightarrow> (Some (jsonError ''Failed to save uploaded file'' 500), set_world w1 s1)
              | (None, w1) \<Rightarrow>
                  (let w2 = write_file filePath content w1
                   in if \<not> copied
                      then (Some (jsonError ''Failed to save uploaded file'' 500),
                            set_world (snd (os_Remove filePath w2)) s1)
                      else (case Scan (api_scanner a) filePath fileID fileName (int (length content)) w2 of
                              None \<Rightarrow> (None, set_world w2 s1)
                            | Some (Inl e, w3) \<Rightarrow>
                                (Some (jsonError (''Scan failed: '' @ failure_text e) 500),
                                 set_world (w3\<lparr>w_metrics :=
                                   RecordScan (cfg_ActiveEngine (api_config a)) ''error'' (w_metrics w3)\<rparr>) s1)
                            | Some (Inr result, w3) \<Rightarrow>
                                (Some (jsonResponse (scan_body result fileName) 200), set_world w3 s1)))))"

definition health_body :: "EngineHealth \<Rightarrow> json" where
  "health_body h =
     JObj ([(''engine'', JStr (eh_Engine h))] @
           (if eh_Error h \<noteq> [] then [(''error'', JStr (eh_Error h))] else []) @
           [(''healthy'', JBool (eh_Healthy h)), (''lastCheck'', JNum (Itoa (eh_LastCheck h)))] @
           (if eh_Version h \<noteq> [] then [(''version'', JStr (eh_Version h))] else []))"

text \<open>The health of the first result for the active engine; a nil result is dereferenced.\<close>

fun active_healthy :: "EngineType \<Rightarrow> EngineHealth list \<Rightarrow> bool" where
  "active_healthy e [] = False"
| "active_healthy e (h # hs) = (if eh_Engine h = e then eh_Healthy h else active_healthy e hs)"

definition handleHealth :: "API \<Rightarrow> 'b handler" where
  "handleHealth a r s =
     (case scanner_CheckHealth (api_scanner a) (sv_world s) of
        None \<Rightarrow> (None, s)
      | Some hs \<Rightarrow>
          if None \<in> set hs then (None, s)
          else (let results = map the hs;
                    active = ActiveEngine (api_scanner a);
                    ok = active_healthy active results
                in (Some (jsonResponse
                     (JObj [(''activeEngine'', JStr active), (''engines'', JArr (map health_body results)),
                            (''status'', JStr (if ok then ''healthy'' else ''unhealthy''))])
                     (if ok then 200 else 503)), s)))"

definition engine_body :: "EngineType \<Rightarrow> EngineInfo \<Rightarrow> json" where
  "engine_body active e =
     JObj [(''active'', JBool (ei_Engine e = active)), (''available'', JBool (ei_Available e)),
           (''engine'', JStr (ei_Engine e)), (''manualScanAvailable'', JBool (ei_ManualScanAvailable e)),
           (''rtsEnabled'', JBool (ei_RTSEnabled e))]"

definition handleEngines :: "API \<Rightarrow> 'b handler" where
  "handleEngines a r s =
     (case GetEngineInfo (api_scanner a) of
        None \<Rightarrow> (None, s)
      | Some es \<Rightarrow>
          (let active = ActiveEngine (api_scanner a)
           in (Some (jsonResponse (JObj [(''activeEngine'', JStr active),
                 (''engines'', JArr (map (engine_body active) es))]) 200), s)))"

fun scan_err_text :: "ScanErr \<Rightarrow> string" where
  "scan_err_text ErrNoRTSDetection = ''no real-time detection''"
| "scan_err_text DeadlineExceeded = ''context deadline exceeded''"
| "scan_err_text (ErrOS NotExist) = ''file does not exist''"
| "scan_err_text (ErrOS PermissionDenied) = ''permission denied''"
| "scan_err_text (ErrExec e) = e"

definition not_ready :: "string \<Rightarrow> Response" where
  "not_ready message = jsonResponse (JObj [(''error'', JStr message), (''ready'', JBool False)]) 503"

definition handleReady :: "API \<Rightarrow> 'b handler" where
  "handleReady a r s =
     (case GetActiveEngineHealth (api_scanner a) (sv_world s) of
        None \<Rightarrow> (None, s)
      | Some (Inl e) \<Rightarrow> (Some (not_ready (scan_err_text e)), s)
      | Some (Inr h) \<Rightarrow>
          if \<not> eh_Healthy h
          then (Some (not_ready (if eh_Error h \<noteq> [] then eh_Error h else ''Unknown error'')), s)
          else (Some (jsonResponse (JObj [(''ready'', JBool True)]) 200), s))"

definition handleLive :: "API \<Rightarrow> 'b handler" where
  "handleLive a r s = (Some (jsonResponse (JObj [(''alive'', JBool True)]) 200), s)"

definition Version :: string where
  "Version = ''1.2.0''"

definition handleVersion :: "API \<Rightarrow> 'b handler" where
  "handleVersion a r s = (Some (jsonResponse (JObj [(''version'', JStr Version)]) 200), s)"

text \<open>\<open>metrics.Handler\<close>: the page of all collectors.\<close>

definition metrics_Handler :: "'b handler" where
  "metrics_Handler r s =
     (Some \<lparr>rs_status = 200, rs_headers = [], rs_body = MetricsBody (w_metrics (sv_world s))\<rparr>, s)"

section \<open>Routing\<close>

definition callerAccount :: "Request \<Rightarrow> string" where
  "callerAccount r =
     (case GetCallerIdentity r of
        None \<Rightarrow> []
      | Some i \<Rightarrow> account_key (ci_Namespace i) (ci_ServiceAccount i))"

definition scan_route :: "('b, 'r) Platform \<Rightarrow> API \<Rightarrow> 'b handler" where
  "scan_route pf a =
     (if api_limited a then limiter_Handler (pf_rate pf) callerAccount (handleScan a)
      else handleScan a)"

text \<open>The patterns: method, path, handler.\<close>

definition route_table :: "('b, 'r) Platform \<Rightarrow> API \<Rightarrow> (string \<times> string \<times> 'b handler) list" where
  "route_table pf a =
     [(''POST'', ''/api/v1/scan'', scan_route pf a),
      (''GET'', ''/api/v1/health'', handleHealth a),
      (''GET'', ''/api/v1/engines'', handleEngines a),
      (''GET'', ''/api/v1/ready'', handleReady a),
      (''GET'', ''/api/v1/live'', handleLive a),
      (''GET'', ''/api/v1/version'', handleVersion a),
      (''GET'', ''/metrics'', metrics_Handler)]"

text \<open>
  \<open>ServeMux\<close>: a path that is not clean is redirected, a pattern for GET serves HEAD too, a known
  path with another method is 405 and anything else 404.
\<close>

definition clean_url_path :: "string \<Rightarrow> string" where
  "clean_url_path p =
     (let q = (if HasPrefix p ''/'' then p else CHR ''/'' # p);
          c = Clean q
      in if last q = CHR ''/'' \<and> c \<noteq> ''/'' then c @ ''/'' else c)"

definition method_matches :: "string \<Rightarrow> string \<Rightarrow> bool" where
  "method_matches pattern method \<longleftrightarrow> method = pattern \<or> pattern = ''GET'' \<and> method = ''HEAD''"

definition plain_answer :: "int \<Rightarrow> string \<Rightarrow> Response" where
  "plain_answer status message =
     \<lparr>rs_status = status, rs_headers = [(''Content-Type'', ''text/plain; charset=utf-8'')],
      rs_body = TextBody message\<rparr>"

definition serve_mux :: "(string \<times> string \<times> 'b handler) list \<Rightarrow> 'b handler" where
  "serve_mux table r s =
     (if clean_url_path (rq_Path r) \<noteq> rq_Path r
      then (Some \<lparr>rs_status = 301, rs_headers = [(''Location'', clean_url_path (rq_Path r))],
                  rs_body = TextBody []\<rparr>, s)
      else case find (\<lambda>(m, p, h). p = rq_Path r \<and> method_matches m (rq_Method r)) table of
             Some (m, p, h) \<Rightarrow> h r s
           | None \<Rightarrow>
               if list_ex (\<lambda>(m, p, h). p = rq_Path r) table
               then (Some (plain_answer 405 ''Method Not Allowed''), s)
               else (Some (plain_answer 404 ''404 page not found''), s))"

section \<open>Recording middlewares\<close>

text \<open>
  Both wrap the response writer to see the status; a panic of the next handler passes through
  them before they record anything. \<open>WithLabelValues\<close> panics on a label value that is not UTF-8,
  which a path in the URL's percent-encoding may well be: then the answer that has been written is
  never sent and nothing is counted.
\<close>

definition withLogging :: "'b handler \<Rightarrow> 'b handler" where
  "withLogging next_h r s =
     (let start = server_now s
      in case next_h r s of
           (None, s1) \<Rightarrow> (None, s1)
         | (Some resp, s1) \<Rightarrow>
             (Some resp, s1\<lparr>sv_log := sv_log s1 @
                [\<lparr>al_Method = rq_Method r, al_Path = Clean (rq_Path r), al_Status = rs_status resp,
                  al_Duration = Milliseconds (server_now s1 - start)\<rparr>]\<rparr>))"

definition labels_ok :: "Request \<Rightarrow> bool" where
  "labels_ok r \<longleftrightarrow> valid_utf8 (rq_Method r) \<and> valid_utf8 (rq_Path r)"

definition metrics_Middleware :: "'b handler \<Rightarrow> 'b handler" where
  "metrics_Middleware next_h r s =
     (if rq_Path r = ''/metrics'' then next_h r s
      else let start = server_now s
      in case next_h r s of
           (None, s1) \<Rightarrow> (None, s1)
         | (Some resp, s1) \<Rightarrow>
             if \<not> labels_ok r then (None, s1)
             else (let w = sv_world s1
                   in (Some resp, set_world (w\<lparr>w_metrics := w_metrics w @
                         [HttpRequestsTotal (rq_Method r) (rq_Path r) (Itoa (rs_status resp)),
                          HttpRequestDuration (rq_Method r) (rq_Path r) (server_now s1 - start)]\<rparr>) s1)))"

definition guarded :: "('b, 'r) Platform \<Rightarrow> API \<Rightarrow> 'b handler" where
  "guarded pf a =
     (case api_authMiddleware a of
        None \<Rightarrow> serve_mux (route_table pf a)
      | Some m \<Rightarrow> auth_Handler (pf_auth pf) m (serve_mux (route_table pf a)))"

definition Routes :: "('b, 'r) Platform \<Rightarrow> API \<Rightarrow> 'b handler" where
  "Routes pf a = metrics_Middleware (withLogging (guarded pf a))"

section \<open>What the scan handler does\<close>

lemma set_world_frame [frame_simps]:
  "sv_limiter (set_world w s) = sv_limiter s" "sv_allowlist (set_world w s) = sv_allowlist s"
  "sv_world (set_world w s) = w" "sv_log (set_world w s) = sv_log s"
  "sv_drawn (set_world w s) = sv_drawn s" "sv_fresh (set_world w s) = sv_fresh s"
  by (simp_all add: set_world_def)

lemma handleScan_frame:
  "sv_limiter (snd (handleScan a r s)) = sv_limiter s"
  "sv_allowlist (snd (handleScan a r s)) = sv_allowlist s"
  "sv_log (snd (handleScan a r s)) = sv_log s"
  by (auto simp: handleScan_def frame_simps Let_def
      split: Form.splits prod.splits option.splits sum.splits)

lemma handler_frames:
  "snd (handleHealth a r s) = s" "snd (handleEngines a r s) = s" "snd (handleReady a r s) = s"
  "snd (handleLive a r s) = s" "snd (handleVersion a r s) = s" "snd (metrics_Handler r s) = s"
  by (auto simp: handleHealth_def handleEngines_def handleReady_def handleLive_def handleVersion_def
      metrics_Handler_def Let_def split: option.splits sum.splits)

lemma handleScan_slots: "pool_slots (srv_pool (snd (handleScan a r s))) = pool_slots (srv_pool s)"
  by (rule ext) (simp add: srv_pool_def handleScan_frame pool_slots_def)

lemma handleScan_keeps_slot:
  assumes "pool_valid lm" "pool_owns lm h (rel_account h)"
  shows "keeps_slot (handleScan a) r (set_pool lm s) h (\<lambda>_. 0)"
  using assms handleScan_slots [of a r "set_pool lm s"]
  by (simp add: keeps_slot_def srv_pool_def handleScan_frame pool_valid_def pool_owns_def
      set_pool_def pool_slots_def)

lemma os_Create_write:
  assumes "os_Create p w = (None, w1)"
  shows "os_ReadFile p (write_file p content w1) = Inr content"
    and "same_setup w (write_file p content w1)" and "w_cache (write_file p content w1) = w_cache w"
    and "write_file p content w1 = w\<lparr>w_files := (w_files w)(resolve w p \<mapsto> content)\<rparr>"
  using assms
  by (auto simp: os_Create_def write_file_def os_ReadFile_def file_at_def resolve_def same_setup_def
      split: if_splits)

lemma os_Create_fails: "os_Create p w = (Some e, w1) \<Longrightarrow> w1 = w"
  by (auto simp: os_Create_def split: if_splits)

lemma handleScan_scanned:
  assumes "handleScan a r s = (Some resp, s')"
    and "rs_status resp = 200 \<or> (\<exists>e. resp = jsonError (''Scan failed: '' @ failure_text e) 500)"
  obtains fn content w1 x w2 where
    "rq_Form r = FormFile fn content True"
    "os_Create (GetUploadPath (api_scanner a) (sv_fresh s (sv_drawn s)) fn) (sv_world s) = (None, w1)"
    "Scan (api_scanner a) (GetUploadPath (api_scanner a) (sv_fresh s (sv_drawn s)) fn)
       (sv_fresh s (sv_drawn s)) fn (int (length content))
       (write_file (GetUploadPath (api_scanner a) (sv_fresh s (sv_drawn s)) fn) content w1) = Some (x, w2)"
    "case x of Inr result \<Rightarrow> resp = jsonResponse (scan_body result fn) 200 \<and> sv_world s' = w2
     | Inl e \<Rightarrow> resp = jsonError (''Scan failed: '' @ failure_text e) 500 \<and>
         sv_world s' = w2\<lparr>w_metrics := RecordScan (cfg_ActiveEngine (api_config a)) ''error'' (w_metrics w2)\<rparr>"
proof -
  have ne: "rs_status (jsonError t n) = n" "jsonError t n = jsonError t' n' \<longleftrightarrow> t = t' \<and> n = n'" for t t' n n'
    by (auto simp: jsonError_def error_body_def)
  have texts: "''Failed to save uploaded file'' \<noteq> ''Scan failed: '' @ t" for t by simp
  show thesis
    using assms that
    by (auto simp: handleScan_def Let_def ne texts frame_simps
        split: Form.splits prod.splits option.splits if_splits sum.splits)
qed

text \<open>
  C2: a 200 answer of the scan endpoint is about the client's own bytes: the world that was scanned is
  the one the request found, with the uploaded content stored under the upload path of a fresh file
  id, and the scan of that path in that world is what leads to the world after the request. The
  answer shows its status, signature and file id: clean only if the engine's manual scan of the stored
  file said clean, infected only if that scan said so or, when it gave no verdict, the real-time
  scanner reported the file within the rest of the budget.
\<close>

theorem handleScan_answers:
  assumes "config_Validate stat_ok cfg = None" and "api_scanner a = fst (scanner_New cfg w0)"
    and "handleScan a r s = (Some resp, s')" and "rs_status resp = 200"
    and "fid = sv_fresh s (sv_drawn s)"
  shows "\<exists>fn content p stored d result.
    rq_Form r = FormFile fn content True \<and> p = GetUploadPath (api_scanner a) fid fn \<and>
    stored = (sv_world s)\<lparr>w_files := (w_files (sv_world s))(resolve (sv_world s) p \<mapsto> content)\<rparr> \<and>
    Scan (api_scanner a) p fid fn (int (length content)) stored = Some (Inr result, sv_world s') \<and>
    active_driver (api_scanner a) = Some d \<and> verdict_source d p stored result \<and>
    (resp_Status result = StatusClean \<longrightarrow>
       (\<exists>q w1. drv_ManualScan d p stored = (Inr q, w1) \<and> sr_Status q = StatusClean)) \<and>
    (resp_Status result = StatusClean \<or> resp_Status result = StatusInfected) \<and>
    resp_FileID result = fid \<and> rs_body resp = JsonBody (scan_body result fn)"
proof -
  obtain fn content w1 x w2 where run:
    "rq_Form r = FormFile fn content True"
    "os_Create (GetUploadPath (api_scanner a) fid fn) (sv_world s) = (None, w1)"
    "Scan (api_scanner a) (GetUploadPath (api_scanner a) fid fn) fid fn (int (length content))
       (write_file (GetUploadPath (api_scanner a) fid fn) content w1) = Some (x, w2)"
    "case x of Inr result \<Rightarrow> resp = jsonResponse (scan_body result fn) 200 \<and> sv_world s' = w2
     | Inl e \<Rightarrow> resp = jsonError (''Scan failed: '' @ failure_text e) 500 \<and>
         sv_world s' = w2\<lparr>w_metrics := RecordScan (cfg_ActiveEngine (api_config a)) ''error'' (w_metrics w2)\<rparr>"
    using handleScan_scanned [OF assms(3)] assms(4,5) by metis
  let ?p = "GetUploadPath (api_scanner a) fid fn"
  let ?w = "write_file ?p content w1"
  from run(4) assms(4) obtain result where res: "x = Inr result" "sv_world s' = w2"
    "rs_body resp = JsonBody (scan_body result fn)"
    by (cases x) (auto simp: jsonError_def jsonResponse_def)
  obtain d where d: "active_driver (api_scanner a) = Some d" "av_driver d"
    "scan_with d ?p fid ?w = (Inr result, w2)"
    by (rule Scan_New [OF assms(1) run(3) [unfolded assms(2) res(1)]]) (simp add: assms(2))
  from run(3) d(1) os_Create_write(4) [OF run(2)] res run(1) scan_with_source [OF d(3)]
    av_driver.scan_with_verdict [OF d(2,3)]
  show ?thesis by (intro exI conjI) auto
qed

text \<open>
  C29: a scan that ends without a verdict leaves the upload where it is: the answer 500 "scanner
  returned no verdict" means the unverified file is still on disk, or the system would not say whether it
  is (its status is hidden).
\<close>

theorem handleScan_keeps_unverified_upload:
  assumes "config_Validate stat_ok cfg = None" and "api_scanner a = fst (scanner_New cfg w0)"
    and "world_ok (sv_world s)"
    and "handleScan a r s = (Some (jsonError (''Scan failed: '' @ failure_text ScanNoVerdict) 500), s')"
  shows "\<exists>fn content. rq_Form r = FormFile fn content True \<and>
    (file_at (sv_world s') (GetUploadPath (api_scanner a) (sv_fresh s (sv_drawn s)) fn) \<noteq> None \<or>
     w_hidden (sv_world s) (resolve (sv_world s) (GetUploadPath (api_scanner a) (sv_fresh s (sv_drawn s)) fn)))"
proof -
  obtain fn content w1 x w2 where run:
    "rq_Form r = FormFile fn content True"
    "os_Create (GetUploadPath (api_scanner a) (sv_fresh s (sv_drawn s)) fn) (sv_world s) = (None, w1)"
    "Scan (api_scanner a) (GetUploadPath (api_scanner a) (sv_fresh s (sv_drawn s)) fn)
       (sv_fresh s (sv_drawn s)) fn (int (length content))
       (write_file (GetUploadPath (api_scanner a) (sv_fresh s (sv_drawn s)) fn) content w1) = Some (x, w2)"
    "case x of Inr result \<Rightarrow> jsonError (''Scan failed: '' @ failure_text ScanNoVerdict) 500
         = jsonResponse (scan_body result fn) 200 \<and> sv_world s' = w2
     | Inl e \<Rightarrow> jsonError (''Scan failed: '' @ failure_text ScanNoVerdict) 500
         = jsonError (''Scan failed: '' @ failure_text e) 500 \<and>
         sv_world s' = w2\<lparr>w_metrics := RecordScan (cfg_ActiveEngine (api_config a)) ''error'' (w_metrics w2)\<rparr>"
    using handleScan_scanned [OF assms(4)] by metis
  let ?p = "GetUploadPath (api_scanner a) (sv_fresh s (sv_drawn s)) fn"
  have x: "x = Inl ScanNoVerdict"
  proof (cases x)
    case (Inl e)
    with run(4) show ?thesis by (cases e) (auto simp: jsonError_def error_body_def)
  next
    case (Inr result)
    with run(4) show ?thesis by (simp add: jsonError_def jsonResponse_def)
  qed
  have ok: "world_ok (write_file ?p content w1)"
    using os_Create_write(2) [OF run(2)] assms(3) same_setup_ok by metis
  obtain d where "av_driver d"
    "scan_with d ?p (sv_fresh s (sv_drawn s)) (write_file ?p content w1) = (x, w2)"
    by (rule Scan_New [OF assms(1) run(3) [unfolded assms(2)]]) (simp add: assms(2))
  from av_driver.scan_with_outcome [OF this(1) ok this(2)] x os_Create_write(2) [OF run(2), of content]
  have "file_at w2 ?p \<noteq> None \<or> w_hidden (sv_world s) (resolve (sv_world s) ?p)"
    by (auto simp: scan_outcome_def os_Stat_def same_setup_def resolve_def split: option.splits if_splits)
  with run(1,4) x show ?thesis by (auto simp: file_at_def resolve_def)
qed

section \<open>The chain\<close>

lemma route_table_other:
  assumes "(m, p, h) \<in> set (route_table pf a)"
  shows "m = ''POST'' \<and> p = ''/api/v1/scan'' \<and> h = scan_route pf a \<or> m = ''GET'' \<and> snd (h r s) = s"
  using assms by (auto simp: route_table_def handler_frames)

lemma serve_mux_other:
  assumes "rq_Method r \<noteq> ''POST'' \<or> rq_Path r \<noteq> ''/api/v1/scan''"
  shows "snd (serve_mux (route_table pf a) r s) = s"
proof (cases "find (\<lambda>(m, p, h). p = rq_Path r \<and> method_matches m (rq_Method r)) (route_table pf a)")
  case None
  then show ?thesis by (simp add: serve_mux_def)
next
  case (Some x)
  obtain m p h where x: "x = (m, p, h)" by (metis prod_cases3)
  from Some x have "(m, p, h) \<in> set (route_table pf a)" "p = rq_Path r" "method_matches m (rq_Method r)"
    by (auto dest!: find_SomeD)
  with route_table_other [of m p h pf a r s] assms have "snd (h r s) = s"
    by (auto simp: method_matches_def)
  with Some x show ?thesis by (simp add: serve_mux_def)
qed

lemma serve_mux_scan:
  assumes "rq_Path r = ''/api/v1/scan''" "rq_Method r = ''POST''"
  shows "serve_mux (route_table pf a) r s = scan_route pf a r s"
proof -
  have clean: "clean_url_path ''/api/v1/scan'' = ''/api/v1/scan''" by code_simp
  have "find (\<lambda>(m, p, h). p = rq_Path r \<and> method_matches m (rq_Method r)) (route_table pf a)
      = Some (''POST'', ''/api/v1/scan'', scan_route pf a)"
    unfolding route_table_def find.simps assms by (simp add: method_matches_def)
  then show ?thesis unfolding serve_mux_def by (simp add: assms clean)
qed

lemma wrappers_frame:
  "fst (Routes pf a r s) =
     (if rq_Path r = ''/metrics'' \<or> labels_ok r then fst (guarded pf a r s) else None)"
  "sv_limiter (snd (Routes pf a r s)) = sv_limiter (snd (guarded pf a r s))"
  "sv_allowlist (snd (Routes pf a r s)) = sv_allowlist (snd (guarded pf a r s))"
  "(sv_world (snd (Routes pf a r s)))\<lparr>w_metrics := m\<rparr> = (sv_world (snd (guarded pf a r s)))\<lparr>w_metrics := m\<rparr>"
  by (auto simp: Routes_def metrics_Middleware_def withLogging_def set_world_def Let_def
      split: prod.splits option.splits)

text \<open>
  C8: with authentication on, a request for any path but the three exempt ones that does not prove an
  allowlisted caller is answered 401 or 403, whatever it asks for: no file is written, nothing is
  scanned, no slot is taken and no file id drawn; the access log gets one line with that status, and
  the metrics get this request's two HTTP calls and nothing else. With a path that is not UTF-8 the
  recording of these calls panics: then the metrics stay as they were, and the answer is lost.
\<close>

theorem Routes_refuses_strangers:
  assumes "api_authMiddleware a = Some (NewMiddleware client skip_paths)"
    and "rq_Path r \<notin> {''/api/v1/live'', ''/api/v1/ready'', ''/metrics''}"
    and "case proven_identity (pf_auth pf) (NewMiddleware client skip_paths) r (sv_world s) of
      None \<Rightarrow> True
    | Some i \<Rightarrow> \<not> IsAllowed (sv_allowlist s) (ci_Namespace i) (ci_ServiceAccount i)"
  shows "\<exists>resp ms dt. rs_status resp \<in> {401, 403} \<and>
    Routes pf a r s =
      (if labels_ok r then Some resp else None,
       s\<lparr>sv_log := sv_log s @ [\<lparr>al_Method = rq_Method r, al_Path = Clean (rq_Path r),
                               al_Status = rs_status resp, al_Duration = ms\<rparr>],
         sv_world := (sv_world s)\<lparr>w_metrics := w_metrics (sv_world s) @
           (if labels_ok r
            then [HttpRequestsTotal (rq_Method r) (rq_Path r) (Itoa (rs_status resp)),
                  HttpRequestDuration (rq_Method r) (rq_Path r) dt]
            else [])\<rparr>\<rparr>)"
proof -
  let ?m = "NewMiddleware client skip_paths" and ?next = "serve_mux (route_table pf a)"
  have skip: "\<not> am_skipPaths ?m (rq_Path r)"
    using assms(2) by (auto simp: NewMiddleware_def skip_paths_def)
  have g: "guarded pf a r s = auth_Handler (pf_auth pf) ?m ?next r s"
    by (simp add: guarded_def assms(1))
  have "snd (guarded pf a r s) = s \<and>
      (\<exists>resp. fst (guarded pf a r s) = Some resp \<and> rs_status resp \<in> {401, 403})"
    unfolding g auth_Handler_alt [OF skip] using assms(3)
    by (auto simp: proven_identity_def jsonError_def split: sum.splits if_splits)
  then obtain resp where "guarded pf a r s = (Some resp, s)" "rs_status resp \<in> {401, 403}"
    by (metis prod.collapse)
  then show ?thesis
    using assms(2)
    by (auto simp: Routes_def metrics_Middleware_def withLogging_def set_world_def Let_def
        intro!: exI [of _ resp])
qed

lemma scan_route_slots:
  assumes "pool_valid (srv_pool s)"
  shows "pool_valid (srv_pool (snd (scan_route pf a r s))) \<and>
    (\<forall>b. pool_slots (srv_pool (snd (scan_route pf a r s))) b = pool_slots (srv_pool s) b)"
proof (cases "api_limited a \<and> callerAccount r \<noteq> []")
  case False
  then have "snd (scan_route pf a r s) = snd (handleScan a r s)"
    by (auto simp: scan_route_def limiter_Handler_def)
  with assms handleScan_slots [of a r s] show ?thesis
    by (simp add: srv_pool_def handleScan_frame pool_valid_def)
next
  case True
  obtain res lm where acq: "pool_acquire (pf_rate pf) (server_now s) (callerAccount r) (srv_pool s) = (res, lm)"
    by (metis surj_pair)
  show ?thesis
  proof (cases res)
    case (Inl rej)
    with acq True pool.acquire_refused [OF assms acq [unfolded Inl]] show ?thesis
      by (simp add: scan_route_def limiter_Handler_def)
  next
    case (Inr h)
    note g = pool.acquire_granted [OF assms acq [unfolded Inr]]
    then have owner: "rel_account h = callerAccount r" by (simp add: pool_owns_def)
    with g handleScan_keeps_slot [of lm h a r s]
    have "keeps_slot (handleScan a) r (set_pool lm s) h (\<lambda>_. 0)" by simp
    moreover obtain resp s2 where run: "handleScan a r (set_pool lm s) = (resp, s2)" by fastforce
    ultimately have keep: "pool_valid (srv_pool s2)" "pool_owns (srv_pool s2) h (callerAccount r)"
      "\<And>b. pool_slots (srv_pool s2) b = pool_slots lm b + (\<lambda>_. 0) b"
      using owner by (simp_all add: keeps_slot_def Let_def)
    from pool.bracket [OF assms acq [unfolded Inr] keep] show ?thesis
      using acq Inr run True by (simp add: scan_route_def limiter_Handler_def)
  qed
qed

text \<open>
  C13: no request leaks a slot. Through the whole chain, for every method, path, caller and form,
  and whether the request is refused, answered, or panics, the in-flight count of every account
  is after the request what it was before.
\<close>

theorem Routes_balances_slots:
  assumes "pool_valid (srv_pool s)"
  shows "pool_valid (srv_pool (snd (Routes pf a r s))) \<and>
    pool_slots (srv_pool (snd (Routes pf a r s))) account = pool_slots (srv_pool s) account"
proof -
  have mux: "pool_valid (srv_pool (snd (serve_mux (route_table pf a) r s))) \<and>
      pool_slots (srv_pool (snd (serve_mux (route_table pf a) r s))) account = pool_slots (srv_pool s) account"
    for r
  proof (cases "rq_Method r = ''POST'' \<and> rq_Path r = ''/api/v1/scan''")
    case True
    with scan_route_slots [OF assms, of pf a r] serve_mux_scan [of r pf a s] show ?thesis by simp
  next
    case False
    with serve_mux_other [of r pf a s] assms show ?thesis by auto
  qed
  have "pool_valid (srv_pool (snd (guarded pf a r s))) \<and>
      pool_slots (srv_pool (snd (guarded pf a r s))) account = pool_slots (srv_pool s) account"
    using mux assms
    by (auto simp: guarded_def auth_Handler_def Let_def split: option.splits sum.splits)
  then show ?thesis
    by (simp add: srv_pool_def wrappers_frame pool_valid_def pool_slots_def)
qed

text \<open>
  What the routed handlers keep: nothing that belongs to the recording middlewares is touched, and
  the world stays one in which the program's other parts can work.
\<close>

definition quiet :: "World \<Rightarrow> World \<Rightarrow> bool" where
  "quiet w w' \<longleftrightarrow> http_calls (w_metrics w') = http_calls (w_metrics w) \<and>
     (world_ok w \<longrightarrow> world_ok w') \<and> cache_kept w w'"

lemma quiet_refl [simp]: "quiet w w"
  by (simp add: quiet_def)

lemma quiet_trans: "quiet a b \<Longrightarrow> quiet b c \<Longrightarrow> quiet a c"
  by (auto simp: quiet_def intro: cache_kept_trans)

lemma quiet_files: "quiet w (w\<lparr>w_files := f\<rparr>)"
  by (simp add: quiet_def world_ok_def cache_kept_def)

lemma quiet_metrics: "http_calls m = http_calls (w_metrics w) \<Longrightarrow> quiet w (w\<lparr>w_metrics := m\<rparr>)"
  by (simp add: quiet_def world_ok_def cache_kept_def)

lemma quiet_remove: "quiet w (snd (os_Remove p w))"
  using quiet_files [of w] by (simp add: os_Remove_def split: option.split)

lemma quiet_create: "os_Create p w = (e, w1) \<Longrightarrow> quiet w w1"
  using quiet_files [of w] by (auto simp: os_Create_def split: if_splits)

definition handled :: "'b Server \<Rightarrow> 'b Server \<Rightarrow> bool" where
  "handled s s' \<longleftrightarrow> sv_log s' = sv_log s \<and> sv_allowlist s' = sv_allowlist s \<and>
     quiet (sv_world s) (sv_world s')"

lemma handled_refl [simp]: "handled s s"
  by (simp add: handled_def)

lemma handled_trans: "handled a b \<Longrightarrow> handled b c \<Longrightarrow> handled a c"
  by (auto simp: handled_def intro: quiet_trans)

lemma handled_set_pool: "http_calls (snd lm) = http_calls (w_metrics (sv_world s)) \<Longrightarrow> handled s (set_pool lm s)"
  by (simp add: handled_def set_pool_def quiet_metrics)

lemma handleScan_handled:
  assumes "config_Validate stat_ok cfg = None" and "api_scanner a = fst (scanner_New cfg w0)"
    and "world_ok (sv_world s)"
  shows "handled s (snd (handleScan a r s))"
proof -
  have scan: "quiet w2 w3"
    if w2: "world_ok w2" and run: "Scan (api_scanner a) p fid fn n w2 = Some (x, w3)" for p fid fn n w2 x w3
  proof -
    obtain d where "av_driver d" "scan_with d p fid w2 = (x, w3)"
      by (rule Scan_New [OF assms(1) run [unfolded assms(2)]])
    from av_driver.scan_with_outcome [OF this(1) w2 this(2)] show ?thesis
      by (auto simp: scan_outcome_def quiet_def split: sum.splits)
  qed
  have "quiet (sv_world s) (sv_world (snd (handleScan a r s)))"
  proof (cases "rq_Form r")
    case (FormFile fn content copied)
    let ?fid = "sv_fresh s (sv_drawn s)"
    let ?p = "GetUploadPath (api_scanner a) ?fid fn"
    obtain e w1 where cr: "os_Create ?p (sv_world s) = (e, w1)" by fastforce
    let ?w = "write_file ?p content w1"
    have q: "quiet (sv_world s) w1" "quiet (sv_world s) ?w"
      using quiet_create [OF cr] quiet_files [of w1] by (auto simp: write_file_def intro: quiet_trans)
    show ?thesis
    proof (cases "e = None \<and> copied")
      case False
      with FormFile cr q quiet_trans [OF q(2) quiet_remove] show ?thesis
        by (cases e) (simp_all add: handleScan_def frame_simps Let_def)
    next
      case True
      show ?thesis
      proof (cases "Scan (api_scanner a) ?p ?fid fn (int (length content)) ?w")
        case None
        with FormFile cr True q show ?thesis by (simp add: handleScan_def frame_simps Let_def)
      next
        case (Some xw)
        then obtain x w3 where run: "Scan (api_scanner a) ?p ?fid fn (int (length content)) ?w = Some (x, w3)"
          by (cases xw) simp
        have "world_ok ?w" using q(2) assms(3) by (simp add: quiet_def)
        from quiet_trans [OF q(2) scan [OF this run]] have w3: "quiet (sv_world s) w3" .
        have "quiet w3 (w3\<lparr>w_metrics := RecordScan e' st (w_metrics w3)\<rparr>)" for e' st
          by (simp add: quiet_metrics)
        with FormFile cr True run w3 quiet_trans [OF w3] show ?thesis
          by (cases x) (simp_all add: handleScan_def frame_simps Let_def)
      qed
    qed
  qed (simp_all add: handleScan_def frame_simps)
  then show ?thesis by (simp add: handled_def handleScan_frame)
qed

lemma guarded_handled:
  assumes "config_Validate stat_ok cfg = None" and "api_scanner a = fst (scanner_New cfg w0)"
    and "world_ok (sv_world s)"
  shows "handled s (snd (guarded pf a r s))"
proof -
  have scan: "handled s (snd (scan_route pf a r s))" for r
  proof (cases "api_limited a \<and> callerAccount r \<noteq> []")
    case False
    with handleScan_handled [OF assms, of r] show ?thesis
      by (auto simp: scan_route_def limiter_Handler_def)
  next
    case True
    obtain res lm where acq: "pool_acquire (pf_rate pf) (server_now s) (callerAccount r) (srv_pool s) = (res, lm)"
      by (metis surj_pair)
    have pool: "handled s (set_pool lm s)"
      using acq by (cases lm) (auto simp: pool_acquire_def srv_pool_def intro!: handled_set_pool dest: Acquire_metrics)
    then have "world_ok (sv_world (set_pool lm s))" using assms(3) by (simp add: handled_def quiet_def)
    from handled_trans [OF pool handleScan_handled [OF assms(1,2) this]]
    have s2: "handled s (snd (handleScan a r (set_pool lm s)))" .
    have "handled s2 (set_pool (release h (srv_pool s2)) s2)" for h and s2 :: "'a Server"
      by (rule handled_set_pool) (simp add: release_def srv_pool_def Let_def)
    with pool handled_trans [OF s2] acq True show ?thesis
      by (cases res) (auto simp: scan_route_def limiter_Handler_def split: prod.split)
  qed
  have mux: "handled s (snd (serve_mux (route_table pf a) r s))" for r
    using scan [of r] serve_mux_scan [of r pf a s] serve_mux_other [of r pf a s]
    by (cases "rq_Method r = ''POST'' \<and> rq_Path r = ''/api/v1/scan''") auto
  then show ?thesis
    by (auto simp: guarded_def auth_Handler_def Let_def split: option.splits sum.splits)
qed

text \<open>So a whole request keeps the world fit for work, and the stop channels as they are.\<close>

lemma Routes_kept:
  assumes "config_Validate stat_ok cfg = None" and "api_scanner a = fst (scanner_New cfg w0)"
    and "world_ok (sv_world s)"
  shows "world_ok (sv_world (snd (Routes pf a r s))) \<and> cache_kept (sv_world s) (sv_world (snd (Routes pf a r s))) \<and>
    sv_allowlist (snd (Routes pf a r s)) = sv_allowlist s"
proof -
  obtain x s1 where g: "guarded pf a r s = (x, s1)" by fastforce
  with guarded_handled [OF assms, of pf r] assms(3)
  have "world_ok (sv_world s1)" "cache_kept (sv_world s) (sv_world s1)" "sv_allowlist s1 = sv_allowlist s"
    by (simp_all add: handled_def quiet_def)
  with g show ?thesis
    by (auto simp: Routes_def metrics_Middleware_def withLogging_def set_world_def world_ok_def
        cache_kept_def Let_def split: option.split)
qed

text \<open>
  C38: every answered request is recorded exactly once. The access log after the request is the one before
  it and one line, with the request's method, its cleaned path and the status that was sent; and the
  HTTP calls in the metrics are those before it and one count with the method, path and status and
  one duration, or none for the metrics page.
\<close>

theorem Routes_recorded_once:
  assumes "config_Validate stat_ok cfg = None" and "api_scanner a = fst (scanner_New cfg w0)"
    and "world_ok (sv_world s)" and "Routes pf a r s = (Some resp, s')"
  shows "sv_log s' = sv_log s @ [\<lparr>al_Method = rq_Method r, al_Path = Clean (rq_Path r),
      al_Status = rs_status resp, al_Duration = Milliseconds (server_now s' - server_now s)\<rparr>] \<and>
    http_calls (w_metrics (sv_world s')) = http_calls (w_metrics (sv_world s)) @
      (if rq_Path r = ''/metrics'' then []
       else [HttpRequestsTotal (rq_Method r) (rq_Path r) (Itoa (rs_status resp)),
             HttpRequestDuration (rq_Method r) (rq_Path r) (server_now s' - server_now s)])"
proof -
  obtain x s1 where g: "guarded pf a r s = (x, s1)" by fastforce
  have "handled s s1" using guarded_handled [OF assms(1-3), of pf r] g by simp
  with assms(4) g show ?thesis
    by (auto simp: Routes_def metrics_Middleware_def withLogging_def set_world_def server_now_def
        handled_def quiet_def http_calls_def Let_def split: option.splits if_splits)
qed

text \<open>
  C14: the concurrency limit is enforced end to end: a proven, allowlisted caller who already has as many scans in
  flight as its limit allows gets 429 with the reason "concurrency" from the scan endpoint, and nothing is
  stored or scanned for the request.
\<close>

theorem Routes_enforces_concurrency:
  assumes "api_authMiddleware a = Some (NewMiddleware client skip_paths)" and "api_limited a"
    and "rq_Path r = ''/api/v1/scan''" and "rq_Method r = ''POST''"
    and "proven_identity (pf_auth pf) (NewMiddleware client skip_paths) r (sv_world s) = Some i"
    and "IsAllowed (sv_allowlist s) (ci_Namespace i) (ci_ServiceAccount i)"
    and "pool_valid (srv_pool s)"
    and "k = lim_MaxConcurrent (effective_limits (lm_cfg (sv_limiter s))
           (account_key (ci_Namespace i) (ci_ServiceAccount i)))"
    and "0 < k" and "k \<le> pool_slots (srv_pool s) (account_key (ci_Namespace i) (ci_ServiceAccount i))"
  shows "\<exists>resp msg. fst (Routes pf a r s) = Some resp \<and> rs_status resp = 429 \<and>
    rs_body resp = JsonBody (JObj [(''error'', JStr msg), (''reason'', JStr ReasonConcurrency)]) \<and>
    (sv_world (snd (Routes pf a r s)))\<lparr>w_metrics := []\<rparr> = (sv_world s)\<lparr>w_metrics := []\<rparr>"
proof -
  let ?m = "NewMiddleware client skip_paths" and ?acc = "account_key (ci_Namespace i) (ci_ServiceAccount i)"
  let ?r = "r\<lparr>rq_identity := Some i\<rparr>"
  have skip: "\<not> am_skipPaths ?m (rq_Path r)"
    using assms(3) by (simp add: NewMiddleware_def skip_paths_def)
  have acc: "callerAccount ?r = ?acc" "?acc \<noteq> []"
    by (simp_all add: callerAccount_def GetCallerIdentity_def account_key_def)
  have wf: "limiter_wf (sv_limiter s)" using assms(7) by (simp add: pool_valid_def srv_pool_def)
  obtain res l' m' where acq: "Acquire (pf_rate pf) ?acc (server_now s) (sv_limiter s, w_metrics (sv_world s))
      = (res, l', m')" by (metis prod_cases3)
  have inflight: "k \<le> snd (entry_of (sv_limiter s) ?acc)"
    using assms(10) by (simp add: pool_slots_def srv_pool_def)
  obtain rej where rej: "res = Inl rej" "rej_Reason rej = ReasonConcurrency"
  proof (cases res)
    case (Inl rej)
    with Acquire_rejected [OF wf acq [unfolded Inl]] assms(8,9) inflight that show ?thesis by auto
  next
    case (Inr h)
    with Acquire_granted [OF wf acq [unfolded Inr]] assms(8,9) inflight show ?thesis by auto
  qed
  have pr: "HasPrefix (rq_Authorization r) bearer_prefix"
    "client_Validate (ae_url_ok (pf_auth pf)) (ae_service (pf_auth pf)) (am_client ?m)
       (TrimPrefix (rq_Authorization r) bearer_prefix) (sv_world s) = Inr i"
    using assms(5) by (auto simp: proven_identity_def split: if_splits sum.splits)
  have "guarded pf a r s = scan_route pf a ?r s"
    unfolding guarded_def assms(1) using auth_Handler_alt [OF skip, where env = "pf_auth pf"
        and next_h = "serve_mux (route_table pf a)" and s = s] pr assms(6)
      serve_mux_scan [of ?r pf a s] assms(3,4) by simp
  also have "... = (Some (writeRejection ?acc rej), set_pool (l', m') s)"
    using acc acq rej(1) assms(2)
    by (simp add: scan_route_def limiter_Handler_def pool_acquire_def srv_pool_def)
  finally have g: "guarded pf a r s = (Some (writeRejection ?acc rej), set_pool (l', m') s)" .
  moreover have "labels_ok r" by (simp add: labels_ok_def assms(3,4) valid_utf8_ascii byte_def)
  ultimately have "fst (Routes pf a r s) = Some (writeRejection ?acc rej)"
    "(sv_world (snd (Routes pf a r s)))\<lparr>w_metrics := []\<rparr> = (sv_world s)\<lparr>w_metrics := []\<rparr>"
    by (simp_all add: wrappers_frame set_pool_def)
  with rej(2) show ?thesis by (simp add: writeRejection_def)
qed

text \<open>
  C32: construction decides the guard: with authentication on, an API is only built when the allowlist
  file was acceptable, and then it has the authentication middleware with the three exempt paths,
  the limiter with the file's limits, and the file's entries; with authentication off it has none
  of these and the server is untouched.
\<close>

theorem api_New_guarded:
  assumes "api_New pf sc cfg s = (Inr a, s')"
  shows "api_scanner a = sc \<and>
    (if auth_Enabled (cfg_Auth cfg) then
       (\<exists>client c. api_authMiddleware a = Some (NewMiddleware client skip_paths) \<and> api_limited a \<and>
          cl_baseURL client = auth_K8sAPIEndpoint (cfg_Auth cfg) \<and>
          acceptable (pf_yaml pf) (auth_AllowlistFile (cfg_Auth cfg)) (sv_world s) = Some c \<and>
          (\<forall>ns n. IsAllowed (sv_allowlist s') ns n = (account_key ns n \<in> set (ac_Allowlist c))) \<and>
          lm_cfg (sv_limiter s') = ac_RateLimits c \<and> limiter_wf (sv_limiter s'))
     else api_authMiddleware a = None \<and> \<not> api_limited a \<and> s' = s)"
proof (cases "auth_Enabled (cfg_Auth cfg)")
  case False
  with assms show ?thesis by (auto simp: api_New_def Let_def)
next
  case True
  let ?f = "auth_AllowlistFile (cfg_Auth cfg)"
  let ?a0 = "\<lparr>al_entries = (\<lambda>_. False), al_filePath = ?f, al_watcher = NoWatcher, al_stopped = False\<rparr>"
  obtain a0 lm where load: "allowlist_load (pf_rate pf) (pf_yaml pf) (sv_world s) (?a0, Some New) = (None, a0, lm)"
    and a: "api_authMiddleware a = Some (NewMiddleware (NewClient (auth_K8sAPIEndpoint (cfg_Auth cfg))
        (wrap64 (auth_Timeout (cfg_Auth cfg) * Millisecond)) (auth_TokenPath (cfg_Auth cfg))) skip_paths)"
      "api_limited a" "api_scanner a = sc" "al_entries (sv_allowlist s') = al_entries a0"
      "sv_limiter s' = (case lm of None \<Rightarrow> New | Some l \<Rightarrow> l)"
    using assms True
    by (auto simp: api_New_def NewAllowlistWithLimiter_def allowlist_Watch_def Let_def
        split: prod.splits option.splits sum.splits if_splits)
  obtain c where c: "acceptable (pf_yaml pf) ?f (sv_world s) = Some c"
    using load_fails_iff [of "pf_rate pf" "pf_yaml pf" "sv_world s" ?a0 "Some New"] load by auto
  with load_cases [of "pf_rate pf" "pf_yaml pf" "sv_world s" ?a0 "Some New"] load
  have "al_entries a0 = mkset (ac_Allowlist c)"
    "lm = Some (Update (pf_rate pf) (ac_RateLimits c) (Some (mkset (ac_Allowlist c))) (w_now (sv_world s)) New)"
    by auto
  moreover from this a(5) have "limiter_wf (sv_limiter s')"
    by (simp add: Update_view(1) [OF limiter_wf_New])
  ultimately show ?thesis
    using a c True
    by (auto simp: IsAllowed_def Update_config NewClient_def)
qed

section \<open>Concrete requests\<close>

definition sample_platform :: "(Bucket, Reservation) Platform" where
  "sample_platform =
     \<lparr>pf_rate = bucket,
      pf_yaml = (\<lambda>t. Some \<lparr>ac_Allowlist = [t], ac_RateLimits = Some \<lparr>rc_Default =
        \<lparr>lim_MaxConcurrent = 1, lim_RequestsPerMinute = 0, lim_Burst = 0\<rparr>, rc_Overrides = []\<rparr>\<rparr>),
      pf_watcher_ok = True, pf_watch_ok = True, pf_auth = sample_env\<rparr>"

definition sample_api :: "EngineType \<Rightarrow> API" where
  "sample_api e =
     \<lparr>api_scanner = sample_scanner e, api_config = sample_config e,
      api_authMiddleware = Some (NewMiddleware (NewClient ''https://k8s'' 5 []) skip_paths),
      api_limited = True, api_hasAllowlist = True\<rparr>"

abbreviation sample_srv :: "Bucket Server" where
  "sample_srv \<equiv> sample_server"

lemma sample_pool: "pool_valid (srv_pool sample_srv)" "pool_slots (srv_pool sample_srv) a = 0"
  by (simp_all add: pool_valid_def pool_slots_def srv_pool_def sample_server_def entry_of_def)

lemma limiter_Handler_balanced_witness:
  "pool_slots (srv_pool (snd (limiter_Handler bucket (\<lambda>_. ''a/b'') (\<lambda>r s. (None, s))
      (sample_request ''POST'' ''/x'' []) sample_srv))) ''a/b'' = 0"
proof -
  let ?acq = "pool_acquire bucket (server_now sample_srv) ''a/b'' (srv_pool sample_srv)"
  have keeps: "\<forall>h lm. ?acq = (Inr h, lm) \<longrightarrow>
      keeps_slot (\<lambda>r s. (None, s)) (sample_request ''POST'' ''/x'' []) (set_pool lm sample_srv) h (\<lambda>_. 0)"
  proof (intro allI impI)
    fix h lm
    assume "?acq = (Inr h, lm)"
    from pool.acquire_granted [OF sample_pool(1) this]
    show "keeps_slot (\<lambda>r s. (None, s)) (sample_request ''POST'' ''/x'' []) (set_pool lm sample_srv) h (\<lambda>_. 0)"
      by (simp add: keeps_slot_def pool_owns_def)
  qed
  show ?thesis
    using limiter_Handler_balanced [where identity = "\<lambda>_. ''a/b''", OF _ sample_pool(1) keeps]
    by (auto simp: sample_pool(2) split: prod.splits sum.splits)
qed

lemma sample_upload_path: "GetUploadPath (sample_scanner e) ''7f-1'' ''a.txt'' = ''/u/7f-1.txt''"
proof -
  have "path_Join [''/u'', ''7f-1'' @ Ext ''a.txt''] = ''/u/7f-1.txt''" by code_simp
  then show ?thesis by (simp add: GetUploadPath_def scanner_New_def sample_config_def)
qed

lemma mock_scan_answers:
  assumes "os_ReadFile p w = Inr c"
  shows "\<exists>resp w'. Scan (sample_scanner EngineMock) p fid fn n w = Some (Inr resp, w')"
proof -
  have "active_driver (sample_scanner EngineMock)
      = Some (NewMockDriver (zero_driver_config\<lparr>dcfg_Engine := EngineMock\<rparr>))"
    by (simp add: active_driver_def scanner_New_def active_drivers_def sample_config_def)
  with assms show ?thesis
    by (auto simp: Scan_def scan_with_def finish_scan_def mock_driver_defs mock_ManualScan_def
        mock_scan_def Let_def)
qed

lemma sample_scan_200:
  "\<exists>resp s'. handleScan (sample_api EngineMock) (sample_request ''POST'' ''/api/v1/scan'' []) sample_srv =
     (Some resp, s') \<and> rs_status resp = 200"
proof -
  let ?w = "sample_world None [] (StartFails [])" and ?p = "''/u/7f-1.txt''"
  obtain w1 where create: "os_Create ?p ?w = (None, w1)"
    by (auto simp: os_Create_def sample_world_def)
  note read = os_Create_write(1) [OF create, of "''hi''"]
  obtain resp w' where "Scan (sample_scanner EngineMock) ?p ''7f-1'' ''a.txt'' 2 (write_file ?p ''hi'' w1)
      = Some (Inr resp, w')"
    using mock_scan_answers [OF read] by blast
  with create show ?thesis
    by (simp add: handleScan_def sample_api_def sample_request_def sample_server_def sample_upload_path
        jsonResponse_def Let_def)
qed

lemma handleScan_answers_witness:
  "\<exists>d m w1 resp s'. active_driver (sample_scanner EngineMock) = Some d \<and>
     handleScan (sample_api EngineMock) (sample_request ''POST'' ''/api/v1/scan'' []) sample_srv =
       (Some resp, s') \<and>
     (let w = sv_world sample_srv
      in drv_ManualScan d ''/u/7f-1.txt''
           (w\<lparr>w_files := (w_files w)(resolve w ''/u/7f-1.txt'' \<mapsto> ''hi'')\<rparr>)) = (m, w1)"
proof -
  obtain resp s' where run: "handleScan (sample_api EngineMock)
      (sample_request ''POST'' ''/api/v1/scan'' []) sample_srv = (Some resp, s')" "rs_status resp = 200"
    using sample_scan_200 by blast
  have sc: "api_scanner (sample_api EngineMock) = sample_scanner EngineMock"
    by (simp add: sample_api_def)
  have srv: "sv_fresh sample_srv (sv_drawn sample_srv) = ''7f-1''" by (simp add: sample_server_def)
  from handleScan_answers [OF sample_config_valid sc run refl] sc srv run show ?thesis
    by (auto simp: sample_request_def sample_upload_path Let_def split: prod.split)
qed

lemma Routes_balances_slots_witness:
  "pool_slots (srv_pool (snd (Routes sample_platform (sample_api EngineMock)
      (sample_request ''POST'' ''/api/v1/scan'' ''Bearer tok'') sample_srv))) ''a/b'' = 0"
  using Routes_balances_slots [OF sample_pool(1), where pf = sample_platform and a = "sample_api EngineMock"
      and r = "sample_request ''POST'' ''/api/v1/scan'' ''Bearer tok''" and account = "''a/b''"]
  by (simp add: sample_pool(2))

lemma sample_labels: "labels_ok (sample_request ''POST'' ''/api/v1/scan'' t)"
  by (simp add: labels_ok_def sample_request_def valid_utf8_ascii byte_def)

lemma Routes_refuses_strangers_witness:
  "\<exists>resp s'. Routes sample_platform (sample_api EngineMock)
      (sample_request ''POST'' ''/api/v1/scan'' []) sample_srv = (Some resp, s') \<and>
     rs_status resp \<in> {401, 403} \<and> sv_limiter s' = sv_limiter sample_srv"
proof -
  have mw: "api_authMiddleware (sample_api EngineMock)
      = Some (NewMiddleware (NewClient ''https://k8s'' 5 []) skip_paths)" by (simp add: sample_api_def)
  have "\<not> HasPrefix [] bearer_prefix" by (simp add: bearer_prefix_def)
  with Routes_refuses_strangers [OF mw, where pf = sample_platform and s = sample_srv
      and r = "sample_request ''POST'' ''/api/v1/scan'' []"] sample_labels [of "[]"] show ?thesis
    by (auto simp: sample_request_def proven_identity_def)
qed

lemma Routes_recorded_once_witness:
  "\<exists>resp s'. Routes sample_platform (sample_api EngineMock) (sample_request ''GET'' ''/metrics'' []) sample_srv
     = (Some resp, s') \<and> (\<exists>line. sv_log s' = [line] \<and> al_Status line = rs_status resp)"
proof -
  have clean: "clean_url_path ''/metrics'' = ''/metrics''" by code_simp
  have g: "guarded sample_platform (sample_api EngineMock) (sample_request ''GET'' ''/metrics'' []) sample_srv
      = metrics_Handler (sample_request ''GET'' ''/metrics'' []) sample_srv"
    by (simp add: guarded_def sample_api_def auth_Handler_def NewMiddleware_def skip_paths_def
        sample_request_def serve_mux_def route_table_def method_matches_def clean)
  then obtain resp s' where run: "Routes sample_platform (sample_api EngineMock)
      (sample_request ''GET'' ''/metrics'' []) sample_srv = (Some resp, s')"
    by (auto simp: Routes_def metrics_Middleware_def withLogging_def metrics_Handler_def
        sample_request_def)
  have sc: "api_scanner (sample_api EngineMock) = sample_scanner EngineMock"
    by (simp add: sample_api_def)
  have ok: "world_ok (sv_world sample_srv)" by (simp add: sample_server_def sample_world_ok)
  from Routes_recorded_once [OF sample_config_valid sc ok run] run show ?thesis
    by (auto simp: sample_server_def)
qed

definition busy_server :: "Bucket Server" where
  "busy_server = sample_srv\<lparr>sv_limiter :=
     \<lparr>lm_cfg = Some \<lparr>rc_Default = \<lparr>lim_MaxConcurrent = 1, lim_RequestsPerMinute = 0, lim_Burst = 0\<rparr>,
                     rc_Overrides = []\<rparr>,
      lm_allowed = Some (mkset [''a/b'']), lm_accounts = [(''a/b'', 0)],
      lm_heap = (\<lambda>_. \<lparr>st_inflight = 1, st_rate = None\<rparr>), lm_next = 1\<rparr>\<rparr>"

lemma Routes_enforces_concurrency_witness:
  "\<exists>resp. fst (Routes sample_platform (sample_api EngineMock)
      (sample_request ''POST'' ''/api/v1/scan'' ''Bearer tok'') busy_server) = Some resp \<and> rs_status resp = 429"
proof -
  let ?i = "\<lparr>ci_Namespace = ''a'', ci_ServiceAccount = ''b'', ci_UID = []\<rparr>"
  let ?r = "sample_request ''POST'' ''/api/v1/scan'' ''Bearer tok''"
  have mw: "api_authMiddleware (sample_api EngineMock)
      = Some (NewMiddleware (NewClient ''https://k8s'' 5 []) skip_paths)" "api_limited (sample_api EngineMock)"
    by (simp_all add: sample_api_def)
  have id: "proven_identity (pf_auth sample_platform) (NewMiddleware (NewClient ''https://k8s'' 5 []) skip_paths)
      ?r (sv_world busy_server) = Some ?i"
    by (simp add: sample_platform_def sample_proven)
  have allowed: "IsAllowed (sv_allowlist busy_server) (ci_Namespace ?i) (ci_ServiceAccount ?i)"
    by (simp add: IsAllowed_def account_key_def busy_server_def sample_server_def)
  have pool: "pool_valid (srv_pool busy_server)"
    by (simp add: pool_valid_def srv_pool_def busy_server_def limiter_wf_def)
  have "pool_slots (srv_pool busy_server) (account_key (ci_Namespace ?i) (ci_ServiceAccount ?i)) = 1"
    "lim_MaxConcurrent (effective_limits (lm_cfg (sv_limiter busy_server))
      (account_key (ci_Namespace ?i) (ci_ServiceAccount ?i))) = 1"
    by (simp_all add: pool_slots_def srv_pool_def busy_server_def entry_of_def view_def account_key_def
        effective_limits_def For_def)
  with Routes_enforces_concurrency [OF mw _ _ id allowed pool refl] show ?thesis
    by (auto simp: sample_request_def)
qed

lemma api_New_guarded_witness:
  "\<exists>a s'. api_New sample_platform (sample_scanner EngineMock)
     ((sample_config EngineMock)\<lparr>cfg_Auth := \<lparr>auth_Enabled = True, auth_K8sAPIEndpoint = ''https://k8s'',
        auth_Timeout = 5, auth_AllowlistFile = ''/u/a'', auth_TokenPath = []\<rparr>\<rparr>) sample_srv = (Inr a, s') \<and>
     api_limited a \<and> limiter_wf (sv_limiter s')"
proof -
  let ?cfg = "(sample_config EngineMock)\<lparr>cfg_Auth := \<lparr>auth_Enabled = True, auth_K8sAPIEndpoint = ''https://k8s'',
        auth_Timeout = 5, auth_AllowlistFile = ''/u/a'', auth_TokenPath = []\<rparr>\<rparr>"
  have "os_ReadFile ''/u/a'' (sv_world sample_srv) = Inr ''x''"
    by (simp add: os_ReadFile_def file_at_def resolve_def sample_world_def sample_Abs sample_server_def)
  then obtain a s' where run: "api_New sample_platform (sample_scanner EngineMock) ?cfg sample_srv = (Inr a, s')"
    by (simp add: api_New_def NewAllowlistWithLimiter_def allowlist_load_def sample_platform_def
        rate_Validate_def limits_validate_def allowlist_Watch_def Let_def)
  from api_New_guarded [OF run] run show ?thesis by auto
qed

lemma handleScan_keeps_unverified_upload_witness:
  "\<exists>s'. handleScan (sample_api EngineClamAV) (sample_request ''POST'' ''/api/v1/scan'' [])
      (set_world (sample_world None [] (Exits 2 2 [] [] 0)) sample_srv) =
      (Some (jsonError (''Scan failed: '' @ failure_text ScanNoVerdict) 500), s') \<and>
    file_at (sv_world s') ''/u/7f-1.txt'' \<noteq> None"
proof -
  let ?w = "sample_world None [] (Exits 2 2 [] [] 0)" and ?p = "''/u/7f-1.txt''"
  let ?s = "set_world ?w sample_srv" and ?r = "sample_request ''POST'' ''/api/v1/scan'' []"
  obtain w1 where create: "os_Create ?p ?w = (None, w1)"
    and w1: "write_file ?p ''hi'' w1 = ?w\<lparr>w_files := (w_files ?w)(resolve ?w ?p \<mapsto> ''hi'')\<rparr>"
    by (auto simp: os_Create_def sample_world_def write_file_def resolve_def)
  let ?d = "NewClamAVDriver (driver_config (sample_config EngineClamAV) EngineClamAV)"
  have d: "active_driver (sample_scanner EngineClamAV) = Some ?d"
    by (simp add: active_driver_def scanner_New_def active_drivers_def sample_engine)
  have "clamav_verdict 2 (TrimSpace []) = (StatusError, [])" by code_simp
  then have "\<exists>w'. scan_with ?d ?p ''7f-1'' (write_file ?p ''hi'' w1) = (Inl ScanNoVerdict, w')"
    unfolding w1
    by (simp add: scan_with_def clamav_driver_defs clamav_ManualScan_def run_command_def
        sample_budget sample_world_def sleep_until_def clock_to_def wait_rts_def WatchRTS_def
        cache_Wait_def Wait_poll_def NewDetectionCache_def os_Stat_def file_at_def resolve_def Let_def)
  then have "\<exists>w'. Scan (sample_scanner EngineClamAV) ?p ''7f-1'' ''a.txt'' 2 (write_file ?p ''hi'' w1)
      = Some (Inl ScanNoVerdict, w')"
    by (simp add: Scan_def d)
  with create obtain s' where run: "handleScan (sample_api EngineClamAV) ?r ?s =
      (Some (jsonError (''Scan failed: '' @ failure_text ScanNoVerdict) 500), s')"
    by (auto simp: handleScan_def sample_api_def sample_request_def sample_server_def sample_upload_path
        set_world_def Let_def)
  have cfg: "config_Validate (\<lambda>_. False) (sample_config EngineClamAV) = None"
    by (simp add: config_Validate_def sample_config_def)
  have sc: "api_scanner (sample_api EngineClamAV) = sample_scanner EngineClamAV"
    by (simp add: sample_api_def)
  have ok: "world_ok (sv_world ?s)" by (simp add: frame_simps sample_world_ok)
  have "\<not> w_hidden ?w p" for p by (simp add: sample_world_def)
  with handleScan_keeps_unverified_upload [OF cfg sc ok run] run show ?thesis
    by (auto simp: sample_request_def sample_server_def sample_upload_path set_world_def sc)
qed

end
