(* ===== verification/Main_Program.thy ===== *)
theory Main_Program
  imports Api
begin

text \<open>
  The program (\<open>main.go\<close>): start-up in the order of \<open>main\<close>, with every early exit, and the shutdown
  after a signal. Creating the upload directory is \<open>mkdir_ok\<close>; the HTTP server that runs between
  the two calls the handler of \<open>Routes\<close>.
\<close>

record HttpServer =
  hs_Addr :: string
  hs_ReadTimeout :: duration
  hs_WriteTimeout :: duration
  hs_IdleTimeout :: duration

datatype 'b Startup =
    PrintsVersion string
  | Exits1 string
  | Panics
  | Serves HttpServer Config Scanner API

definition http_server :: "Config \<Rightarrow> HttpServer" where
  "http_server cfg =
     \<lparr>hs_Addr = CHR '':'' # Itoa (cfg_Port cfg), hs_ReadTimeout = 300 * Second,
      hs_WriteTimeout = 300 * Second, hs_IdleTimeout = 60 * Second\<rparr>"

definition startup ::
  "('b, 'r) Platform \<Rightarrow> (string \<Rightarrow> string) \<Rightarrow> (string \<Rightarrow> bool) \<Rightarrow> string list \<Rightarrow> 'b Server \<Rightarrow>
   'b Startup \<times> 'b Server" where
  "startup pf env mkdir_ok args s =
     (if length args > 1 \<and> (args ! 1 = ''--version'' \<or> args ! 1 = ''-v'')
      then (PrintsVersion (''av-scanner '' @ Version), s)
      else case Load env (\<lambda>p. os_Stat p (sv_world s) = None) of
             Inl e \<Rightarrow> (Exits1 ''Failed to load configuration'', s)
           | Inr cfg \<Rightarrow>
               if \<not> mkdir_ok (cfg_UploadDir cfg) then (Exits1 ''Failed to create upload directory'', s)
               else (let (sc, w1) = scanner_New cfg (sv_world s)
                     in case scanner_Start sc w1 of
                          None \<Rightarrow> (Panics, set_world w1 s)
                        | Some (Some e, w2) \<Rightarrow> (Exits1 ''Failed to start scanner'', set_world w2 s)
                        | Some (None, w2) \<Rightarrow>
                            (case scanner_CheckHealth sc w2 of
                               None \<Rightarrow> (Panics, set_world w2 s)
                             | Some hs \<Rightarrow>
                                 if None \<in> set hs then (Panics, set_world w2 s)
                                 else (case api_New pf sc cfg (set_world w2 s) of
                                         (Inl e, s2) \<Rightarrow> (Exits1 ''Failed to initialize API'', s2)
                                       | (Inr a, s2) \<Rightarrow> (Serves (http_server cfg) cfg sc a, s2)))))"


section \<open>Start-up\<close>

lemma Load_valid: "Load env stat_ok = Inr cfg \<Longrightarrow> config_Validate stat_ok cfg = None"
  by (auto simp: Load_def Let_def split: option.splits)

lemma startup_serves:
  assumes "startup pf env mkdir_ok args s = (Serves hs cfg sc a, s')"
  obtains d w1 where "config_Validate (\<lambda>p. os_Stat p (sv_world s) = None) cfg = None"
    "cfg = config_from_env env"
    "sc = fst (scanner_New cfg (sv_world s))" "active_driver sc = Some d" "av_driver d"
    "drv_Start d (snd (scanner_New cfg (sv_world s))) = (None, w1)"
    "api_New pf sc cfg (set_world w1 s) = (Inr a, s')" "mkdir_ok (cfg_UploadDir cfg)"
    "hs = http_server cfg"
proof -
  obtain w1 where run: "Load env (\<lambda>p. os_Stat p (sv_world s) = None) = Inr cfg"
    "sc = fst (scanner_New cfg (sv_world s))"
    "scanner_Start sc (snd (scanner_New cfg (sv_world s))) = Some (None, w1)"
    "api_New pf sc cfg (set_world w1 s) = (Inr a, s')" "mkdir_ok (cfg_UploadDir cfg)"
    "hs = http_server cfg"
    using assms
    by (auto simp: startup_def Let_def split: if_splits sum.splits prod.splits option.splits)
  from New_active [OF Load_valid [OF run(1)], of "sv_world s"] run(2) obtain d where
    "active_driver sc = Some d" "av_driver d" by blast
  moreover have "cfg = config_from_env env" using run(1) by (simp add: Load_cases)
  ultimately show thesis using run that Load_valid [OF run(1)] by (auto simp: scanner_Start_def)
qed

lemma Start_cache: "w_cache (snd (start_watcher p f w)) = w_cache w"
  by (simp add: start_watcher_def)

lemma New_start_cache:
  assumes "active_driver (fst (scanner_New cfg w0)) = Some d" "drv_Start d w = (x, w1)"
  shows "w_cache w1 = w_cache w"
  using assms Start_cache [of _ _ w]
  by (auto simp: active_driver_def scanner_New_def active_drivers_def clamav_driver_defs
      tm_driver_defs mock_driver_defs split: if_splits) (metis snd_conv)+

lemma NewAllowlist_running:
  "NewAllowlistWithLimiter rl y f lm w = Inr (a, lm') \<Longrightarrow> \<not> al_stopped a"
  by (auto simp: NewAllowlistWithLimiter_def allowlist_load_def Let_def
      split: prod.splits option.splits sum.splits)

lemma api_New_frame:
  assumes "api_New pf sc cfg s = (Inr a, s')"
  shows "sv_world s' = sv_world s \<and> (api_hasAllowlist a \<longrightarrow> \<not> al_stopped (sv_allowlist s')) \<and>
    api_scanner a = sc"
  using assms NewAllowlist_running [of "pf_rate pf" "pf_yaml pf" "auth_AllowlistFile (cfg_Auth cfg)"
      "Some New" "sv_world s"]
  by (auto simp: api_New_def allowlist_Watch_def Let_def
      split: if_splits prod.splits option.splits sum.splits)

text \<open>
  C30: the program serves only with the configuration its environment describes, and only if that is
  valid (a known engine, a TCP port, a positive size limit, with authentication an endpoint, a
  positive timeout and a token path that is empty or that \<open>os.Stat\<close> finds), with an upload directory
  it could make and a driver for the configured engine, on the configured port. With authentication
  switched on it never serves unguarded. The log watcher it starts, if any, keeps the watcher's contract, and
  the detection cache it starts with holds nothing but infections and is not stopped.
\<close>

theorem startup_serves_safely:
  assumes "startup pf env mkdir_ok args s = (Serves hs cfg sc a, s')" and "w_watcher (sv_world s) = None"
  shows "cfg = config_from_env env \<and> valid_config (\<lambda>p. os_Stat p (sv_world s) = None) cfg \<and>
    1 \<le> cfg_Port cfg \<and> cfg_Port cfg \<le> 65535 \<and> hs_Addr hs = CHR '':'' # Itoa (cfg_Port cfg) \<and>
    mkdir_ok (cfg_UploadDir cfg) \<and> (\<exists>d. active_driver sc = Some d \<and> drv_Engine d = cfg_ActiveEngine cfg) \<and>
    (if auth_Enabled (cfg_Auth cfg)
     then api_limited a \<and> (\<exists>client. api_authMiddleware a = Some (NewMiddleware client skip_paths))
     else api_authMiddleware a = None) \<and>
    world_ok (sv_world s') \<and> cache_infected (w_cache (sv_world s')) \<and> \<not> dc_stopped (w_cache (sv_world s'))"
proof -
  obtain d w1 where env: "cfg = config_from_env env"
    and run: "config_Validate (\<lambda>p. os_Stat p (sv_world s) = None) cfg = None"
    "sc = fst (scanner_New cfg (sv_world s))" "active_driver sc = Some d" "av_driver d"
    "drv_Start d (snd (scanner_New cfg (sv_world s))) = (None, w1)"
    "api_New pf sc cfg (set_world w1 s) = (Inr a, s')" "mkdir_ok (cfg_UploadDir cfg)"
    "hs = http_server cfg"
    by (rule startup_serves [OF assms(1)])
  have w': "sv_world s' = w1" using api_New_frame [OF run(6)] by (simp add: frame_simps)
  have "world_ok (snd (scanner_New cfg (sv_world s)))"
    using assms(2) by (simp add: scanner_New_def world_ok_def)
  with av_driver.start_ok [OF run(4)] run(5) have "world_ok w1" by (metis snd_conv)
  moreover have cache: "w_cache w1 = NewDetectionCache DefaultTTL"
    using New_start_cache [OF run(3) [unfolded run(2)] run(5)] by (simp add: scanner_New_def)
  moreover have "cache_infected (w_cache w1)" by (simp add: cache cache_infected_New)
  moreover have "valid_config (\<lambda>p. os_Stat p (sv_world s) = None) cfg"
    using run(1) by (simp add: config_Validate_iff)
  moreover obtain d' where "active_driver sc = Some d'" "drv_Engine d' = cfg_ActiveEngine cfg"
    using New_active [OF run(1), of "sv_world s"] run(2) by blast
  moreover have "if auth_Enabled (cfg_Auth cfg)
     then api_limited a \<and> (\<exists>client. api_authMiddleware a = Some (NewMiddleware client skip_paths))
     else api_authMiddleware a = None"
    using run(6) by (auto simp: api_New_def Let_def split: if_splits prod.splits option.splits sum.splits)
  ultimately show ?thesis
    using run(7,8) w'
    by (simp add: env [symmetric]) (simp add: valid_config_def http_server_def NewDetectionCache_def)
qed

section \<open>Shutdown\<close>


text \<open>
  What happens between start-up and the signal, in any order: requests through \<open>Routes\<close>, turns of the
  allowlist watcher, time passing with the events of the rest of the machine (log lines, quarantine,
  cleanup ticks, detections taken elsewhere), and any change from outside that leaves the program's
  own log watcher and cache alone. Requests come one after the other here; what others that run at the same
  time do to the shared cache is among the events of the machine.
\<close>

inductive served :: "('b, 'r) Platform \<Rightarrow> API \<Rightarrow> 'b Server \<Rightarrow> 'b Server \<Rightarrow> bool"
  for pf :: "('b, 'r) Platform" and a :: API and s1 :: "'b Server"
where
  started: "served pf a s1 s1"
| request: "served pf a s1 s \<Longrightarrow> served pf a s1 (snd (Routes pf a r s))"
| reload: "served pf a s1 s \<Longrightarrow>
     watch_turn (pf_rate pf) (pf_yaml pf) notice (sv_world s) (sv_allowlist s, Some (sv_limiter s))
       = (on, al, Some l) \<Longrightarrow>
     served pf a s1 (s\<lparr>sv_allowlist := al, sv_limiter := l\<rparr>)"
| time_passes: "served pf a s1 s \<Longrightarrow> served pf a s1 (set_world (sleep_until t (sv_world s)) s)"
| outside: "served pf a s1 s \<Longrightarrow> w_watcher w = w_watcher (sv_world s) \<Longrightarrow>
     w_cache w = w_cache (sv_world s) \<Longrightarrow> served pf a s1 (set_world w s)"




section \<open>A concrete start\<close>

definition sample_environment :: "string \<Rightarrow> string" where
  "sample_environment k = (if k = ''AV_ENGINE'' then ''mock'' else [])"

lemma sample_startup:
  "\<exists>hs cfg sc a s'. startup sample_platform sample_environment (\<lambda>_. True) [] sample_srv = (Serves hs cfg sc a, s') \<and>
     cfg = config_from_env sample_environment"
proof -
  let ?cfg = "config_from_env sample_environment"
  have "valid_config st ?cfg" and e: "cfg_ActiveEngine ?cfg = EngineMock" "\<not> auth_Enabled (cfg_Auth ?cfg)" for st
    by (simp_all add: valid_config_def config_from_env_def getEnv_def getEnvInt_def getEnvInt64_def
        getEnvBool_def sample_environment_def EngineMock_def)
  then have "Load sample_environment st = Inr ?cfg" for st by (simp add: Load_cases)
  then show ?thesis
    using e by (auto simp: startup_def scanner_New_def scanner_Start_def scanner_CheckHealth_def
        active_driver_def active_drivers_def mock_driver_defs api_New_def)
qed

lemma startup_serves_safely_witness:
  "\<exists>hs cfg sc a s'. startup sample_platform sample_environment (\<lambda>_. True) [] sample_srv = (Serves hs cfg sc a, s') \<and>
     1 \<le> cfg_Port cfg \<and> (\<exists>d. active_driver sc = Some d) \<and> world_ok (sv_world s')"
proof -
  obtain hs cfg sc a s' where run:
    "startup sample_platform sample_environment (\<lambda>_. True) [] sample_srv = (Serves hs cfg sc a, s')"
    using sample_startup by blast
  have "w_watcher (sv_world sample_srv) = None" by (simp add: sample_server_def sample_world_def)
  from startup_serves_safely [OF run this] run show ?thesis by blast
qed


end
