(* ===== verification/Auth_Proxy.thy ===== *)
theory Auth_Proxy
  imports World
begin

text \<open>
  The companion program \<open>auth-proxy/main.go\<close>: a reverse proxy in front of the Kubernetes API that
  puts the pod's own service account token on every request. Of the library's reverse proxy the model
  has what it does to the headers of a request around the program's \<open>Director\<close>; the URL rewriting of its
  own director and the URL parser are arguments.
\<close>

section \<open>The token\<close>

definition defaultTokenPath :: string where
  "defaultTokenPath = ''/var/run/secrets/kubernetes.io/serviceaccount/token''"

definition defaultListenAddr :: string where
  "defaultListenAddr = '':8080''"

definition tokenRefreshInterval :: duration where
  "tokenRefreshInterval = 30 * Second"

record tokenProvider =
  tp_path :: string
  tp_token :: string

definition tp_refresh :: "World \<Rightarrow> tokenProvider \<Rightarrow> OSError option \<times> tokenProvider" where
  "tp_refresh w tp =
     (case os_ReadFile (tp_path tp) w of
        Inl e \<Rightarrow> (Some e, tp)
      | Inr data \<Rightarrow> (None, tp\<lparr>tp_token := data\<rparr>))"

definition newTokenProvider :: "string \<Rightarrow> World \<Rightarrow> OSError + tokenProvider" where
  "newTokenProvider path w =
     (case tp_refresh w \<lparr>tp_path = path, tp_token = []\<rparr> of
        (Some e, _) \<Rightarrow> Inl e
      | (None, tp) \<Rightarrow> Inr tp)"

text \<open>\<open>refreshLoop\<close>: one refresh per tick, each in the world of that moment; failures are logged.\<close>

fun refreshLoop :: "World list \<Rightarrow> tokenProvider \<Rightarrow> tokenProvider" where
  "refreshLoop [] tp = tp"
| "refreshLoop (w # ws) tp = refreshLoop ws (snd (tp_refresh w tp))"

section \<open>The proxy\<close>

text \<open>\<open>http.Header\<close>: canonical names to lists of values.\<close>

type_synonym Headers = "string \<rightharpoonup> string list"

record ProxyRequest =
  px_Method :: string
  px_Path :: string
  px_Host :: string
  px_headers :: Headers

definition director ::
  "(ProxyRequest \<Rightarrow> ProxyRequest) \<Rightarrow> string \<Rightarrow> tokenProvider \<Rightarrow> ProxyRequest \<Rightarrow> ProxyRequest" where
  "director originalDirector targetHost tp req =
     (let r = originalDirector req
      in r\<lparr>px_headers := (px_headers r)(''Authorization'' \<mapsto> [''Bearer '' @ tp_token tp]),
           px_Host := targetHost\<rparr>)"

datatype ProxyStart =
    ProxyFatal string
  | ProxyServes string string tokenProvider  \<comment> \<open>listen address, host of the target, tokens\<close>

text \<open>\<open>parse\<close> gives the host of a URL that parses.\<close>

definition proxy_main :: "(string \<Rightarrow> string) \<Rightarrow> (string \<Rightarrow> string option) \<Rightarrow> World \<Rightarrow> ProxyStart" where
  "proxy_main env parse w =
     (let upstreamURL = env ''UPSTREAM_URL'';
          listenAddr = (if env ''LISTEN_ADDR'' = [] then defaultListenAddr else env ''LISTEN_ADDR'');
          tokenPath = (if env ''TOKEN_PATH'' = [] then defaultTokenPath else env ''TOKEN_PATH'')
      in if upstreamURL = [] then ProxyFatal ''UPSTREAM_URL environment variable is required''
         else case parse upstreamURL of
                None \<Rightarrow> ProxyFatal ''invalid UPSTREAM_URL''
              | Some host \<Rightarrow>
                  (case newTokenProvider tokenPath w of
                     Inl e \<Rightarrow> ProxyFatal ''failed to read service account token''
                   | Inr tp \<Rightarrow> ProxyServes listenAddr host tp))"

text \<open>The answer when the upstream cannot be reached.\<close>

definition proxy_error :: "int \<times> string" where
  "proxy_error = (502, ''upstream error'')"

section \<open>The headers of the request that goes upstream\<close>

text \<open>
  \<open>httputil.ReverseProxy\<close> calls \<open>Director\<close> first and removes the hop-by-hop headers afterwards: those
  the \<open>Connection\<close> header names, and a fixed list.
\<close>

definition header_values :: "Headers \<Rightarrow> string \<Rightarrow> string list" where
  "header_values h k = (case h k of None \<Rightarrow> [] | Some vs \<Rightarrow> vs)"

definition ascii_in :: "nat \<Rightarrow> nat \<Rightarrow> char \<Rightarrow> bool" where
  "ascii_in lo hi c \<longleftrightarrow> lo \<le> of_char c \<and> of_char c \<le> hi"

definition ascii_lower :: "char \<Rightarrow> char" where
  "ascii_lower c = (if ascii_in 65 90 c then char_of (of_char c + 32 :: nat) else c)"

definition ascii_upper :: "char \<Rightarrow> char" where
  "ascii_upper c = (if ascii_in 97 122 c then char_of (of_char c - 32 :: nat) else c)"

definition token_byte :: "char \<Rightarrow> bool" where
  "token_byte c \<longleftrightarrow> ascii_in 65 90 c \<or> ascii_in 97 122 c \<or> ascii_in 48 57 c \<or>
     c \<in> set (CHR 0x27 # CHR 0x60 # ''!#$%&*+-.^_|~'')"

text \<open>\<open>textproto.CanonicalMIMEHeaderKey\<close>: a name with a byte that is not allowed stays as it is.\<close>

fun capitalise :: "bool \<Rightarrow> string \<Rightarrow> string" where
  "capitalise up [] = []"
| "capitalise up (c # cs) = (if up then ascii_upper c else ascii_lower c) # capitalise (c = CHR ''-'') cs"

definition canonical_key :: "string \<Rightarrow> string" where
  "canonical_key k = (if list_all token_byte k then capitalise True k else k)"

text \<open>\<open>textproto.TrimString\<close>, and the trimming of optional white space around a list element.\<close>

definition trim_with :: "(char \<Rightarrow> bool) \<Rightarrow> string \<Rightarrow> string" where
  "trim_with sp v = rev (dropWhile sp (rev (dropWhile sp v)))"

definition TrimString :: "string \<Rightarrow> string" where
  "TrimString = trim_with (\<lambda>c. c \<in> {CHR '' '', CHR 0x09, CHR 0x0A, CHR 0x0D})"

definition connection_options :: "Headers \<Rightarrow> string list" where
  "connection_options h =
     concat (map (\<lambda>f. map canonical_key (filter (\<lambda>o'. o' \<noteq> []) (map TrimString (Split f CHR '',''))))
       (header_values h ''Connection''))"

definition hopHeaders :: "string list" where
  "hopHeaders = [''Connection'', ''Proxy-Connection'', ''Keep-Alive'', ''Proxy-Authenticate'',
     ''Proxy-Authorization'', ''Te'', ''Trailer'', ''Transfer-Encoding'', ''Upgrade'']"

definition removeHopByHopHeaders :: "Headers \<Rightarrow> Headers" where
  "removeHopByHopHeaders h = (\<lambda>k. if k \<in> set (connection_options h @ hopHeaders) then None else h k)"

text \<open>\<open>httpguts.HeaderValuesContainsToken\<close> and the protocol a request wants to upgrade to.\<close>

definition contains_token :: "string list \<Rightarrow> string \<Rightarrow> bool" where
  "contains_token vs token =
     list_ex (\<lambda>v. list_ex (\<lambda>part. map ascii_lower (trim_with (\<lambda>c. c \<in> {CHR '' '', CHR 0x09}) part) =
       map ascii_lower token) (Split v CHR '','')) vs"

definition upgradeType :: "Headers \<Rightarrow> string" where
  "upgradeType h =
     (if contains_token (header_values h ''Connection'') ''Upgrade''
      then (case header_values h ''Upgrade'' of [] \<Rightarrow> [] | v # _ \<Rightarrow> v) else [])"

text \<open>What is put back or added after that: the trailers token, an upgrade, the client's address.\<close>

definition restore_te :: "Headers \<Rightarrow> Headers \<Rightarrow> Headers" where
  "restore_te client h =
     (if contains_token (header_values client ''Te'') ''trailers'' then h(''Te'' \<mapsto> [''trailers'']) else h)"

definition restore_upgrade :: "string \<Rightarrow> Headers \<Rightarrow> Headers" where
  "restore_upgrade protocol h =
     (if protocol \<noteq> [] then h(''Connection'' \<mapsto> [''Upgrade''], ''Upgrade'' \<mapsto> [protocol]) else h)"

definition add_forwarded_for :: "string option \<Rightarrow> Headers \<Rightarrow> Headers" where
  "add_forwarded_for clientIP h =
     (case clientIP of
        None \<Rightarrow> h
      | Some ip \<Rightarrow>
          if h ''X-Forwarded-For'' = Some [] then h
          else h(''X-Forwarded-For'' \<mapsto>
            [concat (map (\<lambda>p. p @ '', '') (header_values h ''X-Forwarded-For'')) @ ip]))"

definition keep_user_agent :: "Headers \<Rightarrow> Headers" where
  "keep_user_agent h = (if h ''User-Agent'' = None then h(''User-Agent'' \<mapsto> [[]]) else h)"

text \<open>
  The request \<open>ServeHTTP\<close> hands to the transport, for a client at an address, if that is known;
  \<open>None\<close> when it answers with an error instead (an upgrade protocol that is not printable).
\<close>

definition ReverseProxy_outgoing ::
  "(ProxyRequest \<Rightarrow> ProxyRequest) \<Rightarrow> string option \<Rightarrow> ProxyRequest \<Rightarrow> ProxyRequest option" where
  "ReverseProxy_outgoing dir clientIP req =
     (let outreq = dir req;
          reqUpType = upgradeType (px_headers outreq);
          h = restore_upgrade reqUpType
                (restore_te (px_headers req) (removeHopByHopHeaders (px_headers outreq)))
      in if \<not> list_all (ascii_in 32 126) reqUpType then None
         else Some (outreq\<lparr>px_headers := keep_user_agent (add_forwarded_for clientIP h)\<rparr>))"

lemma added_headers:
  "k \<noteq> ''Te'' \<Longrightarrow> restore_te c h k = h k"
  "k \<noteq> ''Connection'' \<Longrightarrow> k \<noteq> ''Upgrade'' \<Longrightarrow> restore_upgrade p h k = h k"
  "k \<noteq> ''X-Forwarded-For'' \<Longrightarrow> add_forwarded_for ip h k = h k"
  "k \<noteq> ''User-Agent'' \<Longrightarrow> keep_user_agent h k = h k"
  by (simp_all add: restore_te_def restore_upgrade_def add_forwarded_for_def keep_user_agent_def
      split: option.split)

lemma outgoing_headers:
  assumes "ReverseProxy_outgoing dir ip req = Some out"
    and "k \<notin> set hopHeaders" "k \<noteq> ''X-Forwarded-For''" "k \<noteq> ''User-Agent''"
  shows "px_headers out k =
      (if k \<in> set (connection_options (px_headers (dir req))) then None else px_headers (dir req) k)"
    and "px_Host out = px_Host (dir req)"
proof -
  have k: "k \<noteq> ''Te''" "k \<noteq> ''Connection''" "k \<noteq> ''Upgrade''" using assms(2) by (auto simp: hopHeaders_def)
  let ?h = "restore_upgrade (upgradeType (px_headers (dir req)))
    (restore_te (px_headers req) (removeHopByHopHeaders (px_headers (dir req))))"
  have out: "out = (dir req)\<lparr>px_headers := keep_user_agent (add_forwarded_for ip ?h)\<rparr>"
    using assms(1) unfolding ReverseProxy_outgoing_def Let_def
    by (cases "list_all (ascii_in 32 126) (upgradeType (px_headers (dir req)))") simp_all
  have "keep_user_agent (add_forwarded_for ip ?h) k = removeHopByHopHeaders (px_headers (dir req)) k"
    using k assms(3,4) by (simp only: added_headers not_False_eq_True simp_thms)
  also have "\<dots> = (if k \<in> set (connection_options (px_headers (dir req))) then None else px_headers (dir req) k)"
    using assms(2) by (simp add: removeHopByHopHeaders_def)
  finally show "px_headers out k =
      (if k \<in> set (connection_options (px_headers (dir req))) then None else px_headers (dir req) k)"
    by (simp add: out)
  show "px_Host out = px_Host (dir req)" by (simp add: out)
qed

section \<open>Which token is sent\<close>

definition readable :: "string \<Rightarrow> World \<Rightarrow> string option" where
  "readable path w = (case os_ReadFile path w of Inl _ \<Rightarrow> None | Inr t \<Rightarrow> Some t)"

lemma refreshLoop_path: "tp_path (refreshLoop ws tp) = tp_path tp"
  by (induction ws arbitrary: tp) (auto simp: tp_refresh_def split: sum.splits)

lemma refreshLoop_token:
  "tp_token (refreshLoop ws tp) =
     last (tp_token tp # List.map_filter (readable (tp_path tp)) ws)"
proof (induction ws arbitrary: tp)
  case Nil
  then show ?case by (simp add: List.map_filter_simps)
next
  case (Cons w ws)
  have "tp_path (snd (tp_refresh w tp)) = tp_path tp"
    by (auto simp: tp_refresh_def split: sum.splits)
  with Cons.IH [of "snd (tp_refresh w tp)"] show ?case
    by (auto simp: tp_refresh_def readable_def List.map_filter_simps split: sum.splits)
qed

lemma director_options:
  "connection_options (px_headers (director od host tp req)) = connection_options (px_headers (od req))"
  by (simp add: director_def connection_options_def header_values_def Let_def)

text \<open>
  C35: whatever a client puts in its headers, the token of the request that goes upstream is the proxy's
  own: the one last read successfully from the token file, at start or at a refresh tick (a failed
  refresh keeps the token before it), and never the client's. The request goes without any token exactly when its
  Connection header, as the library's own director leaves it, names Authorization, for hop-by-hop headers are
  removed after the program has set the token. The host is the target's. All other headers but those of the
  connection, X-Forwarded-For and User-Agent go upstream as that director left them, also those that name
  an identity, like Impersonate-User.
\<close>

theorem proxy_sends_own_token:
  assumes "proxy_main env parse w0 = ProxyServes addr host tp0"
    and "path = (if env ''TOKEN_PATH'' = [] then defaultTokenPath else env ''TOKEN_PATH'')"
    and "ReverseProxy_outgoing (director originalDirector host (refreshLoop ws tp0)) ip req = Some out"
    and "options = connection_options (px_headers (originalDirector req))"
  shows "\<exists>t0. os_ReadFile path w0 = Inr t0 \<and>
    px_headers out ''Authorization'' =
      (if ''Authorization'' \<in> set options then None
       else Some [''Bearer '' @ last (t0 # List.map_filter (readable path) ws)]) \<and>
    px_Host out = host \<and>
    (\<forall>k. k \<notin> set hopHeaders \<and> k \<notin> set options \<and>
       k \<notin> {''Authorization'', ''X-Forwarded-For'', ''User-Agent''} \<longrightarrow>
       px_headers out k = px_headers (originalDirector req) k)"
proof -
  let ?dir = "director originalDirector host (refreshLoop ws tp0)"
  from assms(1,2) obtain t0 where t0: "os_ReadFile path w0 = Inr t0" "tp0 = \<lparr>tp_path = path, tp_token = t0\<rparr>"
    by (auto simp: proxy_main_def newTokenProvider_def tp_refresh_def Let_def
        split: if_splits option.splits sum.splits)
  have token: "tp_token (refreshLoop ws tp0) = last (t0 # List.map_filter (readable path) ws)"
    using refreshLoop_token [of ws tp0] by (simp add: t0(2))
  have out: "px_headers out k = (if k \<in> set options then None else px_headers (?dir req) k)"
    if "k \<notin> set hopHeaders" "k \<noteq> ''X-Forwarded-For''" "k \<noteq> ''User-Agent''" for k
    using outgoing_headers(1) [OF assms(3) that] unfolding director_options assms(4) .
  have dir: "px_headers (?dir req) k = (if k = ''Authorization''
      then Some [''Bearer '' @ last (t0 # List.map_filter (readable path) ws)]
      else px_headers (originalDirector req) k)" for k
    by (simp add: director_def token Let_def)
  have auth: "''Authorization'' \<notin> set hopHeaders" by (simp add: hopHeaders_def)
  have "px_Host out = host"
    using outgoing_headers(2) [OF assms(3) auth] by (simp add: director_def Let_def)
  moreover have "px_headers out ''Authorization'' = (if ''Authorization'' \<in> set options then None
      else Some [''Bearer '' @ last (t0 # List.map_filter (readable path) ws)])"
    using out [OF auth] unfolding dir by simp
  moreover have "px_headers out k = px_headers (originalDirector req) k"
    if "k \<notin> set hopHeaders \<and> k \<notin> set options \<and> k \<notin> {''Authorization'', ''X-Forwarded-For'', ''User-Agent''}" for k
    using out [of k] that unfolding dir by simp
  ultimately show ?thesis using t0(1) by blast
qed

lemma proxy_sends_own_token_witness:
  "\<exists>out. ReverseProxy_outgoing (director (\<lambda>r. r) ''k8s'' (refreshLoop [sample_world None [] (StartFails [])]
       \<lparr>tp_path = ''/u/a'', tp_token = ''x''\<rparr>)) None
     \<lparr>px_Method = ''GET'', px_Path = ''/'', px_Host = [],
      px_headers = [''Authorization'' \<mapsto> [''Bearer evil''], ''Connection'' \<mapsto> [''close, foo'']]\<rparr> = Some out \<and>
     px_headers out ''Authorization'' = Some [''Bearer x'']"
proof -
  let ?w = "sample_world None [] (StartFails [])"
  let ?env = "\<lambda>k. if k = ''UPSTREAM_URL'' then ''https://k8s'' else if k = ''TOKEN_PATH'' then ''/u/a'' else []"
  let ?h = "[''Authorization'' \<mapsto> [''Bearer evil''], ''Connection'' \<mapsto> [''close, foo'']]"
  let ?req = "\<lparr>px_Method = ''GET'', px_Path = ''/'', px_Host = [], px_headers = ?h\<rparr>"
  have "Abs ''/srv'' ''/u/a'' = ''/u/a''" by code_simp
  then have read: "os_ReadFile ''/u/a'' ?w = Inr ''x''"
    by (simp add: os_ReadFile_def file_at_def resolve_def sample_world_def)
  then have start: "proxy_main ?env (\<lambda>_. Some ''k8s'') ?w =
      ProxyServes defaultListenAddr ''k8s'' \<lparr>tp_path = ''/u/a'', tp_token = ''x''\<rparr>"
    by (simp add: proxy_main_def newTokenProvider_def tp_refresh_def)
  have "\<not> contains_token [''close, foo''] ''Upgrade''" by code_simp
  then have "upgradeType (?h(''Authorization'' \<mapsto> v)) = []" for v
    by (simp add: upgradeType_def header_values_def)
  then obtain out where out: "ReverseProxy_outgoing (director (\<lambda>r. r) ''k8s'' (refreshLoop [?w]
       \<lparr>tp_path = ''/u/a'', tp_token = ''x''\<rparr>)) None ?req = Some out"
    by (simp add: ReverseProxy_outgoing_def director_def Let_def)
  have options: "connection_options ?h = [''Close'', ''Foo'']"
  proof -
    have "map canonical_key (filter (\<lambda>x. x \<noteq> []) (map TrimString (Split ''close, foo'' CHR '',''))) =
        [''Close'', ''Foo'']" by code_simp
    then show ?thesis by (simp add: connection_options_def header_values_def)
  qed
  from proxy_sends_own_token [OF start refl out refl] out options show ?thesis
    using read by (auto simp: List.map_filter_simps readable_def)
qed

text \<open>The spellings of a client that takes the token off are matched in any case.\<close>

lemma stripped_spelling: "canonical_key (TrimString '' authorization'') = ''Authorization''"
  by code_simp

end
