(* ===== verification/Spec2Isabelle.thy ===== *)
theory Spec2Isabelle
  imports Main_Program Auth_Proxy
begin

text \<open>
  A verification development for av-scanner, an antivirus scanning service in Go
  (\<open>github.com/rophy/av-scanner\<close>), and its companion auth-proxy. All Go files of the program
  are modelled; paths below are relative to the repository.

  What the program does. A client uploads a file to \<open>POST /api/v1/scan\<close>
  (\<open>internal/api/handlers.go\<close>). The file is stored under a fresh name, the active engine's
  command line scanner is run on it (\<open>internal/drivers\<close>), and if that gives no verdict, for
  instance because the engine's real-time scanner has already quarantined the file, the program waits
  for the real-time scanner's log to report it: a goroutine tails the log and puts detections in a cache
  keyed by path (\<open>internal/cache\<close>), and \<open>Wait\<close> blocks on that cache
  (\<open>internal/drivers/rts.go\<close>, \<open>internal/scanner/scanner.go\<close>). With authentication on, a
  Kubernetes TokenReview proves the caller (\<open>internal/auth/client.go\<close>), a YAML allowlist
  that is reloaded when it changes admits it (\<open>internal/auth/allowlist.go\<close>), and a limiter
  bounds its concurrent scans and its rate (\<open>internal/ratelimit\<close>).

  The theories, in order of dependency, and the code they model:

  \<^item> \<open>Prelude\<close>: \<open>int64\<close> with wrap-around, times, the theorem collections, reachable states and
    the contract \<open>inductive_invariant\<close> of a transition system.
  \<^item> \<open>Go_Strings\<close>, \<open>Go_Path\<close>, \<open>Go_Regexp\<close>, \<open>Go_Json\<close>, \<open>Go_Float\<close>: the parts of the Go standard library
    the program computes with (\<open>strings\<close>, \<open>strconv\<close>, \<open>path/filepath\<close>, \<open>regexp\<close>,
    \<open>encoding/json\<close> with UTF-8) and \<open>float64\<close> rounding, as executable functions with their laws. They stand for no line of the
    repository.
  \<^item> \<open>Config\<close>: \<open>internal/config/config.go\<close>.
  \<^item> \<open>Cache\<close>: \<open>internal/cache/detection.go\<close>, the operations, the contract \<open>detection_store\<close> and
    all goroutines together as a labelled transition system.
  \<^item> \<open>Metrics\<close>: the recording functions of \<open>internal/metrics/metrics.go\<close>, as a list of calls.
  \<^item> \<open>Ratelimit_Config\<close>, \<open>Limiter\<close>, \<open>Admission\<close>, \<open>Limiter_System\<close>: \<open>internal/ratelimit/config.go\<close>
    and \<open>limiter.go\<close>; the contract \<open>slot_pool\<close> between the middleware and the limiter; all callers
    together as a transition system. The third-party token bucket is the record \<open>RateLib\<close>, a
    parameter; \<open>Token_Bucket\<close> is one bucket with the documented behaviour, used only where a property is
    shown at a concrete input.
  \<^item> \<open>World\<close>: what one request sees of the machine: clock, files, cache, the log watcher, and a
    timeline of what the rest of the machine does. \<open>cache_Wait\<close> is \<open>Wait\<close> on that timeline,
    \<open>run_command\<close> a child process under a deadline, with the output pipes that \<open>Run\<close> waits for; \<open>log_watcher\<close> is the contract of the body of
    a log watcher.
  \<^item> \<open>Drivers\<close>: \<open>internal/drivers/types.go\<close> and \<open>rts.go\<close>; the Go interface \<open>Driver\<close> is a record of
    operations and \<open>av_driver\<close> its contract. \<open>Clamav\<close>, \<open>Trendmicro\<close>, \<open>Mock\<close> model the three
    engines and discharge the contract, and that of \<open>log_watcher\<close> where they have one.
  \<^item> \<open>Scanner\<close>: \<open>internal/scanner/scanner.go\<close>, proved for any driver that keeps the contract.
  \<^item> \<open>Auth_Client\<close>, \<open>Allowlist\<close>, \<open>Auth_Middleware\<close>: \<open>internal/auth\<close>.
  \<^item> \<open>Http\<close>, \<open>Ratelimit_Handler\<close>, \<open>Api\<close>: requests, responses and the state of the process; the
    rate-limit middleware (\<open>internal/ratelimit/middleware.go\<close>); the API with its routing table and
    the two recording middlewares (\<open>internal/api/handlers.go\<close>, \<open>Middleware\<close> of \<open>metrics.go\<close>).
  \<^item> \<open>Main_Program\<close>: \<open>main.go\<close>, start-up and shutdown, and the relation \<open>served\<close> of what may happen in between.
  \<^item> \<open>Auth_Proxy\<close>: \<open>auth-proxy/main.go\<close>, with the header handling of the library's reverse proxy around it.
\<close>

text \<open>
  What is shown. (1) Verdicts: a scan is answered clean only on a clean verdict of the manual scan
  of the very bytes the client sent; ClamAV's and Trend Micro's verdicts are characterised down to
  exit code, output and JSON fields; every scan ends within its time budget, or when its scanner
  processes have let go of their output. (2) Detection: a report
  in either engine's log format that arrives before the budget ends makes the scan infected, whatever
  else happens meanwhile; in every interleaving of the cache's goroutines no wake-up is lost
  and a detection is delivered at most once. (3) Access: nobody unproven or unlisted gets
  past the middleware, an accepted token was vouched for by the service, a failed reload of the
  allowlist changes nothing. (4) Limits: in every interleaving the in-flight counts are the running scans, the
  concurrency limit is exact, a refusal takes no slot and cancels what it reserved, and no request through the whole handler
  chain leaks a slot, not even one that panics. (5) Housekeeping: uploads are stored inside the upload
  directory and removed after a verdict, scans and answered requests are recorded once, start-up is
  guarded and shutdown does not panic, whatever was served.

  How blocking and concurrency are modelled. Two views are used. For one component, all its callers are a
  transition system with one rule per critical section (\<open>cache_step\<close>, \<open>lim_step\<close>); safety is by
  inductive invariant. For one request, the rest of the machine is a finite timeline of events
  (\<open>w_future\<close>): blocking operations let events happen up to their deadline, and properties hold for
  every timeline. No definition needs fuel: the recursions are structural or have a proved measure, the
  JSON parser is a pushdown automaton over tokens that shorten the input.

  What is not modelled. Logging (\<open>slog\<close>) has no effect on behaviour and is left out, but for the
  access log's lines. The HTTP server's connection handling, TLS and time-outs, the multipart
  parser, Prometheus' page format and the reverse proxy's transport are library code: the model
  starts at the handler with a parsed request. Reading
  an upload, other file operations, the exchange with the authentication service and the program's own
  computation take no time. How much a cancelled reservation gives back is the business of the rate library.
  \<open>json.Marshal\<close> of request and response bodies is represented by the JSON value that is encoded; times in
  bodies are numbers of nanoseconds. Labels that are not UTF-8 make the HTTP middleware panic, as the metrics
  library documents; accounts and engine names are always UTF-8. Rounding to \<open>float64\<close> is exact rational
  arithmetic rounded to 53 bits, without bounds on the exponent.
  The working directory may be missing (\<open>filepath.Abs\<close> then fails), but not change.
  A failure of the tailer after it has started is not modelled; a closed or failing line is
  skipped, as in the code.
\<close>

end
